(* ===== verification/Prelude.thy ===== *)
theory Prelude
  imports Main "HOL-Library.Sublist"
begin

text \<open>
  What every component shares: the values a Go function can end with (a result or a panic),
  the \<open>error\<close> values, the calls of a library that reads and changes the world, string
  joining, and the generic lemmas on lists and on infixes of strings.

  A Go function returning \<open>(T, error)\<close> is a value of type \<open>error + 'a\<close>; one returning
  \<open>error\<close> is an \<open>error option\<close>, \<open>None\<close> being \<open>nil\<close>.  A run-time panic (nil dereference,
  failed type assertion, slice index out of range, closing a closed channel) is the value
  \<open>Panicked\<close> of the type \<open>outcome\<close>; nothing in the program recovers from one.
\<close>

named_theorems go_simps "evaluation rules of the result and sequencing combinators"

datatype 'a outcome = Returned 'a | Panicked

text \<open>
  \<open>NotFound resource key\<close> are the errors \<open>errors.IsNotFound\<close> recognises, \<open>Failure\<close> any
  other error of a library call, \<open>ErrorString\<close> is \<open>fmt.Errorf\<close> without an operand and
  \<open>ErrorOf text err\<close> is \<open>fmt.Errorf("text: %v", err)\<close>, which does not wrap \<open>err\<close>.
\<close>

datatype error =
    NotFound string string
  | Failure string
  | ErrorString string
  | ErrorOf string error

definition IsNotFound :: "error \<Rightarrow> bool" where
  "IsNotFound e = (case e of NotFound _ _ \<Rightarrow> True | _ \<Rightarrow> False)"

lemma IsNotFound_simps [simp]:
  "IsNotFound (NotFound r k)"
  "\<not> IsNotFound (Failure s)"
  "\<not> IsNotFound (ErrorString s)"
  "\<not> IsNotFound (ErrorOf s e)"
  by (simp_all add: IsNotFound_def)

subsection \<open>Sequencing\<close>

text \<open>
  A step that reads and changes a state \<open>'w\<close> and may panic is a function to an outcome and the
  next state.  \<open>call\<close> runs a library operation, \<open>check\<close> goes on with a computed outcome,
  \<open>bind_go\<close> goes on after a step that may itself panic.
\<close>

type_synonym ('w, 'a) go = "'w \<Rightarrow> 'a outcome \<times> 'w"

definition ret :: "'a \<Rightarrow> ('w, 'a) go" where
  "ret a w = (Returned a, w)"

definition panic :: "('w, 'a) go" where
  "panic w = (Panicked, w)"

definition call :: "('w \<Rightarrow> 'a \<times> 'w) \<Rightarrow> ('a \<Rightarrow> ('w, 'b) go) \<Rightarrow> ('w, 'b) go" where
  "call m f w = (case m w of (a, w') \<Rightarrow> f a w')"

definition check :: "'a outcome \<Rightarrow> ('a \<Rightarrow> ('w, 'b) go) \<Rightarrow> ('w, 'b) go" where
  "check r f w = (case r of Returned a \<Rightarrow> f a w | Panicked \<Rightarrow> (Panicked, w))"

definition bind_go :: "('w, 'a) go \<Rightarrow> ('a \<Rightarrow> ('w, 'b) go) \<Rightarrow> ('w, 'b) go" where
  "bind_go m f w = (case m w of (Returned a, w') \<Rightarrow> f a w' | (Panicked, w') \<Rightarrow> (Panicked, w'))"

definition bind_outcome :: "'a outcome \<Rightarrow> ('a \<Rightarrow> 'b outcome) \<Rightarrow> 'b outcome" where
  "bind_outcome r f = (case r of Returned a \<Rightarrow> f a | Panicked \<Rightarrow> Panicked)"

lemmas [go_simps] = ret_def panic_def call_def check_def

lemma bind_outcome_simps [simp, go_simps]:
  "bind_outcome (Returned a) f = f a"
  "bind_outcome Panicked f = Panicked"
  by (simp_all add: bind_outcome_def)

lemma bind_outcome_Returned_iff:
  "bind_outcome r f = Returned b \<longleftrightarrow> (\<exists>a. r = Returned a \<and> f a = Returned b)"
  by (cases r) auto

lemma bind_go_eq [go_simps]:
  "m w = (Returned a, w') \<Longrightarrow> bind_go m f w = f a w'"
  "m w = (Panicked, w') \<Longrightarrow> bind_go m f w = (Panicked, w')"
  by (simp_all add: bind_go_def)

subsection \<open>Strings\<close>

text \<open>\<open>strings.Join\<close>.\<close>

fun join :: "string \<Rightarrow> string list \<Rightarrow> string" where
  "join sep [] = []"
| "join sep [x] = x"
| "join sep (x # y # ys) = x @ sep @ join sep (y # ys)"

text \<open>Splitting at a character, the inverse of joining with it.\<close>

fun split_at :: "char \<Rightarrow> string \<Rightarrow> string list" where
  "split_at c [] = [[]]"
| "split_at c (x # xs) =
     (if x = c then [] # split_at c xs
      else (case split_at c xs of [] \<Rightarrow> [[x]] | w # ws \<Rightarrow> (x # w) # ws))"

lemma split_at_not_Nil [simp]: "split_at c xs \<noteq> []"
  by (induction xs) (auto split: list.splits)

lemma split_at_no_sep: "c \<notin> set xs \<Longrightarrow> split_at c xs = [xs]"
  by (induction xs) auto

lemma split_at_append: "c \<notin> set xs \<Longrightarrow> split_at c (xs @ c # ys) = xs # split_at c ys"
  by (induction xs) auto

lemma split_at_join:
  "xs \<noteq> [] \<Longrightarrow> list_all (\<lambda>x. c \<notin> set x) xs \<Longrightarrow> split_at c (join [c] xs) = xs"
  by (induction "[c]" xs rule: join.induct) (auto simp: split_at_no_sep split_at_append)

lemma join_inj:
  assumes "xs \<noteq> []" "ys \<noteq> []" "list_all (\<lambda>x. c \<notin> set x) xs" "list_all (\<lambda>x. c \<notin> set x) ys"
    and "join [c] xs = join [c] ys"
  shows "xs = ys"
  using assms split_at_join by metis

end
