(* ===== verification/KubeTypes.thy ===== *)
theory KubeTypes
  imports Prelude
begin

text \<open>
  The Kubernetes objects the program reads and writes, with the fields it touches and, for a
  service, an opaque rest, which an update sends back as it was read.  A Go map is a partial
  function, \<open>nil\<close> being the empty one (the program writes only to maps it has made).
  \<open>iface\<close> is what a Go \<open>interface{}\<close> taken from a client-go cache can hold: an object of one of
  the three kinds, the tombstone client-go documents for deletions it learns of late
  (\<open>cache.DeletedFinalStateUnknown\<close>), or any other value.
\<close>

type_synonym go_map = "string \<rightharpoonup> string"

record ObjectMeta =
  obj_name :: string
  obj_namespace :: string
  obj_labels :: go_map
  obj_annotations :: go_map

record ServicePort =
  port_name :: string
  port_number :: int

record Service =
  svc_meta :: ObjectMeta
  svc_ports :: "ServicePort list"
  svc_selector :: go_map
  svc_clusterIP :: string
  svc_rest :: string

record EndpointSubset =
  subset_addresses :: "string list"
  subset_ports :: "int list"

record Endpoints =
  ep_meta :: ObjectMeta
  ep_subsets :: "EndpointSubset list"

datatype ForZone = ForZone string

record Endpoint =
  e_addresses :: "string list"
  e_zone :: "string option"
  e_hints :: "ForZone list option"

record EndpointSlice =
  eps_meta :: ObjectMeta
  eps_addressType :: string
  eps_endpoints :: "Endpoint list"
  eps_ports :: "int list"

datatype iface =
    IService Service
  | IEndpoints Endpoints
  | IEndpointSlice EndpointSlice
  | IDeletedFinalStateUnknown string iface
  | IOther string

datatype EventType = Added | Modified | Deleted | Bookmark | ErrorEvent

definition svc_name :: "Service \<Rightarrow> string" where
  "svc_name s = obj_name (svc_meta s)"

definition svc_namespace :: "Service \<Rightarrow> string" where
  "svc_namespace s = obj_namespace (svc_meta s)"

definition eps_name :: "EndpointSlice \<Rightarrow> string" where
  "eps_name s = obj_name (eps_meta s)"

definition eps_namespace :: "EndpointSlice \<Rightarrow> string" where
  "eps_namespace s = obj_namespace (eps_meta s)"

text \<open>The type assertions \<open>obj.(*v1.Service)\<close>, \<open>obj.(*v1.Endpoints)\<close> and
  \<open>obj.(*discoveryv1.EndpointSlice)\<close>, \<open>None\<close> where they fail.\<close>

fun as_Service :: "iface \<Rightarrow> Service option" where
  "as_Service (IService s) = Some s"
| "as_Service _ = None"

fun as_Endpoints :: "iface \<Rightarrow> Endpoints option" where
  "as_Endpoints (IEndpoints e) = Some e"
| "as_Endpoints _ = None"

fun as_EndpointSlice :: "iface \<Rightarrow> EndpointSlice option" where
  "as_EndpointSlice (IEndpointSlice e) = Some e"
| "as_EndpointSlice _ = None"

text \<open>The metadata of an object, which a tombstone has of the object it wraps.\<close>

fun iface_meta :: "iface \<Rightarrow> ObjectMeta option" where
  "iface_meta (IService s) = Some (svc_meta s)"
| "iface_meta (IEndpoints e) = Some (ep_meta e)"
| "iface_meta (IEndpointSlice e) = Some (eps_meta e)"
| "iface_meta (IDeletedFinalStateUnknown k obj) = None"
| "iface_meta (IOther s) = None"

text \<open>
  A key of an API object: its namespace and its name, ordered as an API server lists them.
\<close>

datatype NamespacedName = NamespacedName (nn_namespace: string) (nn_name: string)

end
