(* ===== verification/Names.thy ===== *)
theory Names
  imports Utils
begin

text \<open>
  When two generated names are equal: the separator is found again in a generated name exactly
  when the namespace does not hold it, and nothing marks where the prefix ends.
\<close>

lemma separator_overlap:
  assumes "''-73736d-'' @ x = us @ ''-73736d-'' @ y" and "us \<noteq> []"
  shows "\<exists>vs. us = ''-73736d'' @ vs"
  using assms by (auto simp: Cons_eq_append_conv append_eq_Cons_conv)

lemma append_split:
  assumes "a @ s @ x = b @ s @ y"
  obtains (left) us where "a = b @ us" "us @ s @ x = s @ y"
    | (right) us where "b = a @ us" "s @ x = us @ s @ y"
  using iffD1 [OF append_eq_append_conv2 assms] by metis

lemma separator_first:
  assumes "a @ ''-73736d-'' @ x = b @ ''-73736d-'' @ y"
    and "\<not> sublist ''-73736d'' a" "\<not> sublist ''-73736d'' b"
  shows "a = b \<and> x = y"
proof -
  have gt: "us = []"
    if "''-73736d-'' @ u = us @ ''-73736d-'' @ v" "\<not> sublist ''-73736d'' (p @ us)" for p us u v
  proof (rule ccontr)
    assume "us \<noteq> []"
    with separator_overlap [OF that(1)] obtain vs where "us = ''-73736d'' @ vs" by blast
    with that(2) show False by (auto simp: sublist_def)
  qed
  from assms(1) consider
      (left) us where "a = b @ us" "us @ ''-73736d-'' @ x = ''-73736d-'' @ y"
    | (right) us where "b = a @ us" "''-73736d-'' @ x = us @ ''-73736d-'' @ y"
    by (rule append_split)
  then show ?thesis
  proof cases
    case left
    with gt [OF left(2) [symmetric]] assms(2) have "us = []" by blast
    with left show ?thesis by simp
  next
    case right
    with gt [OF right(2)] assms(3) have "us = []" by blast
    with right show ?thesis by simp
  qed
qed

lemma generateMirrorName_eq:
  "generateMirrorName p ns n = p @ ''-'' @ ns @ ''-73736d-'' @ n"
  by (simp add: generateMirrorName_def Separator_def)

lemma generateGlobalServiceName_eq:
  "generateGlobalServiceName n ns = ''gl-'' @ ns @ ''-73736d-'' @ n"
  by (simp add: generateGlobalServiceName_def Separator_def)

lemma generateMirrorName_inj:
  assumes "generateMirrorName p ns n = generateMirrorName p ns' n'"
    and "\<not> sublist ''-73736d'' ns" "\<not> sublist ''-73736d'' ns'"
  shows "ns = ns' \<and> n = n'"
  using separator_first [of ns n ns' n'] assms by (simp add: generateMirrorName_eq)

lemma generateGlobalServiceName_inj:
  assumes "generateGlobalServiceName n ns = generateGlobalServiceName n' ns'"
    and "\<not> sublist ''-73736d'' ns" "\<not> sublist ''-73736d'' ns'"
  shows "ns = ns' \<and> n = n'"
  using separator_first [of ns n ns' n'] assms by (simp add: generateGlobalServiceName_eq)

subsection \<open>The generated names\<close>

text \<open>C22: among namespaces that do not hold the separator after a dash, one prefix gives distinct
  mirror names to distinct objects, and distinct services have distinct global names.\<close>

theorem generated_names_distinct:
  assumes "\<not> sublist ''-73736d'' ns" "\<not> sublist ''-73736d'' ns'"
  shows "(generateMirrorName p ns n = generateMirrorName p ns' n' \<longleftrightarrow> ns = ns' \<and> n = n') \<and>
    (generateGlobalServiceName n ns = generateGlobalServiceName n' ns' \<longleftrightarrow> ns = ns' \<and> n = n')"
  using generateMirrorName_inj [OF _ assms] generateGlobalServiceName_inj [OF _ assms] by blast

theorem generated_names_distinct_witness:
  "generateMirrorName ''a'' ''shop'' ''web'' \<noteq> generateMirrorName ''a'' ''shop-73'' ''web''"
  using generated_names_distinct [of "''shop''" "''shop-73''" "''a''" "''web''" "''web''"]
  by (simp add: sublist_code)

text \<open>C23: the names are not distinct beyond that: nothing marks where a prefix ends, so that two
  clusters whose prefixes extend each other clash; a namespace that holds the separator clashes
  with a name that does; and the prefix \<open>gl\<close> gives the mirror the name of the global service.\<close>

theorem generated_names_clash:
  "generateMirrorName p (q @ ''-'' @ ns) n = generateMirrorName (p @ ''-'' @ q) ns n \<and>
   generateMirrorName p ns (n @ ''-73736d-'' @ m) = generateMirrorName p (ns @ ''-73736d-'' @ n) m \<and>
   generateMirrorName ''gl'' ns n = generateGlobalServiceName n ns"
  by (simp add: generateMirrorName_eq generateGlobalServiceName_eq)

end
