(* ===== verification/KubeClient.thy ===== *)
theory KubeClient
  imports Utils
begin

text \<open>
  \<open>kube/common.go\<close> over the Kubernetes client, which is client-go's and a parameter: for each
  kind of object the four requests the program makes, as functions on a world \<open>'w\<close>.  The
  locale \<open>resource_client\<close> states what a request that answers says about the cluster,
  \<open>reliable_client\<close> that requests are answered; both are interpreted, for the three kinds, on
  the in-memory cluster \<open>mem_client\<close>.
\<close>

record ('w, 'o) resource_api =
  r_get :: "string \<Rightarrow> string \<Rightarrow> 'w \<Rightarrow> (error + 'o) \<times> 'w"
  r_create :: "string \<Rightarrow> 'o \<Rightarrow> 'w \<Rightarrow> (error + 'o) \<times> 'w"
  r_update :: "string \<Rightarrow> 'o \<Rightarrow> 'w \<Rightarrow> (error + 'o) \<times> 'w"
  r_delete :: "string \<Rightarrow> string \<Rightarrow> 'w \<Rightarrow> error option \<times> 'w"

text \<open>Each request takes the namespace first, as \<open>client.CoreV1().Services(namespace)\<close>.\<close>

record 'w kube_client =
  Services :: "('w, Service) resource_api"
  EndpointsOf :: "('w, Endpoints) resource_api"
  EndpointSlices :: "('w, EndpointSlice) resource_api"

subsection \<open>The service requests\<close>

definition GetService :: "'w kube_client \<Rightarrow> string \<Rightarrow> string \<Rightarrow> 'w \<Rightarrow> (error + Service) \<times> 'w" where
  "GetService client name namespace = r_get (Services client) namespace name"

definition CreateService ::
  "'w kube_client \<Rightarrow> string \<Rightarrow> string \<Rightarrow> go_map \<Rightarrow> go_map \<Rightarrow> ServicePort list \<Rightarrow> bool \<Rightarrow>
   'w \<Rightarrow> (error + Service) \<times> 'w" where
  "CreateService client name namespace labels annotations ports headless =
     (let svc = \<lparr>svc_meta = \<lparr>obj_name = name, obj_namespace = namespace,
                   obj_labels = labels, obj_annotations = annotations\<rparr>,
                 svc_ports = ports, svc_selector = Map.empty, svc_clusterIP = '''',
                 svc_rest = ''''\<rparr>;
          svc = (if headless then svc\<lparr>svc_clusterIP := ''None''\<rparr> else svc)
      in r_create (Services client) namespace svc)"

definition UpdateService ::
  "'w kube_client \<Rightarrow> Service \<Rightarrow> ServicePort list \<Rightarrow> 'w \<Rightarrow> (error + Service) \<times> 'w" where
  "UpdateService client service ports =
     (let service = service\<lparr>svc_ports := ports, svc_selector := Map.empty\<rparr>
      in r_update (Services client) (svc_namespace service) service)"

definition DeleteService :: "'w kube_client \<Rightarrow> string \<Rightarrow> string \<Rightarrow> 'w \<Rightarrow> error option \<times> 'w" where
  "DeleteService client name namespace = r_delete (Services client) namespace name"

subsection \<open>Creating or updating, and removing\<close>

text \<open>
  The shape the reconcile functions share: read the object, then create a fresh one or update
  the one that was read; and delete where "not found" is no error.  The functions of the program
  are written out in full where they are modelled and shown equal to these.
\<close>

definition ensure ::
  "('w, 'o) resource_api \<Rightarrow> string \<Rightarrow> string \<Rightarrow> 'o \<Rightarrow> ('o \<Rightarrow> string) \<Rightarrow> ('o \<Rightarrow> 'o) \<Rightarrow>
   (string \<Rightarrow> error \<Rightarrow> error) \<Rightarrow> ('w, error option) go" where
  "ensure api ns n fresh update_ns upd wrap w =
     (case r_get api ns n w of
        (Inl e, w1) \<Rightarrow>
          if IsNotFound e
          then (case r_create api ns fresh w1 of
                  (Inl e', w2) \<Rightarrow> (Returned (Some (wrap ''creating'' e')), w2)
                | (Inr _, w2) \<Rightarrow> (Returned None, w2))
          else (Returned (Some (wrap ''getting'' e)), w1)
      | (Inr old, w1) \<Rightarrow>
          (case r_update api (update_ns old) (upd old) w1 of
             (Inl e', w2) \<Rightarrow> (Returned (Some (wrap ''updating'' e')), w2)
           | (Inr _, w2) \<Rightarrow> (Returned None, w2)))"

definition discard ::
  "('w, 'o) resource_api \<Rightarrow> string \<Rightarrow> string \<Rightarrow> (string \<Rightarrow> error \<Rightarrow> error) \<Rightarrow> ('w, error option) go" where
  "discard api ns n wrap w =
     (case r_delete api ns n w of
        (None, w1) \<Rightarrow> (Returned None, w1)
      | (Some e, w1) \<Rightarrow>
          (Returned (if IsNotFound e then None else Some (wrap ''deleting'' e)), w1))"

subsection \<open>What a client promises\<close>

text \<open>
  \<open>view w k\<close> is the object the cluster holds at the key \<open>k\<close> in the world \<open>w\<close>, \<open>meta\<close> its
  metadata, and \<open>admit old new\<close> what the API server stores when \<open>new\<close> is submitted over
  \<open>old\<close> (defaulted fields, allocated addresses).  A request changes no other key.  Nothing is
  assumed of the key's object after a request that fails, except that a request answered
  "not found" found nothing.  The laws speak of requests one after the other: a world in which
  other clients write between two of them is not covered.
\<close>

locale resource_client =
  fixes api :: "('w, 'o) resource_api"
    and view :: "'w \<Rightarrow> NamespacedName \<Rightarrow> 'o option"
    and meta :: "'o \<Rightarrow> ObjectMeta"
    and admit :: "'o option \<Rightarrow> 'o \<Rightarrow> 'o"
  assumes view_meta:
      "view w k = Some obj \<Longrightarrow> k = NamespacedName (obj_namespace (meta obj)) (obj_name (meta obj))"
    and get_frame: "r_get api ns n w = (r, w') \<Longrightarrow> view w' = view w"
    and get_ok: "r_get api ns n w = (Inr obj, w') \<Longrightarrow> view w (NamespacedName ns n) = Some obj"
    and get_missing:
      "r_get api ns n w = (Inl e, w') \<Longrightarrow> IsNotFound e \<Longrightarrow> view w (NamespacedName ns n) = None"
    and create_frame:
      "r_create api ns obj w = (r, w') \<Longrightarrow> k \<noteq> NamespacedName ns (obj_name (meta obj)) \<Longrightarrow>
       view w' k = view w k"
    and create_ok:
      "r_create api ns obj w = (Inr obj', w') \<Longrightarrow>
       view w' (NamespacedName ns (obj_name (meta obj))) = Some (admit None obj)"
    and update_frame:
      "r_update api ns obj w = (r, w') \<Longrightarrow> k \<noteq> NamespacedName ns (obj_name (meta obj)) \<Longrightarrow>
       view w' k = view w k"
    and update_ok:
      "r_update api ns obj w = (Inr obj', w') \<Longrightarrow>
       view w' (NamespacedName ns (obj_name (meta obj))) =
         Some (admit (view w (NamespacedName ns (obj_name (meta obj)))) obj)"
    and delete_frame:
      "r_delete api ns n w = (rd, w') \<Longrightarrow> k \<noteq> NamespacedName ns n \<Longrightarrow> view w' k = view w k"
    and delete_ok: "r_delete api ns n w = (None, w') \<Longrightarrow> view w' (NamespacedName ns n) = None"
    and delete_missing:
      "r_delete api ns n w = (Some e, w') \<Longrightarrow> IsNotFound e \<Longrightarrow>
       view w' (NamespacedName ns n) = None"
begin

lemma delete_gone:
  "r_delete api ns n w = (r, w') \<Longrightarrow> (case r of None \<Rightarrow> True | Some e \<Rightarrow> IsNotFound e) \<Longrightarrow>
   view w' = (view w)(NamespacedName ns n := None)"
  using delete_frame delete_ok delete_missing
  by (intro ext) (auto split: option.splits)

lemma create_view:
  "r_create api ns obj w = (Inr obj', w') \<Longrightarrow>
   view w' = (view w)(NamespacedName ns (obj_name (meta obj)) \<mapsto> admit None obj)"
  using create_frame create_ok by (intro ext) auto

lemma update_view:
  "r_update api ns obj w = (Inr obj', w') \<Longrightarrow>
   view w' = (view w)(NamespacedName ns (obj_name (meta obj)) \<mapsto>
     admit (view w (NamespacedName ns (obj_name (meta obj)))) obj)"
  using update_frame update_ok by (intro ext) auto

lemma discard_spec:
  assumes "discard api ns n wrap w = (r, w')"
  shows "r \<noteq> Panicked" and "k \<noteq> NamespacedName ns n \<Longrightarrow> view w' k = view w k"
    and "r = Returned None \<Longrightarrow> view w' = (view w)(NamespacedName ns n := None)"
proof -
  obtain rd w1 where d: "r_delete api ns n w = (rd, w1)" by force
  from assms d show "r \<noteq> Panicked"
    by (auto simp: discard_def split: option.splits)
  from assms d have w1: "w1 = w'" by (auto simp: discard_def split: option.splits)
  with delete_frame [OF d] show "k \<noteq> NamespacedName ns n \<Longrightarrow> view w' k = view w k" by simp
  show "view w' = (view w)(NamespacedName ns n := None)" if "r = Returned None"
    using delete_gone [OF d] that assms d w1
    by (auto simp: discard_def split: option.splits if_splits)
qed

text \<open>What \<open>ensure\<close> submits at its key: \<open>fresh\<close> where there is no object, else the update of it.\<close>

lemma ensure_spec:
  assumes run: "ensure api ns n fresh update_ns upd wrap w = (r, w')"
    and fresh: "obj_name (meta fresh) = n"
    and upd: "\<And>old. obj_name (meta old) = n \<Longrightarrow> obj_name (meta (upd old)) = n"
    and update_ns: "\<And>old. obj_namespace (meta old) = ns \<Longrightarrow> update_ns old = ns"
  shows "r \<noteq> Panicked" and "k \<noteq> NamespacedName ns n \<Longrightarrow> view w' k = view w k"
    and "r = Returned None \<Longrightarrow> view w' = (view w)(NamespacedName ns n \<mapsto>
      (case view w (NamespacedName ns n) of
         None \<Rightarrow> admit None fresh | Some old \<Rightarrow> admit (Some old) (upd old)))"
proof -
  obtain g w1 where g: "r_get api ns n w = (g, w1)" by force
  note v = get_frame [OF g]
  have "r \<noteq> Panicked \<and> (k \<noteq> NamespacedName ns n \<longrightarrow> view w' k = view w k) \<and>
    (r = Returned None \<longrightarrow> view w' = (view w)(NamespacedName ns n \<mapsto>
      (case view w (NamespacedName ns n) of
         None \<Rightarrow> admit None fresh | Some old \<Rightarrow> admit (Some old) (upd old))))" for k
  proof (cases g)
    case (Inl e)
    obtain c w2 where c: "r_create api ns fresh w1 = (c, w2)" by force
    have new: "IsNotFound e \<Longrightarrow> c = Inr obj \<Longrightarrow> view w2 = (view w)(NamespacedName ns n \<mapsto>
        (case view w (NamespacedName ns n) of
           None \<Rightarrow> admit None fresh | Some old \<Rightarrow> admit (Some old) (upd old)))" for obj
      using create_view [of ns fresh w1 obj w2] c v fresh get_missing [of ns n w e w1] g Inl by simp
    have frame: "k \<noteq> NamespacedName ns n \<Longrightarrow> view w2 k = view w k"
      using create_frame [OF c] v fresh by simp
    from run g Inl c show ?thesis
      using new frame v by (auto simp: ensure_def split: if_splits sum.splits)
  next
    case (Inr old)
    have old: "view w (NamespacedName ns n) = Some old" using get_ok g Inr by simp
    from view_meta [OF this] have key: "update_ns old = ns" "obj_name (meta (upd old)) = n"
      using update_ns upd by auto
    obtain u w2 where u: "r_update api ns (upd old) w1 = (u, w2)" by force
    have new: "u = Inr obj \<Longrightarrow> view w2 = (view w)(NamespacedName ns n \<mapsto>
        (case view w (NamespacedName ns n) of
           None \<Rightarrow> admit None fresh | Some old \<Rightarrow> admit (Some old) (upd old)))" for obj
      using update_view [of ns "upd old" w1 obj w2] u v key old by simp
    have frame: "k \<noteq> NamespacedName ns n \<Longrightarrow> view w2 k = view w k"
      using update_frame [OF u] v key by simp
    from run g Inr u key show ?thesis
      using new frame by (auto simp: ensure_def split: sum.splits)
  qed
  then show "r \<noteq> Panicked" "k \<noteq> NamespacedName ns n \<Longrightarrow> view w' k = view w k"
    "r = Returned None \<Longrightarrow> view w' = (view w)(NamespacedName ns n \<mapsto>
      (case view w (NamespacedName ns n) of
         None \<Rightarrow> admit None fresh | Some old \<Rightarrow> admit (Some old) (upd old)))" by blast+
qed

end

locale reliable_client = resource_client +
  assumes get_present:
      "view w (NamespacedName ns n) = Some obj \<Longrightarrow> \<exists>w'. r_get api ns n w = (Inr obj, w')"
    and get_absent:
      "view w (NamespacedName ns n) = None \<Longrightarrow> \<exists>e w'. r_get api ns n w = (Inl e, w') \<and> IsNotFound e"
    and create_absent:
      "view w (NamespacedName ns (obj_name (meta obj))) = None \<Longrightarrow>
       obj_namespace (meta obj) = ns \<Longrightarrow> \<exists>obj' w'. r_create api ns obj w = (Inr obj', w')"
    and update_present:
      "view w (NamespacedName ns (obj_name (meta obj))) \<noteq> None \<Longrightarrow>
       obj_namespace (meta obj) = ns \<Longrightarrow> \<exists>obj' w'. r_update api ns obj w = (Inr obj', w')"
    and delete_answers:
      "\<exists>rd w'. r_delete api ns n w = (rd, w') \<and> (case rd of None \<Rightarrow> True | Some e \<Rightarrow> IsNotFound e)"
begin

lemma discard_returns: "\<exists>w'. discard api ns n wrap w = (Returned None, w')"
  using delete_answers [of ns n w] by (auto simp: discard_def split: option.splits)

lemma ensure_returns:
  assumes "obj_name (meta fresh) = n" "obj_namespace (meta fresh) = ns"
    and "\<And>old. obj_name (meta old) = n \<Longrightarrow> obj_name (meta (upd old)) = n"
    and "\<And>old. obj_namespace (meta old) = ns \<Longrightarrow> obj_namespace (meta (upd old)) = ns \<and> update_ns old = ns"
  shows "\<exists>w'. ensure api ns n fresh update_ns upd wrap w = (Returned None, w')"
proof (cases "view w (NamespacedName ns n)")
  case None
  then obtain e w1 where g: "r_get api ns n w = (Inl e, w1)" "IsNotFound e"
    using get_absent by blast
  with None get_frame [OF g(1)] assms(1,2) obtain obj' w2 where "r_create api ns fresh w1 = (Inr obj', w2)"
    using create_absent [of w1 ns fresh] by auto
  with g show ?thesis by (simp add: ensure_def)
next
  case (Some old)
  then obtain w1 where g: "r_get api ns n w = (Inr old, w1)" using get_present by blast
  from view_meta [OF Some] have key: "obj_name (meta old) = n" "obj_namespace (meta old) = ns"
    by auto
  with Some get_frame [OF g] assms(3,4) obtain obj' w2 where
    "r_update api ns (upd old) w1 = (Inr obj', w2)" "update_ns old = ns"
    using update_present [of w1 ns "upd old"] by auto
  with g show ?thesis by (simp add: ensure_def)
qed

end

subsection \<open>An in-memory cluster\<close>

text \<open>
  One map per kind; \<open>get_part\<close> and \<open>set_part\<close> pick the map a kind lives in.  Create refuses a
  key that exists and update one that does not, and both refuse an object of another namespace.
\<close>

record cluster =
  c_services :: "NamespacedName \<rightharpoonup> Service"
  c_endpoints :: "NamespacedName \<rightharpoonup> Endpoints"
  c_slices :: "NamespacedName \<rightharpoonup> EndpointSlice"

definition empty_cluster :: cluster where
  "empty_cluster = \<lparr>c_services = Map.empty, c_endpoints = Map.empty, c_slices = Map.empty\<rparr>"

definition placed ::
  "('o \<Rightarrow> ObjectMeta) \<Rightarrow> (NamespacedName \<rightharpoonup> 'o) \<Rightarrow> NamespacedName \<Rightarrow> 'o option" where
  "placed meta m k =
     (case m k of
        None \<Rightarrow> None
      | Some obj \<Rightarrow>
          if k = NamespacedName (obj_namespace (meta obj)) (obj_name (meta obj)) then Some obj else None)"

definition mem_api ::
  "string \<Rightarrow> ('o \<Rightarrow> ObjectMeta) \<Rightarrow> ('w \<Rightarrow> NamespacedName \<rightharpoonup> 'o) \<Rightarrow>
   ((NamespacedName \<rightharpoonup> 'o) \<Rightarrow> 'w \<Rightarrow> 'w) \<Rightarrow> ('w, 'o) resource_api" where
  "mem_api kind meta get_part set_part =
     \<lparr>r_get = (\<lambda>ns n w. (case placed meta (get_part w) (NamespacedName ns n) of
          None \<Rightarrow> (Inl (NotFound kind n), w) | Some obj \<Rightarrow> (Inr obj, w))),
      r_create = (\<lambda>ns obj w. let k = NamespacedName ns (obj_name (meta obj)) in
          if obj_namespace (meta obj) \<noteq> ns then (Inl (Failure ''namespace mismatch''), w)
          else (case placed meta (get_part w) k of
            Some _ \<Rightarrow> (Inl (Failure ''already exists''), w)
          | None \<Rightarrow> (Inr obj, set_part ((get_part w)(k \<mapsto> obj)) w))),
      r_update = (\<lambda>ns obj w. let k = NamespacedName ns (obj_name (meta obj)) in
          if obj_namespace (meta obj) \<noteq> ns then (Inl (Failure ''namespace mismatch''), w)
          else (case placed meta (get_part w) k of
            None \<Rightarrow> (Inl (NotFound kind (obj_name (meta obj))), w)
          | Some _ \<Rightarrow> (Inr obj, set_part ((get_part w)(k \<mapsto> obj)) w))),
      r_delete = (\<lambda>ns n w. (case placed meta (get_part w) (NamespacedName ns n) of
          None \<Rightarrow> (Some (NotFound kind n), w)
        | Some _ \<Rightarrow> (None, set_part ((get_part w)(NamespacedName ns n := None)) w)))\<rparr>"

definition mem_services :: "(cluster, Service) resource_api" where
  "mem_services = mem_api ''services'' svc_meta c_services (\<lambda>m. c_services_update (\<lambda>_. m))"

definition mem_endpoints :: "(cluster, Endpoints) resource_api" where
  "mem_endpoints = mem_api ''endpoints'' ep_meta c_endpoints (\<lambda>m. c_endpoints_update (\<lambda>_. m))"

definition mem_slices :: "(cluster, EndpointSlice) resource_api" where
  "mem_slices = mem_api ''endpointslices'' eps_meta c_slices (\<lambda>m. c_slices_update (\<lambda>_. m))"

definition mem_client :: "cluster kube_client" where
  "mem_client = \<lparr>Services = mem_services, EndpointsOf = mem_endpoints, EndpointSlices = mem_slices\<rparr>"

abbreviation as_submitted :: "'o option \<Rightarrow> 'o \<Rightarrow> 'o" where
  "as_submitted old new \<equiv> new"

lemma placed_upd [simp]:
  "placed meta (m(k := None)) = (placed meta m)(k := None)"
  "k = NamespacedName (obj_namespace (meta obj)) (obj_name (meta obj)) \<Longrightarrow>
   placed meta (m(k \<mapsto> obj)) = (placed meta m)(k \<mapsto> obj)"
  by (auto simp: placed_def fun_eq_iff)

lemma placed_meta:
  "placed meta m k = Some obj \<Longrightarrow> k = NamespacedName (obj_namespace (meta obj)) (obj_name (meta obj))"
  by (auto simp: placed_def split: option.splits if_splits)

lemma mem_api_reliable:
  assumes get_set: "\<And>m w. get_part (set_part m w) = m"
  shows "reliable_client (mem_api kind meta get_part set_part) (\<lambda>w. placed meta (get_part w))
    meta as_submitted"
  by unfold_locales
    (auto simp: mem_api_def Let_def get_set placed_meta split: option.splits if_splits)

abbreviation services_view :: "cluster \<Rightarrow> NamespacedName \<Rightarrow> Service option" where
  "services_view w \<equiv> placed svc_meta (c_services w)"

abbreviation endpoints_view :: "cluster \<Rightarrow> NamespacedName \<Rightarrow> Endpoints option" where
  "endpoints_view w \<equiv> placed ep_meta (c_endpoints w)"

abbreviation slices_view :: "cluster \<Rightarrow> NamespacedName \<Rightarrow> EndpointSlice option" where
  "slices_view w \<equiv> placed eps_meta (c_slices w)"

interpretation mem_svc: reliable_client mem_services services_view svc_meta as_submitted
  unfolding mem_services_def by (rule mem_api_reliable) simp

interpretation mem_ep: reliable_client mem_endpoints endpoints_view ep_meta as_submitted
  unfolding mem_endpoints_def by (rule mem_api_reliable) simp

interpretation mem_eps: reliable_client mem_slices slices_view eps_meta as_submitted
  unfolding mem_slices_def by (rule mem_api_reliable) simp

lemma mem_client_sel [simp]:
  "Services mem_client = mem_services"
  "EndpointsOf mem_client = mem_endpoints"
  "EndpointSlices mem_client = mem_slices"
  by (simp_all add: mem_client_def)

lemmas mem_eval = placed_def mem_services_def mem_endpoints_def mem_slices_def mem_api_def Let_def

end
