(* ===== verification/Metrics.thy ===== *)
theory Metrics
  imports KubeTypes
begin

text \<open>
  The updates the program makes to its Prometheus metrics, as values: the metric vector, the
  labels given to \<open>With\<close>, and what is done to the series.  The components return the updates
  they make, in order.  A metric vector is its name and the label names it was declared with.
\<close>

record metric_vec =
  mv_name :: string
  mv_labels :: "string list"

datatype metric_op = MInc | MSet int

datatype metric_update = MetricUpdate metric_vec "(string \<times> string) list" metric_op

definition kubeWatcherObjects :: metric_vec where
  "kubeWatcherObjects = \<lparr>mv_name = ''semaphore_service_mirror_kube_watcher_objects'',
     mv_labels = [''watcher'', ''kind'', ''runner'']\<rparr>"

definition kubeWatcherEvents :: metric_vec where
  "kubeWatcherEvents = \<lparr>mv_name = ''semaphore_service_mirror_kube_watcher_events_total'',
     mv_labels = [''watcher'', ''kind'', ''event_type'', ''runner'']\<rparr>"

definition queueRequeued :: metric_vec where
  "queueRequeued = \<lparr>mv_name = ''semaphore_service_mirror_queue_requeued_items'',
     mv_labels = [''name'']\<rparr>"

text \<open>The strings of apimachinery's \<open>watch.EventType\<close> constants.\<close>

fun event_string :: "EventType \<Rightarrow> string" where
  "event_string Added = ''ADDED''"
| "event_string Modified = ''MODIFIED''"
| "event_string Deleted = ''DELETED''"
| "event_string Bookmark = ''BOOKMARK''"
| "event_string ErrorEvent = ''ERROR''"

definition IncKubeWatcherEvents :: "string \<Rightarrow> string \<Rightarrow> string \<Rightarrow> EventType \<Rightarrow> metric_update" where
  "IncKubeWatcherEvents watcher kind runner eventType =
     MetricUpdate kubeWatcherEvents
       [(''watcher'', watcher), (''kind'', kind), (''event_type'', event_string eventType),
        (''runner'', runner)] MInc"

definition SetKubeWatcherObjects :: "string \<Rightarrow> string \<Rightarrow> string \<Rightarrow> int \<Rightarrow> metric_update" where
  "SetKubeWatcherObjects watcher kind runner v =
     MetricUpdate kubeWatcherObjects
       [(''watcher'', watcher), (''kind'', kind), (''runner'', runner)] (MSet v)"

definition SetRequeued :: "string \<Rightarrow> int \<Rightarrow> metric_update" where
  "SetRequeued name val = MetricUpdate queueRequeued [(''name'', name)] (MSet val)"

text \<open>\<open>With\<close> panics unless it is given exactly the declared label names.\<close>

fun labels_declared :: "metric_update \<Rightarrow> bool" where
  "labels_declared (MetricUpdate v labels u) =
     (distinct (map fst labels) \<and> set (map fst labels) = set (mv_labels v))"

lemma updates_labels_declared [simp]:
  "labels_declared (IncKubeWatcherEvents w k r et)"
  "labels_declared (SetKubeWatcherObjects w k r v)"
  "labels_declared (SetRequeued q v)"
  by (auto simp: IncKubeWatcherEvents_def SetKubeWatcherObjects_def SetRequeued_def
      kubeWatcherEvents_def kubeWatcherObjects_def queueRequeued_def)

subsection \<open>What client-go is given to measure with\<close>

text \<open>
  \<open>metrics/queue.go\<close> and \<open>metrics/kube_client.go\<close>: client-go asks for the series of a queue
  by its name and reports each request.  A series is a vector with the labels given to \<open>With\<close>.
\<close>

datatype metric_series = Series metric_vec "(string \<times> string) list"

abbreviation queue_vec :: "string \<Rightarrow> metric_vec" where
  "queue_vec what \<equiv> \<lparr>mv_name = ''semaphore_service_mirror_queue_'' @ what, mv_labels = [''name'']\<rparr>"

definition queueDepth :: metric_vec where "queueDepth = queue_vec ''depth''"
definition queueAdds :: metric_vec where "queueAdds = queue_vec ''adds_total''"
definition queueLatency :: metric_vec where "queueLatency = queue_vec ''latency_duration_seconds''"
definition queueWorkDuration :: metric_vec where "queueWorkDuration = queue_vec ''work_duration_seconds''"
definition queueUnfinishedWork :: metric_vec where "queueUnfinishedWork = queue_vec ''unfinished_work_seconds''"
definition queueLongestRunningProcessor :: metric_vec where
  "queueLongestRunningProcessor = queue_vec ''longest_running_processor_seconds''"
definition queueRetries :: metric_vec where "queueRetries = queue_vec ''retries_total''"

definition NewDepthMetric :: "string \<Rightarrow> metric_series" where
  "NewDepthMetric name = Series queueDepth [(''name'', name)]"

definition NewAddsMetric :: "string \<Rightarrow> metric_series" where
  "NewAddsMetric name = Series queueAdds [(''name'', name)]"

definition NewLatencyMetric :: "string \<Rightarrow> metric_series" where
  "NewLatencyMetric name = Series queueLatency [(''name'', name)]"

definition NewWorkDurationMetric :: "string \<Rightarrow> metric_series" where
  "NewWorkDurationMetric name = Series queueWorkDuration [(''name'', name)]"

definition NewUnfinishedWorkSecondsMetric :: "string \<Rightarrow> metric_series" where
  "NewUnfinishedWorkSecondsMetric name = Series queueUnfinishedWork [(''name'', name)]"

definition NewLongestRunningProcessorSecondsMetric :: "string \<Rightarrow> metric_series" where
  "NewLongestRunningProcessorSecondsMetric name = Series queueLongestRunningProcessor [(''name'', name)]"

definition NewRetriesMetric :: "string \<Rightarrow> metric_series" where
  "NewRetriesMetric name = Series queueRetries [(''name'', name)]"

definition kubeClientRequests :: metric_vec where
  "kubeClientRequests = \<lparr>mv_name = ''semaphore_service_mirror_kube_http_request_total'',
     mv_labels = [''host'', ''code'', ''method'']\<rparr>"

definition kubeClientRequestsDuration :: metric_vec where
  "kubeClientRequestsDuration = \<lparr>mv_name = ''semaphore_service_mirror_kube_http_request_duration_seconds'',
     mv_labels = [''host'', ''method'']\<rparr>"

text \<open>\<open>Increment\<close> and \<open>Observe\<close>, by the series they add to.\<close>

definition kubeClient_Increment :: "string \<Rightarrow> string \<Rightarrow> string \<Rightarrow> metric_series" where
  "kubeClient_Increment code method host =
     Series kubeClientRequests [(''code'', code), (''method'', method), (''host'', host)]"

definition kubeClient_Observe :: "string \<Rightarrow> string \<Rightarrow> metric_series" where
  "kubeClient_Observe method host = Series kubeClientRequestsDuration [(''host'', host), (''method'', method)]"

text \<open>The vectors each of the three \<open>init\<close> functions registers, in their order.\<close>

definition kube_client_init :: "metric_vec list" where
  "kube_client_init = [kubeClientRequests, kubeClientRequestsDuration]"

definition kube_watcher_init :: "metric_vec list" where
  "kube_watcher_init = [kubeWatcherObjects, kubeWatcherEvents]"

definition queue_init :: "metric_vec list" where
  "queue_init = [queueDepth, queueAdds, queueLatency, queueWorkDuration, queueUnfinishedWork,
     queueLongestRunningProcessor, queueRetries, queueRequeued]"

definition registered :: "metric_vec list" where
  "registered = kube_client_init @ kube_watcher_init @ queue_init"

fun series_ok :: "metric_series \<Rightarrow> bool" where
  "series_ok (Series v labels) =
     (v \<in> set registered \<and> distinct (map fst labels) \<and> set (map fst labels) = set (mv_labels v))"

fun update_series :: "metric_update \<Rightarrow> metric_series" where
  "update_series (MetricUpdate v labels u) = Series v labels"

lemmas metric_inits = kube_client_init_def kube_watcher_init_def queue_init_def

lemmas metric_vecs =
  queueDepth_def queueAdds_def queueLatency_def queueWorkDuration_def queueUnfinishedWork_def
  queueLongestRunningProcessor_def queueRetries_def queueRequeued_def kubeClientRequests_def
  kubeClientRequestsDuration_def kubeWatcherObjects_def kubeWatcherEvents_def

text \<open>C40: the registered vectors have distinct names, so that no registration panics, and every series
  the program or client-go asks for is of a registered vector with exactly the labels it
  declares, so that no use of one panics.\<close>

theorem metrics_never_panic:
  "distinct (map mv_name registered) \<and>
   series_ok (NewDepthMetric q) \<and> series_ok (NewAddsMetric q) \<and> series_ok (NewLatencyMetric q) \<and>
   series_ok (NewWorkDurationMetric q) \<and> series_ok (NewUnfinishedWorkSecondsMetric q) \<and>
   series_ok (NewLongestRunningProcessorSecondsMetric q) \<and> series_ok (NewRetriesMetric q) \<and>
   series_ok (kubeClient_Increment code method host) \<and> series_ok (kubeClient_Observe method host) \<and>
   series_ok (update_series (SetRequeued q n)) \<and>
   series_ok (update_series (IncKubeWatcherEvents w k r et)) \<and>
   series_ok (update_series (SetKubeWatcherObjects w k r n))"
proof -
  have names: "distinct (map mv_name registered)"
    by (simp add: registered_def metric_inits metric_vecs)
  have members: "queueDepth \<in> set registered" "queueAdds \<in> set registered" "queueLatency \<in> set registered"
    "queueWorkDuration \<in> set registered" "queueUnfinishedWork \<in> set registered"
    "queueLongestRunningProcessor \<in> set registered" "queueRetries \<in> set registered"
    "queueRequeued \<in> set registered" "kubeClientRequests \<in> set registered"
    "kubeClientRequestsDuration \<in> set registered" "kubeWatcherObjects \<in> set registered"
    "kubeWatcherEvents \<in> set registered"
    by (simp_all add: registered_def metric_inits)
  have labels: "set (mv_labels queueDepth) = {''name''}" "set (mv_labels queueAdds) = {''name''}"
    "set (mv_labels queueLatency) = {''name''}" "set (mv_labels queueWorkDuration) = {''name''}"
    "set (mv_labels queueUnfinishedWork) = {''name''}" "set (mv_labels queueLongestRunningProcessor) = {''name''}"
    "set (mv_labels queueRetries) = {''name''}" "set (mv_labels queueRequeued) = {''name''}"
    "set (mv_labels kubeClientRequests) = {''host'', ''code'', ''method''}"
    "set (mv_labels kubeClientRequestsDuration) = {''host'', ''method''}"
    "set (mv_labels kubeWatcherObjects) = {''watcher'', ''kind'', ''runner''}"
    "set (mv_labels kubeWatcherEvents) = {''watcher'', ''kind'', ''event_type'', ''runner''}"
    by (simp_all add: metric_vecs)
  show ?thesis
    using names members labels
    by (auto simp: NewDepthMetric_def NewAddsMetric_def NewLatencyMetric_def NewWorkDurationMetric_def
        NewUnfinishedWorkSecondsMetric_def NewLongestRunningProcessorSecondsMetric_def NewRetriesMetric_def
        kubeClient_Increment_def kubeClient_Observe_def SetRequeued_def IncKubeWatcherEvents_def
        SetKubeWatcherObjects_def)
qed

end
