(* ===== verification/Queue.thy ===== *)
theory Queue
  imports Metrics "HOL-Library.Multiset"
begin

text \<open>
  \<open>queue.go\<close>: the queue of keys of one kind of object, which a worker takes keys from and
  reconciles.  The rate-limited work queue is client-go's and a parameter (\<open>workqueue\<close>); the
  locale \<open>workqueue_client\<close> states what its documentation promises, and is interpreted on the
  in-memory work queue below.  The functions that make and split keys are client-go's too and
  are arguments.
\<close>

text \<open>
  \<open>wq_Get\<close> is \<open>None\<close> when it blocks for good: nothing is queued, nothing is delayed and the
  queue is not shut down.  The \<open>bool\<close> it returns is its \<open>shutdown\<close> result.
\<close>

record 'q workqueue =
  wq_Add :: "string \<Rightarrow> 'q \<Rightarrow> 'q"
  wq_Get :: "'q \<Rightarrow> ((string \<times> bool) \<times> 'q) option"
  wq_Done :: "string \<Rightarrow> 'q \<Rightarrow> 'q"
  wq_AddRateLimited :: "string \<Rightarrow> 'q \<Rightarrow> 'q"
  wq_Forget :: "string \<Rightarrow> 'q \<Rightarrow> 'q"
  wq_ShutDown :: "'q \<Rightarrow> 'q"

type_synonym 'w queueReconcileFunc = "string \<Rightarrow> string \<Rightarrow> ('w, error option) go"

record 'q queue =
  q_name :: string
  q_queue :: 'q
  q_requeued :: "string list"

definition newQueue :: "string \<Rightarrow> 'q \<Rightarrow> 'q queue" where
  "newQueue name empty_queue = \<lparr>q_name = name, q_queue = empty_queue, q_requeued = []\<rparr>"

definition queue_Add ::
  "'q workqueue \<Rightarrow> (iface \<Rightarrow> error + string) \<Rightarrow> iface \<Rightarrow> 'q queue \<Rightarrow> 'q queue" where
  "queue_Add wq keyfunc obj q =
     (case keyfunc obj of
        Inl err \<Rightarrow> q
      | Inr key \<Rightarrow> q\<lparr>q_queue := wq_Add wq key (q_queue q)\<rparr>)"

definition queue_Stop :: "'q workqueue \<Rightarrow> 'q queue \<Rightarrow> 'q queue" where
  "queue_Stop wq q = q\<lparr>q_queue := wq_ShutDown wq (q_queue q)\<rparr>"

fun has_key :: "string list \<Rightarrow> string \<Rightarrow> bool" where
  "has_key [] key = False"
| "has_key (k # ks) key = (if k = key then True else has_key ks key)"

definition addRequeued :: "string \<Rightarrow> 'q queue \<Rightarrow> 'q queue" where
  "addRequeued key q =
     (if has_key (q_requeued q) key then q else q\<lparr>q_requeued := q_requeued q @ [key]\<rparr>)"

fun cut_key :: "string list \<Rightarrow> string \<Rightarrow> string list" where
  "cut_key [] key = []"
| "cut_key (k # ks) key = (if k = key then ks else k # cut_key ks key)"

definition removeRequeued :: "string \<Rightarrow> 'q queue \<Rightarrow> 'q queue" where
  "removeRequeued key q = q\<lparr>q_requeued := cut_key (q_requeued q) key\<rparr>"

definition requeue :: "'q workqueue \<Rightarrow> string \<Rightarrow> 'q queue \<Rightarrow> 'q queue" where
  "requeue wq key q = addRequeued key (q\<lparr>q_queue := wq_AddRateLimited wq key (q_queue q)\<rparr>)"

definition forget :: "'q workqueue \<Rightarrow> string \<Rightarrow> 'q queue \<Rightarrow> 'q queue" where
  "forget wq key q = removeRequeued key (q\<lparr>q_queue := wq_Forget wq key (q_queue q)\<rparr>)"

definition updateMetrics :: "'q queue \<Rightarrow> metric_update" where
  "updateMetrics q = SetRequeued (q_name q) (int (length (q_requeued q)))"

text \<open>
  One item; the deferred \<open>Done\<close> runs last on every path after \<open>Get\<close>, a panic of the reconcile
  function included.
\<close>

definition processItem ::
  "'q workqueue \<Rightarrow> (string \<Rightarrow> error + string \<times> string) \<Rightarrow> 'w queueReconcileFunc \<Rightarrow>
   'q queue \<Rightarrow> 'w \<Rightarrow> (bool outcome \<times> 'q queue \<times> 'w) option" where
  "processItem wq split reconcileFunc q w =
     (case wq_Get wq (q_queue q) of
        None \<Rightarrow> None
      | Some ((key, shutdown), wqs) \<Rightarrow>
          let q = q\<lparr>q_queue := wqs\<rparr>;
              deferred = (\<lambda>q. q\<lparr>q_queue := wq_Done wq key (q_queue q)\<rparr>)
          in if shutdown then Some (Returned False, q, w)
             else (case split key of
                 Inl err \<Rightarrow> Some (Returned True, deferred (forget wq key q), w)
               | Inr (namespace, name) \<Rightarrow>
                   (case reconcileFunc name namespace w of
                      (Panicked, w) \<Rightarrow> Some (Panicked, deferred q, w)
                    | (Returned (Some err), w) \<Rightarrow> Some (Returned True, deferred (requeue wq key q), w)
                    | (Returned None, w) \<Rightarrow> Some (Returned True, deferred (forget wq key q), w))))"

text \<open>
  \<open>Run\<close>: \<open>None\<close> when it does not return.  The metric updates are collected.
\<close>

partial_function (option) queue_loop ::
  "'q workqueue \<Rightarrow> (string \<Rightarrow> error + string \<times> string) \<Rightarrow> 'w queueReconcileFunc \<Rightarrow>
   'q queue \<Rightarrow> 'w \<Rightarrow> metric_update list \<Rightarrow>
   (unit outcome \<times> 'q queue \<times> 'w \<times> metric_update list) option" where
  "queue_loop wq split reconcileFunc q w ms =
     (case processItem wq split reconcileFunc q w of
        None \<Rightarrow> None
      | Some (r, q', w') \<Rightarrow>
          (case r of
             Panicked \<Rightarrow> Some (Panicked, q', w', ms)
           | Returned continue \<Rightarrow>
               if continue then queue_loop wq split reconcileFunc q' w' (ms @ [updateMetrics q'])
               else Some (Returned (), q', w', ms)))"

definition queue_Run ::
  "'q workqueue \<Rightarrow> (string \<Rightarrow> error + string \<times> string) \<Rightarrow> 'w queueReconcileFunc \<Rightarrow>
   'q queue \<Rightarrow> 'w \<Rightarrow> (unit outcome \<times> 'q queue \<times> 'w \<times> metric_update list) option" where
  "queue_Run wq split reconcileFunc q w = queue_loop wq split reconcileFunc q w [updateMetrics q]"

subsection \<open>The requeued keys\<close>

lemma has_key_iff [simp]: "has_key ks key \<longleftrightarrow> key \<in> set ks"
  by (induction ks) auto

lemma cut_key_remove1 [simp]: "cut_key ks key = remove1 key ks"
  by (induction ks) auto

lemma requeue_fields [simp]:
  "q_queue (requeue wq key q) = wq_AddRateLimited wq key (q_queue q)"
  "q_name (requeue wq key q) = q_name q"
  "set (q_requeued (requeue wq key q)) = insert key (set (q_requeued q))"
  "distinct (q_requeued (requeue wq key q)) \<longleftrightarrow> distinct (q_requeued q)"
  by (auto simp: requeue_def addRequeued_def)

lemma forget_fields [simp]:
  "q_queue (forget wq key q) = wq_Forget wq key (q_queue q)"
  "q_name (forget wq key q) = q_name q"
  "q_requeued (forget wq key q) = remove1 key (q_requeued q)"
  by (auto simp: forget_def removeRequeued_def)

lemma queue_Add_fields [simp]:
  "q_requeued (queue_Add wq kf obj q) = q_requeued q"
  "q_name (queue_Add wq kf obj q) = q_name q"
  by (simp_all add: queue_Add_def split: sum.split)

text \<open>The outcomes of \<open>processItem\<close>, one by one.\<close>

definition key_failed ::
  "(string \<Rightarrow> error + string \<times> string) \<Rightarrow> 'w queueReconcileFunc \<Rightarrow> string \<Rightarrow> 'w \<Rightarrow> bool" where
  "key_failed split reconcileFunc key w =
     (case split key of
        Inl err \<Rightarrow> False
      | Inr (ns, n) \<Rightarrow>
          (case fst (reconcileFunc n ns w) of Returned (Some err) \<Rightarrow> True | _ \<Rightarrow> False))"

text \<open>Reconciling a key succeeds whatever the world, and the world it leaves.\<close>

definition key_succeeds ::
  "(string \<Rightarrow> error + string \<times> string) \<Rightarrow> 'w queueReconcileFunc \<Rightarrow> string \<Rightarrow> bool" where
  "key_succeeds split rf key \<longleftrightarrow>
     (\<forall>w. case split key of Inl e \<Rightarrow> True | Inr (ns, n) \<Rightarrow> fst (rf n ns w) = Returned None)"

definition reconcile_key ::
  "(string \<Rightarrow> error + string \<times> string) \<Rightarrow> 'w queueReconcileFunc \<Rightarrow> string \<Rightarrow> 'w \<Rightarrow> 'w" where
  "reconcile_key split rf key w =
     (case split key of Inl e \<Rightarrow> w | Inr (ns, n) \<Rightarrow> snd (rf n ns w))"

lemma processItem_next:
  assumes "processItem wq split rf q w = Some (Returned True, q', w')"
  obtains key wqs where "wq_Get wq (q_queue q) = Some ((key, False), wqs)"
    and "q' = (let q1 = q\<lparr>q_queue := wqs\<rparr>;
                   q2 = (if key_failed split rf key w then requeue wq key q1 else forget wq key q1)
               in q2\<lparr>q_queue := wq_Done wq key (q_queue q2)\<rparr>)"
    and "w' = (case split key of Inl err \<Rightarrow> w | Inr (ns, n) \<Rightarrow> snd (rf n ns w))"
  using assms
  by (auto simp: processItem_def key_failed_def Let_def
      split: option.splits prod.splits if_splits sum.splits outcome.splits)

text \<open>What \<open>processItem\<close> does with a key once it has taken it.\<close>

definition finish_item ::
  "'q workqueue \<Rightarrow> (string \<Rightarrow> error + string \<times> string) \<Rightarrow> 'w queueReconcileFunc \<Rightarrow>
   string \<Rightarrow> 'q queue \<Rightarrow> 'w \<Rightarrow> bool outcome \<times> 'q queue \<times> 'w" where
  "finish_item wq split rf key q w =
     (let deferred = (\<lambda>q. q\<lparr>q_queue := wq_Done wq key (q_queue q)\<rparr>)
      in case split key of
           Inl err \<Rightarrow> (Returned True, deferred (forget wq key q), w)
         | Inr (namespace, name) \<Rightarrow>
             (case rf name namespace w of
                (Panicked, w) \<Rightarrow> (Panicked, deferred q, w)
              | (Returned (Some err), w) \<Rightarrow> (Returned True, deferred (requeue wq key q), w)
              | (Returned None, w) \<Rightarrow> (Returned True, deferred (forget wq key q), w)))"

lemma processItem_take_finish:
  "processItem wq split rf q w =
     (case wq_Get wq (q_queue q) of
        None \<Rightarrow> None
      | Some ((key, shutdown), wqs) \<Rightarrow>
          Some (if shutdown then (Returned False, q\<lparr>q_queue := wqs\<rparr>, w)
                else finish_item wq split rf key (q\<lparr>q_queue := wqs\<rparr>) w))"
  by (auto simp: processItem_def finish_item_def Let_def
      split: option.splits prod.splits sum.splits outcome.splits)

subsection \<open>Runs with other events in between\<close>

text \<open>
  A run of a worker: items it processes, with the log of their keys and whether they failed, and
  in between objects added by event handlers and changes others make to the world.
\<close>

inductive worker_run ::
  "'q workqueue \<Rightarrow> (iface \<Rightarrow> error + string) \<Rightarrow> (string \<Rightarrow> error + string \<times> string) \<Rightarrow>
   'w queueReconcileFunc \<Rightarrow> 'q queue \<times> 'w \<Rightarrow> (string \<times> bool) list \<Rightarrow> 'q queue \<times> 'w \<Rightarrow> bool"
  for wq kf split rf s where
  start: "worker_run wq kf split rf s [] s"
| item: "worker_run wq kf split rf s log (q, w) \<Longrightarrow>
    processItem wq split rf q w = Some (Returned True, q', w') \<Longrightarrow>
    wq_Get wq (q_queue q) = Some ((key, False), wqs) \<Longrightarrow>
    worker_run wq kf split rf s (log @ [(key, key_failed split rf key w)]) (q', w')"
| event: "worker_run wq kf split rf s log (q, w) \<Longrightarrow>
    worker_run wq kf split rf s log (queue_Add wq kf obj q, w)"
| world: "worker_run wq kf split rf s log (q, w) \<Longrightarrow> worker_run wq kf split rf s log (q, w')"

lemma item_requeued:
  assumes "processItem wq split rf q w = Some (Returned True, q', w')"
    and "wq_Get wq (q_queue q) = Some ((key, False), wqs)"
  shows "q_name q' = q_name q"
    and "distinct (q_requeued q) \<Longrightarrow> distinct (q_requeued q')"
    and "distinct (q_requeued q) \<Longrightarrow> set (q_requeued q') =
      (if key_failed split rf key w then insert key (set (q_requeued q))
       else set (q_requeued q) - {key})"
proof -
  from processItem_next [OF assms(1)] assms(2)
  have q': "q' = (let q1 = q\<lparr>q_queue := wqs\<rparr>;
      q2 = (if key_failed split rf key w then requeue wq key q1 else forget wq key q1)
    in q2\<lparr>q_queue := wq_Done wq key (q_queue q2)\<rparr>)" by auto
  show "q_name q' = q_name q" by (simp add: q' Let_def)
  show "distinct (q_requeued q) \<Longrightarrow> distinct (q_requeued q')" by (simp add: q' Let_def)
  show "distinct (q_requeued q) \<Longrightarrow> set (q_requeued q') =
      (if key_failed split rf key w then insert key (set (q_requeued q))
       else set (q_requeued q) - {key})" by (simp add: q' Let_def)
qed

text \<open>The keys whose last result in the log is a failure.\<close>

definition failing :: "(string \<times> bool) list \<Rightarrow> string set" where
  "failing log = {k. map_of (rev log) k = Some True}"

lemma failing_simps [simp]:
  "failing [] = {}"
  "failing (log @ [(k, f)]) = (if f then insert k (failing log) else failing log - {k})"
  by (auto simp: failing_def)

lemma worker_run_requeued:
  assumes "worker_run wq kf split rf s log s'" "q_requeued (fst s) = []"
  shows "distinct (q_requeued (fst s')) \<and> set (q_requeued (fst s')) = failing log"
  using assms
proof (induction rule: worker_run.induct)
  case (item log q w q' w' key wqs)
  from item.IH [OF item.prems] item_requeued(2,3) [OF item.hyps(2,3)] show ?case by simp
qed auto

text \<open>At most \<open>n\<close> items in a row, with the keys they had.\<close>

fun process_items ::
  "nat \<Rightarrow> 'q workqueue \<Rightarrow> (string \<Rightarrow> error + string \<times> string) \<Rightarrow> 'w queueReconcileFunc \<Rightarrow>
   'q queue \<Rightarrow> 'w \<Rightarrow> string list \<times> 'q queue \<times> 'w" where
  "process_items 0 wq split rf q w = ([], q, w)"
| "process_items (Suc n) wq split rf q w =
     (case wq_Get wq (q_queue q) of
        Some ((key, False), _) \<Rightarrow>
          (case processItem wq split rf q w of
             Some (Returned True, q', w') \<Rightarrow>
               (case process_items n wq split rf q' w' of (log, r) \<Rightarrow> (key # log, r))
           | _ \<Rightarrow> ([], q, w))
      | _ \<Rightarrow> ([], q, w))"

subsection \<open>What a work queue promises\<close>

text \<open>
  \<open>pending q\<close> are the keys \<open>Get\<close> has still to return, with the rate-limited ones that wait for
  their delay, and \<open>processing q\<close> those \<open>Get\<close> has returned that are not \<open>Done\<close>.  Before the
  shutdown an added key is pending, once at most more than before; \<open>Get\<close> takes one pending key,
  and blocks for good only when, with nothing being processed, nothing is pending.
\<close>

locale workqueue_client =
  fixes wq :: "'q workqueue"
    and pending :: "'q \<Rightarrow> string multiset"
    and processing :: "'q \<Rightarrow> string set"
    and is_down :: "'q \<Rightarrow> bool"
    and ok :: "'q \<Rightarrow> bool"
  assumes add:
      "ok q \<Longrightarrow> \<not> is_down q \<Longrightarrow> ok (wq_Add wq k q) \<and> k \<in># pending (wq_Add wq k q) \<and>
       pending q \<subseteq># pending (wq_Add wq k q) \<and> pending (wq_Add wq k q) \<subseteq># add_mset k (pending q) \<and>
       processing (wq_Add wq k q) = processing q \<and> \<not> is_down (wq_Add wq k q)"
    and add_rate_limited:
      "ok q \<Longrightarrow> \<not> is_down q \<Longrightarrow> ok (wq_AddRateLimited wq k q) \<and> k \<in># pending (wq_AddRateLimited wq k q) \<and>
       pending q \<subseteq># pending (wq_AddRateLimited wq k q) \<and>
       pending (wq_AddRateLimited wq k q) \<subseteq># add_mset k (pending q) \<and>
       processing (wq_AddRateLimited wq k q) = processing q \<and> \<not> is_down (wq_AddRateLimited wq k q)"
    and get:
      "ok q \<Longrightarrow> wq_Get wq q = Some ((k, False), q') \<Longrightarrow> ok q' \<and> pending q = add_mset k (pending q') \<and>
       processing q' = insert k (processing q) \<and> (is_down q' \<longleftrightarrow> is_down q)"
    and get_blocks: "ok q \<Longrightarrow> wq_Get wq q = None \<Longrightarrow> processing q = {} \<Longrightarrow> pending q = {#}"
    and get_shutdown: "ok q \<Longrightarrow> wq_Get wq q = Some ((k, True), q') \<Longrightarrow> is_down q"
    and forget:
      "ok q \<Longrightarrow> ok (wq_Forget wq k q) \<and> pending (wq_Forget wq k q) = pending q \<and>
       processing (wq_Forget wq k q) = processing q \<and> (is_down (wq_Forget wq k q) \<longleftrightarrow> is_down q)"
    and finished:
      "ok q \<Longrightarrow> k \<in> processing q \<Longrightarrow> ok (wq_Done wq k q) \<and> pending (wq_Done wq k q) = pending q \<and>
       processing (wq_Done wq k q) = processing q - {k} \<and> (is_down (wq_Done wq k q) \<longleftrightarrow> is_down q)"
begin

text \<open>The worker's invariant between two items: nothing is being processed, and a key whose last
  reconciliation failed is pending.\<close>

definition worker_ok :: "'q queue \<Rightarrow> bool" where
  "worker_ok q \<longleftrightarrow> ok (q_queue q) \<and> processing (q_queue q) = {} \<and> \<not> is_down (q_queue q) \<and>
     distinct (q_requeued q) \<and> set (q_requeued q) \<subseteq> set_mset (pending (q_queue q))"

lemma worker_ok_add: "worker_ok q \<Longrightarrow> worker_ok (queue_Add wq kf obj q)"
  using add [of "q_queue q"] by (auto simp: worker_ok_def queue_Add_def split: sum.split dest!: mset_subset_eqD)

lemma item_get:
  assumes "worker_ok q" "wq_Get wq (q_queue q) = Some ((key, False), wqs)"
  shows "ok wqs" "pending (q_queue q) = add_mset key (pending wqs)" "processing wqs = {key}"
    "\<not> is_down wqs"
  using get [OF _ assms(2)] assms(1) by (auto simp: worker_ok_def)

lemma worker_ok_requeue:
  assumes "worker_ok q" "wq_Get wq (q_queue q) = Some ((key, False), wqs)"
  shows "worker_ok (let q2 = requeue wq key (q\<lparr>q_queue := wqs\<rparr>)
     in q2\<lparr>q_queue := wq_Done wq key (q_queue q2)\<rparr>)"
proof -
  note g = item_get [OF assms]
  note r = add_rate_limited [OF g(1,4), of key]
  have "ok (wq_AddRateLimited wq key wqs)" "key \<in> processing (wq_AddRateLimited wq key wqs)"
    using r g(3) by auto
  note d = finished [OF this]
  have "set_mset (pending wqs) \<subseteq> set_mset (pending (wq_AddRateLimited wq key wqs))"
    using r by (meson set_mset_mono)
  with assms(1) g r d show ?thesis by (auto simp: worker_ok_def Let_def)
qed

lemma worker_ok_forget:
  assumes "worker_ok q" "wq_Get wq (q_queue q) = Some ((key, False), wqs)"
  shows "worker_ok (let q2 = forget wq key (q\<lparr>q_queue := wqs\<rparr>)
     in q2\<lparr>q_queue := wq_Done wq key (q_queue q2)\<rparr>)"
    and "pending (q_queue (let q2 = forget wq key (q\<lparr>q_queue := wqs\<rparr>)
     in q2\<lparr>q_queue := wq_Done wq key (q_queue q2)\<rparr>)) = pending wqs"
proof -
  note g = item_get [OF assms]
  note f = forget [OF g(1), of key]
  have "ok (wq_Forget wq key wqs)" "key \<in> processing (wq_Forget wq key wqs)"
    using f g(3) by auto
  note d = finished [OF this]
  from assms(1) g f d show "worker_ok (let q2 = forget wq key (q\<lparr>q_queue := wqs\<rparr>)
     in q2\<lparr>q_queue := wq_Done wq key (q_queue q2)\<rparr>)"
    by (auto simp: worker_ok_def Let_def)
  from f d show "pending (q_queue (let q2 = forget wq key (q\<lparr>q_queue := wqs\<rparr>)
     in q2\<lparr>q_queue := wq_Done wq key (q_queue q2)\<rparr>)) = pending wqs"
    by (simp add: Let_def)
qed

lemma worker_ok_item:
  assumes "worker_ok q" "processItem wq split rf q w = Some (Returned True, q', w')"
  shows "worker_ok q'"
proof -
  obtain key wqs where "wq_Get wq (q_queue q) = Some ((key, False), wqs)"
    and "q' = (let q1 = q\<lparr>q_queue := wqs\<rparr>;
                   q2 = (if key_failed split rf key w then requeue wq key q1 else forget wq key q1)
               in q2\<lparr>q_queue := wq_Done wq key (q_queue q2)\<rparr>)"
    using processItem_next [OF assms(2)] by blast
  with worker_ok_requeue [OF assms(1)] worker_ok_forget(1) [OF assms(1)] show ?thesis
    by (simp add: Let_def)
qed

lemma worker_run_ok: "worker_run wq kf split rf s log s' \<Longrightarrow> worker_ok (fst s) \<Longrightarrow> worker_ok (fst s')"
  by (induction rule: worker_run.induct) (auto intro: worker_ok_add worker_ok_item)

lemma processItem_returns:
  assumes "worker_ok q" "pending (q_queue q) \<noteq> {#}"
    and succeeds: "\<forall>key \<in># pending (q_queue q). key_succeeds split rf key"
  obtains key q' wqs where "wq_Get wq (q_queue q) = Some ((key, False), wqs)"
    and "processItem wq split rf q w = Some (Returned True, q', reconcile_key split rf key w)"
    and "worker_ok q'" "pending (q_queue q) = add_mset key (pending (q_queue q'))"
proof -
  from assms(1,2) get_blocks obtain key down wqs where
    g: "wq_Get wq (q_queue q) = Some ((key, down), wqs)"
    unfolding worker_ok_def by (metis option.exhaust prod.exhaust)
  with assms(1) get_shutdown [of "q_queue q" key wqs] have "\<not> down"
    by (auto simp: worker_ok_def)
  with g have taken: "wq_Get wq (q_queue q) = Some ((key, False), wqs)" by simp
  note item = item_get(2) [OF assms(1) taken] worker_ok_forget [OF assms(1) taken]
  from item(1) succeeds have ok: "key_succeeds split rf key" by simp
  have "processItem wq split rf q w = Some (Returned True,
      (let q2 = forget wq key (q\<lparr>q_queue := wqs\<rparr>) in q2\<lparr>q_queue := wq_Done wq key (q_queue q2)\<rparr>),
      reconcile_key split rf key w)"
  proof (cases "split key")
    case (Inl e)
    with taken show ?thesis by (simp add: processItem_def reconcile_key_def Let_def)
  next
    case (Inr p)
    obtain ns n where p: "p = (ns, n)" by force
    with ok Inr have "fst (rf n ns w) = Returned None" by (simp add: key_succeeds_def)
    then obtain w1 where "rf n ns w = (Returned None, w1)" by (metis prod.collapse)
    with taken Inr p show ?thesis by (simp add: processItem_def reconcile_key_def Let_def)
  qed
  with that [OF taken] item show thesis by auto
qed

lemma process_items_drain:
  "worker_ok q \<Longrightarrow> size (pending (q_queue q)) = m \<Longrightarrow>
   \<forall>key \<in># pending (q_queue q). key_succeeds split rf key \<Longrightarrow>
    \<exists>log q'. process_items m wq split rf q w = (log, q', fold (reconcile_key split rf) log w) \<and>
      mset log = pending (q_queue q) \<and> pending (q_queue q') = {#} \<and> q_requeued q' = [] \<and> worker_ok q'"
proof (induction m arbitrary: q w)
  case 0
  then have "pending (q_queue q) = {#}" by simp
  moreover from this 0 have "q_requeued q = []" by (auto simp: worker_ok_def)
  ultimately show ?case using 0 by simp
next
  case (Suc m)
  then have "pending (q_queue q) \<noteq> {#}" by auto
  then obtain key q' wqs where item: "wq_Get wq (q_queue q) = Some ((key, False), wqs)"
    "processItem wq split rf q w = Some (Returned True, q', reconcile_key split rf key w)"
    "worker_ok q'" "pending (q_queue q) = add_mset key (pending (q_queue q'))"
    using processItem_returns [OF Suc.prems(1) _ Suc.prems(3)] by metis
  from item(4) Suc.prems(2,3) have "size (pending (q_queue q')) = m"
    "\<forall>key \<in># pending (q_queue q'). key_succeeds split rf key" by simp_all
  from Suc.IH [OF item(3) this, of "reconcile_key split rf key w"] item show ?case by auto
qed

end

subsection \<open>Shutting down\<close>

text \<open>
  After the shutdown \<open>Get\<close> returns what is queued and then reports the shutdown; it does not block,
  and a rate-limited key is dropped.
\<close>

locale stopping_workqueue = workqueue_client +
  assumes shut_down:
      "ok q \<Longrightarrow> ok (wq_ShutDown wq q) \<and> is_down (wq_ShutDown wq q) \<and>
       pending (wq_ShutDown wq q) = pending q \<and> processing (wq_ShutDown wq q) = processing q"
    and down_get: "ok q \<Longrightarrow> is_down q \<Longrightarrow> processing q = {} \<Longrightarrow> wq_Get wq q \<noteq> None"
    and down_add_rate_limited:
      "ok q \<Longrightarrow> is_down q \<Longrightarrow> ok (wq_AddRateLimited wq k q) \<and> is_down (wq_AddRateLimited wq k q) \<and>
       pending (wq_AddRateLimited wq k q) = pending q \<and> processing (wq_AddRateLimited wq k q) = processing q"
begin

definition stopping :: "'a queue \<Rightarrow> bool" where
  "stopping q \<longleftrightarrow> ok (q_queue q) \<and> is_down (q_queue q) \<and> processing (q_queue q) = {}"

lemma stopping_item:
  assumes q: "stopping q" and rf: "\<And>n ns w. fst (rf n ns w) \<noteq> Panicked"
  shows "(\<exists>q' w'. processItem wq split rf q w = Some (Returned False, q', w')) \<or>
    (\<exists>q' w'. processItem wq split rf q w = Some (Returned True, q', w') \<and> stopping q' \<and>
       size (pending (q_queue q')) < size (pending (q_queue q)))"
proof -
  from q have d: "ok (q_queue q)" "is_down (q_queue q)" "processing (q_queue q) = {}"
    by (simp_all add: stopping_def)
  from down_get [OF d] obtain k shut wqs where taken: "wq_Get wq (q_queue q) = Some ((k, shut), wqs)"
    by force
  show ?thesis
  proof (cases shut)
    case True
    with taken show ?thesis by (simp add: processItem_def Let_def)
  next
    case False
    with taken get [OF d(1), of k wqs] d(2,3)
    have g: "ok wqs" "pending (q_queue q) = add_mset k (pending wqs)" "processing wqs = {k}" "is_down wqs"
      by auto
    have f: "ok (wq_Done wq k (wq_Forget wq k wqs)) \<and> pending (wq_Done wq k (wq_Forget wq k wqs)) = pending wqs \<and>
        processing (wq_Done wq k (wq_Forget wq k wqs)) = {} \<and> is_down (wq_Done wq k (wq_Forget wq k wqs))"
      using forget [OF g(1), of k] finished [of "wq_Forget wq k wqs" k] g(3,4) by auto
    have r: "ok (wq_Done wq k (wq_AddRateLimited wq k wqs)) \<and>
        pending (wq_Done wq k (wq_AddRateLimited wq k wqs)) = pending wqs \<and>
        processing (wq_Done wq k (wq_AddRateLimited wq k wqs)) = {} \<and>
        is_down (wq_Done wq k (wq_AddRateLimited wq k wqs))"
      using down_add_rate_limited [OF g(1,4), of k] finished [of "wq_AddRateLimited wq k wqs" k] g(3) by auto
    have "\<exists>q' w'. processItem wq split rf q w = Some (Returned True, q', w') \<and>
        q_queue q' \<in> {wq_Done wq k (wq_Forget wq k wqs), wq_Done wq k (wq_AddRateLimited wq k wqs)}"
    proof (cases "split k")
      case (Inl e)
      with taken False show ?thesis by (simp add: processItem_def Let_def)
    next
      case (Inr p)
      obtain ns n where p: "p = (ns, n)" by force
      obtain res w1 where "rf n ns w = (Returned res, w1)"
        using rf [of n ns w] by (cases "rf n ns w"; cases "fst (rf n ns w)") auto
      with taken False Inr p show ?thesis by (cases res) (simp_all add: processItem_def Let_def)
    qed
    with f r g(2) show ?thesis by (elim exE conjE) (auto simp: stopping_def)
  qed
qed

lemma queue_loop_returns:
  assumes rf: "\<And>n ns w. fst (rf n ns w) \<noteq> Panicked"
  shows "stopping q \<Longrightarrow> \<exists>q' w' ms'. queue_loop wq split rf q w ms = Some (Returned (), q', w', ms')"
proof (induction "size (pending (q_queue q))" arbitrary: q w ms rule: less_induct)
  case less
  from stopping_item [of q rf split w, OF less.prems rf] show ?case
  proof (elim disjE exE conjE)
    fix q' w'
    assume "processItem wq split rf q w = Some (Returned False, q', w')"
    then show ?thesis by (simp add: queue_loop.simps)
  next
    fix q' w'
    assume item: "processItem wq split rf q w = Some (Returned True, q', w')" and q': "stopping q'"
      "size (pending (q_queue q')) < size (pending (q_queue q))"
    from less.hyps [OF q'(2,1), of w' "ms @ [updateMetrics q']"] item show ?thesis
      by (simp add: queue_loop.simps [of wq split rf q w])
  qed
qed

lemma queue_Run_returns:
  assumes "\<And>n ns w. fst (rf n ns w) \<noteq> Panicked" "worker_ok q"
  shows "\<exists>q' w' ms. queue_Run wq split rf (queue_Stop wq q) w = Some (Returned (), q', w', ms)"
proof -
  have "stopping (queue_Stop wq q)"
    using assms(2) shut_down [of "q_queue q"] by (simp add: stopping_def worker_ok_def queue_Stop_def)
  from queue_loop_returns [of rf, OF assms(1) this] show ?thesis by (simp add: queue_Run_def)
qed

end

end
