(* ===== verification/MemQueue.thy ===== *)
theory MemQueue
  imports Queue
begin

text \<open>
  An in-memory work queue, on which the contract of the work queue is interpreted.
  As client-go documents it: a key is queued once until it is taken, a key added while it is
  processed is queued when it is \<open>Done\<close>, a rate-limited key waits for its delay.  \<open>Get\<close> on an
  empty queue waits for the first delay to pass.
\<close>

record mem_queue =
  mq_queue :: "string list"
  mq_dirty :: "string set"
  mq_processing :: "string set"
  mq_delayed :: "string list"
  mq_down :: bool

definition mem_queue_empty :: mem_queue where
  "mem_queue_empty = \<lparr>mq_queue = [], mq_dirty = {}, mq_processing = {}, mq_delayed = [], mq_down = False\<rparr>"

definition mem_Add :: "string \<Rightarrow> mem_queue \<Rightarrow> mem_queue" where
  "mem_Add k q =
     (if mq_down q \<or> k \<in> mq_dirty q then q
      else q\<lparr>mq_dirty := insert k (mq_dirty q),
             mq_queue := (if k \<in> mq_processing q then mq_queue q else mq_queue q @ [k])\<rparr>)"

definition mem_Get :: "mem_queue \<Rightarrow> ((string \<times> bool) \<times> mem_queue) option" where
  "mem_Get q =
     (case mq_queue q of
        k # ks \<Rightarrow> Some ((k, False), q\<lparr>mq_queue := ks, mq_dirty := mq_dirty q - {k},
                                     mq_processing := insert k (mq_processing q)\<rparr>)
      | [] \<Rightarrow>
          if mq_down q then Some (([], True), q)
          else (case mq_delayed q of
              [] \<Rightarrow> None
            | k # ks \<Rightarrow>
                if k \<in> mq_processing q then None
                else Some ((k, False), q\<lparr>mq_delayed := ks, mq_processing := insert k (mq_processing q)\<rparr>)))"

definition mem_Done :: "string \<Rightarrow> mem_queue \<Rightarrow> mem_queue" where
  "mem_Done k q = q\<lparr>mq_processing := mq_processing q - {k},
     mq_queue := (if k \<in> mq_dirty q then mq_queue q @ [k] else mq_queue q)\<rparr>"

definition mem_AddRateLimited :: "string \<Rightarrow> mem_queue \<Rightarrow> mem_queue" where
  "mem_AddRateLimited k q =
     (if mq_down q \<or> k \<in> set (mq_delayed q) then q else q\<lparr>mq_delayed := mq_delayed q @ [k]\<rparr>)"

definition mem_workqueue :: "mem_queue workqueue" where
  "mem_workqueue = \<lparr>wq_Add = mem_Add, wq_Get = mem_Get, wq_Done = mem_Done,
     wq_AddRateLimited = mem_AddRateLimited, wq_Forget = (\<lambda>k q. q),
     wq_ShutDown = (\<lambda>q. q\<lparr>mq_down := True\<rparr>)\<rparr>"

definition mem_pending :: "mem_queue \<Rightarrow> string multiset" where
  "mem_pending q = mset (mq_queue q) + mset_set (mq_dirty q \<inter> mq_processing q) + mset (mq_delayed q)"

definition mem_ok :: "mem_queue \<Rightarrow> bool" where
  "mem_ok q \<longleftrightarrow> finite (mq_dirty q) \<and> distinct (mq_queue q) \<and>
     set (mq_queue q) = mq_dirty q - mq_processing q"

lemmas mem_queue_simps =
  mem_Add_def mem_Get_def mem_Done_def mem_AddRateLimited_def mem_workqueue_def
  mem_pending_def mem_ok_def

lemma mem_Add_law:
  assumes q: "mem_ok q" "\<not> mq_down q"
  shows "mem_ok (mem_Add k q) \<and> k \<in># mem_pending (mem_Add k q) \<and>
    mem_pending q \<subseteq># mem_pending (mem_Add k q) \<and>
    mem_pending (mem_Add k q) \<subseteq># add_mset k (mem_pending q)"
proof (cases "k \<in> mq_dirty q")
  case True
  then have "k \<in># mem_pending q"
    using q by (cases "k \<in> mq_processing q") (auto simp: mem_pending_def mem_ok_def)
  with True q show ?thesis by (simp add: mem_Add_def)
next
  case False
  have "mem_pending (mem_Add k q) = add_mset k (mem_pending q)"
    using q False by (simp add: mem_pending_def mem_Add_def mem_ok_def)
  moreover have "mem_ok (mem_Add k q)"
    using q False by (auto simp: mem_ok_def mem_Add_def)
  ultimately show ?thesis by simp
qed

lemma mem_Get_law:
  assumes q: "mem_ok q" and g: "mem_Get q = Some ((k, False), q')"
  shows "mem_ok q' \<and> mem_pending q = add_mset k (mem_pending q') \<and>
    mq_processing q' = insert k (mq_processing q) \<and> (mq_down q' \<longleftrightarrow> mq_down q)"
proof (cases "mq_queue q")
  case (Cons x xs)
  with g have q': "k = x" "q' = q\<lparr>mq_queue := xs, mq_dirty := mq_dirty q - {x},
      mq_processing := insert x (mq_processing q)\<rparr>"
    by (auto simp: mem_Get_def)
  from Cons q have x: "x \<in> mq_dirty q" "x \<notin> mq_processing q"
    unfolding mem_ok_def by (metis DiffE list.set_intros(1))+
  then have "(mq_dirty q - {x}) \<inter> insert x (mq_processing q) = mq_dirty q \<inter> mq_processing q" by auto
  moreover have "set xs = (mq_dirty q - {x}) - insert x (mq_processing q)"
    using q Cons by (auto simp: mem_ok_def)
  ultimately show ?thesis using q q' Cons by (simp add: mem_pending_def mem_ok_def)
next
  case Nil
  with g obtain ks where ks: "mq_delayed q = k # ks" "k \<notin> mq_processing q"
    "q' = q\<lparr>mq_delayed := ks, mq_processing := insert k (mq_processing q)\<rparr>"
    by (auto simp: mem_Get_def split: if_splits list.splits)
  from q Nil have "mq_dirty q \<subseteq> mq_processing q" by (auto simp: mem_ok_def)
  with ks(2) have "mq_dirty q \<inter> insert k (mq_processing q) = mq_dirty q \<inter> mq_processing q"
    "mq_dirty q - insert k (mq_processing q) = {}" by auto
  with Nil q ks show ?thesis by (simp add: mem_pending_def mem_ok_def)
qed

lemma mem_Done_law:
  assumes "mem_ok q" "k \<in> mq_processing q"
  shows "mem_ok (mem_Done k q) \<and> mem_pending (mem_Done k q) = mem_pending q"
proof (cases "k \<in> mq_dirty q")
  case True
  have "mset_set (insert k (mq_dirty q \<inter> (mq_processing q - {k}))) =
      add_mset k (mset_set (mq_dirty q \<inter> (mq_processing q - {k})))"
    using assms by (intro mset_set.insert) (simp_all add: mem_ok_def)
  moreover have "insert k (mq_dirty q \<inter> (mq_processing q - {k})) = mq_dirty q \<inter> mq_processing q"
    using True assms(2) by auto
  ultimately have "mem_pending (mem_Done k q) = mem_pending q"
    using True by (simp add: mem_pending_def mem_Done_def)
  moreover have "mem_ok (mem_Done k q)"
    using True assms by (auto simp: mem_ok_def mem_Done_def)
  ultimately show ?thesis by simp
next
  case False
  then have "mq_dirty q \<inter> (mq_processing q - {k}) = mq_dirty q \<inter> mq_processing q"
    "mq_dirty q - (mq_processing q - {k}) = mq_dirty q - mq_processing q" by auto
  with False assms show ?thesis by (simp add: mem_pending_def mem_ok_def mem_Done_def)
qed

interpretation mem_wq: workqueue_client mem_workqueue mem_pending mq_processing mq_down mem_ok
proof
  fix q k
  assume q: "mem_ok q" "\<not> mq_down q"
  from mem_Add_law [OF q, of k] q(2)
  show "mem_ok (wq_Add mem_workqueue k q) \<and> k \<in># mem_pending (wq_Add mem_workqueue k q) \<and>
    mem_pending q \<subseteq># mem_pending (wq_Add mem_workqueue k q) \<and>
    mem_pending (wq_Add mem_workqueue k q) \<subseteq># add_mset k (mem_pending q) \<and>
    mq_processing (wq_Add mem_workqueue k q) = mq_processing q \<and> \<not> mq_down (wq_Add mem_workqueue k q)"
    by (simp add: mem_workqueue_def mem_Add_def)
  from q show "mem_ok (wq_AddRateLimited mem_workqueue k q) \<and>
    k \<in># mem_pending (wq_AddRateLimited mem_workqueue k q) \<and>
    mem_pending q \<subseteq># mem_pending (wq_AddRateLimited mem_workqueue k q) \<and>
    mem_pending (wq_AddRateLimited mem_workqueue k q) \<subseteq># add_mset k (mem_pending q) \<and>
    mq_processing (wq_AddRateLimited mem_workqueue k q) = mq_processing q \<and>
    \<not> mq_down (wq_AddRateLimited mem_workqueue k q)"
    by (auto simp: mem_queue_simps)
next
  fix q k q'
  assume q: "mem_ok q"
  show "wq_Get mem_workqueue q = Some ((k, False), q') \<Longrightarrow> mem_ok q' \<and>
      mem_pending q = add_mset k (mem_pending q') \<and>
      mq_processing q' = insert k (mq_processing q) \<and> mq_down q' = mq_down q"
    using mem_Get_law [OF q] by (simp add: mem_workqueue_def)
  show "wq_Get mem_workqueue q = None \<Longrightarrow> mq_processing q = {} \<Longrightarrow> mem_pending q = {#}"
    using q by (auto simp: mem_queue_simps split: list.splits if_splits)
  show "wq_Get mem_workqueue q = Some ((k, True), q') \<Longrightarrow> mq_down q"
    by (auto simp: mem_queue_simps split: list.splits if_splits)
  show "mem_ok (wq_Forget mem_workqueue k q) \<and>
      mem_pending (wq_Forget mem_workqueue k q) = mem_pending q \<and>
      mq_processing (wq_Forget mem_workqueue k q) = mq_processing q \<and>
      mq_down (wq_Forget mem_workqueue k q) = mq_down q"
    using q by (simp add: mem_workqueue_def)
  show "k \<in> mq_processing q \<Longrightarrow> mem_ok (wq_Done mem_workqueue k q) \<and>
      mem_pending (wq_Done mem_workqueue k q) = mem_pending q \<and>
      mq_processing (wq_Done mem_workqueue k q) = mq_processing q - {k} \<and>
      mq_down (wq_Done mem_workqueue k q) = mq_down q"
    using mem_Done_law [OF q, of k] by (simp add: mem_workqueue_def mem_Done_def)
qed

interpretation mem_wq_stop: stopping_workqueue mem_workqueue mem_pending mq_processing mq_down mem_ok
  by unfold_locales (auto simp: mem_queue_simps split: list.splits if_splits)

end
