(* ===== verification/Watcher.thy ===== *)
theory Watcher
  imports Metrics "HOL-Library.AList"
begin

text \<open>
  \<open>kube/service_watcher.go\<close>, \<open>kube/endpoints_watcher.go\<close> and \<open>kube/endpointslice_watcher.go\<close>:
  three files with the same code over three types of object.  The operations are defined once,
  over the type assertion of the kind and its names, and each watcher is an instance.  The cache
  of the informer is client-go's and a parameter; the locale \<open>informer_cache\<close> states what a
  cache that holds objects of one kind answers.
\<close>

text \<open>\<open>cache.Store\<close>, as it stands when it is read.\<close>

record cache_store =
  GetByKey :: "string \<Rightarrow> error + iface option"
  List_objects :: "iface list"

text \<open>
  \<open>'c\<close> are the clients and \<open>'q\<close> the state the event handler changes (the runner's queue).  The
  store is \<open>None\<close> until \<open>Init\<close>; \<open>w_stopped\<close> says that the stop channel is closed.
\<close>

record ('c, 'o, 'q) Watcher =
  w_client :: 'c
  w_resyncPeriod :: int
  w_stopped :: bool
  w_store :: "cache_store option"
  w_eventHandler :: "(EventType \<Rightarrow> 'o option \<Rightarrow> 'o option \<Rightarrow> 'q \<Rightarrow> 'q outcome) option"
  w_labelSelector :: string
  w_name :: string
  w_namespace :: string
  w_runner :: string

definition newWatcher ::
  "string \<Rightarrow> 'c \<Rightarrow> int \<Rightarrow> (EventType \<Rightarrow> 'o option \<Rightarrow> 'o option \<Rightarrow> 'q \<Rightarrow> 'q outcome) option \<Rightarrow>
   string \<Rightarrow> string \<Rightarrow> string \<Rightarrow> ('c, 'o, 'q) Watcher" where
  "newWatcher name client resyncPeriod handler labelSelector namespace runner =
     \<lparr>w_client = client, w_resyncPeriod = resyncPeriod, w_stopped = False, w_store = None,
      w_eventHandler = handler, w_labelSelector = labelSelector, w_name = name,
      w_namespace = namespace, w_runner = runner\<rparr>"

text \<open>
  The list and watch functions \<open>Init\<close> gives the informer: the request they make (which client,
  which namespace, which options), \<open>list\<close> being the client's.
\<close>

record ListOptions =
  opt_labelSelector :: string
  opt_resourceVersion :: string

definition watcher_ListFunc ::
  "('c \<Rightarrow> string \<Rightarrow> ListOptions \<Rightarrow> error + 'l) \<Rightarrow> ('c, 'o, 'q) Watcher \<Rightarrow> ListOptions \<Rightarrow> error + 'l" where
  "watcher_ListFunc request w options =
     request (w_client w) (w_namespace w) (options\<lparr>opt_labelSelector := w_labelSelector w\<rparr>)"

definition watcher_Init :: "cache_store \<Rightarrow> ('c, 'o, 'q) Watcher \<Rightarrow> ('c, 'o, 'q) Watcher" where
  "watcher_Init informer_store w = w\<lparr>w_store := Some informer_store\<rparr>"

text \<open>An event: two metric updates, then the handler, where there is one.\<close>

definition handleEvent ::
  "string \<Rightarrow> ('c, 'o, 'q) Watcher \<Rightarrow> EventType \<Rightarrow> 'o option \<Rightarrow> 'o option \<Rightarrow> 'q \<Rightarrow>
   metric_update list \<times> 'q outcome" where
  "handleEvent kind w eventType oldObj newObj q =
     (let m1 = IncKubeWatcherEvents (w_name w) kind (w_runner w) eventType
      in case w_store w of
           None \<Rightarrow> ([m1], Panicked)
         | Some store \<Rightarrow>
             ([m1, SetKubeWatcherObjects (w_name w) kind (w_runner w) (int (length (List_objects store)))],
              case w_eventHandler w of
                None \<Rightarrow> Returned q
              | Some eventHandler \<Rightarrow> eventHandler eventType oldObj newObj q))"

text \<open>The three functions the informer calls; a failed type assertion panics.\<close>

definition watcher_AddFunc ::
  "(iface \<Rightarrow> 'o option) \<Rightarrow> string \<Rightarrow> ('c, 'o, 'q) Watcher \<Rightarrow> iface \<Rightarrow> 'q \<Rightarrow> metric_update list \<times> 'q outcome" where
  "watcher_AddFunc as_o kind w obj q =
     (case as_o obj of
        None \<Rightarrow> ([], Panicked)
      | Some new \<Rightarrow> handleEvent kind w Added None (Some new) q)"

definition watcher_UpdateFunc ::
  "(iface \<Rightarrow> 'o option) \<Rightarrow> string \<Rightarrow> ('c, 'o, 'q) Watcher \<Rightarrow> iface \<Rightarrow> iface \<Rightarrow> 'q \<Rightarrow> metric_update list \<times> 'q outcome" where
  "watcher_UpdateFunc as_o kind w oldObj newObj q =
     (case as_o oldObj of
        None \<Rightarrow> ([], Panicked)
      | Some old \<Rightarrow>
          (case as_o newObj of
             None \<Rightarrow> ([], Panicked)
           | Some new \<Rightarrow> handleEvent kind w Modified (Some old) (Some new) q))"

definition watcher_DeleteFunc ::
  "(iface \<Rightarrow> 'o option) \<Rightarrow> string \<Rightarrow> ('c, 'o, 'q) Watcher \<Rightarrow> iface \<Rightarrow> 'q \<Rightarrow> metric_update list \<times> 'q outcome" where
  "watcher_DeleteFunc as_o kind w obj q =
     (case as_o obj of
        None \<Rightarrow> ([], Panicked)
      | Some old \<Rightarrow> handleEvent kind w Deleted (Some old) None q)"

text \<open>\<open>Stop\<close> closes the channel, which panics when it is closed already.\<close>

definition watcher_Stop :: "('c, 'o, 'q) Watcher \<Rightarrow> ('c, 'o, 'q) Watcher outcome" where
  "watcher_Stop w = (if w_stopped w then Panicked else Returned (w\<lparr>w_stopped := True\<rparr>))"

definition watcher_Get ::
  "(iface \<Rightarrow> 'o option) \<Rightarrow> string \<Rightarrow> ('c, 'o, 'q) Watcher \<Rightarrow> string \<Rightarrow> string \<Rightarrow> (error + 'o) outcome" where
  "watcher_Get as_o resource w name namespace =
     (let key = namespace @ ''/'' @ name
      in case w_store w of
           None \<Rightarrow> Panicked
         | Some store \<Rightarrow>
             (case GetByKey store key of
                Inl err \<Rightarrow> Returned (Inl err)
              | Inr None \<Rightarrow> Returned (Inl (NotFound resource key))
              | Inr (Some obj) \<Rightarrow>
                  (case as_o obj of
                     None \<Rightarrow> Panicked
                   | Some v \<Rightarrow> Returned (Inr v))))"

fun collect_objects :: "(iface \<Rightarrow> 'o option) \<Rightarrow> iface list \<Rightarrow> 'o list \<Rightarrow> error + 'o list" where
  "collect_objects as_o [] svcs = Inr svcs"
| "collect_objects as_o (obj # objs) svcs =
     (case as_o obj of
        None \<Rightarrow> Inl (ErrorString ''unexpected object in store'')
      | Some svc \<Rightarrow> collect_objects as_o objs (svcs @ [svc]))"

definition watcher_List ::
  "(iface \<Rightarrow> 'o option) \<Rightarrow> ('c, 'o, 'q) Watcher \<Rightarrow> (error + 'o list) outcome" where
  "watcher_List as_o w =
     (case w_store w of
        None \<Rightarrow> Panicked
      | Some store \<Rightarrow> Returned (collect_objects as_o (List_objects store) []))"

subsection \<open>The three watchers\<close>

type_synonym ('c, 'q) ServiceWatcher = "('c, Service, 'q) Watcher"
type_synonym ('c, 'q) EndpointsWatcher = "('c, Endpoints, 'q) Watcher"
type_synonym ('c, 'q) EndpointSliceWatcher = "('c, EndpointSlice, 'q) Watcher"

definition NewServiceWatcher ::
  "string \<Rightarrow> 'c \<Rightarrow> int \<Rightarrow> (EventType \<Rightarrow> Service option \<Rightarrow> Service option \<Rightarrow> 'q \<Rightarrow> 'q outcome) option \<Rightarrow>
   string \<Rightarrow> string \<Rightarrow> string \<Rightarrow> ('c, 'q) ServiceWatcher" where
  "NewServiceWatcher = newWatcher"

definition ServiceWatcher_Init :: "cache_store \<Rightarrow> ('c, 'q) ServiceWatcher \<Rightarrow> ('c, 'q) ServiceWatcher" where
  "ServiceWatcher_Init = watcher_Init"

definition ServiceWatcher_Stop :: "('c, 'q) ServiceWatcher \<Rightarrow> ('c, 'q) ServiceWatcher outcome" where
  "ServiceWatcher_Stop = watcher_Stop"

definition NewEndpointsWatcher ::
  "string \<Rightarrow> 'c \<Rightarrow> int \<Rightarrow> (EventType \<Rightarrow> Endpoints option \<Rightarrow> Endpoints option \<Rightarrow> 'q \<Rightarrow> 'q outcome) option \<Rightarrow>
   string \<Rightarrow> string \<Rightarrow> string \<Rightarrow> ('c, 'q) EndpointsWatcher" where
  "NewEndpointsWatcher = newWatcher"

definition EndpointsWatcher_Init :: "cache_store \<Rightarrow> ('c, 'q) EndpointsWatcher \<Rightarrow> ('c, 'q) EndpointsWatcher" where
  "EndpointsWatcher_Init = watcher_Init"

definition EndpointsWatcher_Stop :: "('c, 'q) EndpointsWatcher \<Rightarrow> ('c, 'q) EndpointsWatcher outcome" where
  "EndpointsWatcher_Stop = watcher_Stop"

definition NewEndpointSliceWatcher ::
  "string \<Rightarrow> 'c \<Rightarrow> int \<Rightarrow> (EventType \<Rightarrow> EndpointSlice option \<Rightarrow> EndpointSlice option \<Rightarrow> 'q \<Rightarrow> 'q outcome) option \<Rightarrow>
   string \<Rightarrow> string \<Rightarrow> string \<Rightarrow> ('c, 'q) EndpointSliceWatcher" where
  "NewEndpointSliceWatcher = newWatcher"

definition EndpointSliceWatcher_Init :: "cache_store \<Rightarrow> ('c, 'q) EndpointSliceWatcher \<Rightarrow> ('c, 'q) EndpointSliceWatcher" where
  "EndpointSliceWatcher_Init = watcher_Init"

definition EndpointSliceWatcher_Stop :: "('c, 'q) EndpointSliceWatcher \<Rightarrow> ('c, 'q) EndpointSliceWatcher outcome" where
  "EndpointSliceWatcher_Stop = watcher_Stop"

lemmas watcher_makers [simp] =
  NewServiceWatcher_def ServiceWatcher_Init_def ServiceWatcher_Stop_def
  NewEndpointsWatcher_def EndpointsWatcher_Init_def EndpointsWatcher_Stop_def
  NewEndpointSliceWatcher_def EndpointSliceWatcher_Init_def EndpointSliceWatcher_Stop_def

definition ServiceWatcher_AddFunc ::
  "('c, 'q) ServiceWatcher \<Rightarrow> iface \<Rightarrow> 'q \<Rightarrow> metric_update list \<times> 'q outcome" where
  "ServiceWatcher_AddFunc = watcher_AddFunc as_Service ''service''"

definition ServiceWatcher_UpdateFunc ::
  "('c, 'q) ServiceWatcher \<Rightarrow> iface \<Rightarrow> iface \<Rightarrow> 'q \<Rightarrow> metric_update list \<times> 'q outcome" where
  "ServiceWatcher_UpdateFunc = watcher_UpdateFunc as_Service ''service''"

definition ServiceWatcher_DeleteFunc ::
  "('c, 'q) ServiceWatcher \<Rightarrow> iface \<Rightarrow> 'q \<Rightarrow> metric_update list \<times> 'q outcome" where
  "ServiceWatcher_DeleteFunc = watcher_DeleteFunc as_Service ''service''"

definition ServiceWatcher_Get ::
  "('c, 'q) ServiceWatcher \<Rightarrow> string \<Rightarrow> string \<Rightarrow> (error + Service) outcome" where
  "ServiceWatcher_Get = watcher_Get as_Service ''service''"

definition ServiceWatcher_List :: "('c, 'q) ServiceWatcher \<Rightarrow> (error + Service list) outcome" where
  "ServiceWatcher_List = watcher_List as_Service"

definition EndpointsWatcher_AddFunc ::
  "('c, 'q) EndpointsWatcher \<Rightarrow> iface \<Rightarrow> 'q \<Rightarrow> metric_update list \<times> 'q outcome" where
  "EndpointsWatcher_AddFunc = watcher_AddFunc as_Endpoints ''endpoints''"

definition EndpointsWatcher_UpdateFunc ::
  "('c, 'q) EndpointsWatcher \<Rightarrow> iface \<Rightarrow> iface \<Rightarrow> 'q \<Rightarrow> metric_update list \<times> 'q outcome" where
  "EndpointsWatcher_UpdateFunc = watcher_UpdateFunc as_Endpoints ''endpoints''"

definition EndpointsWatcher_DeleteFunc ::
  "('c, 'q) EndpointsWatcher \<Rightarrow> iface \<Rightarrow> 'q \<Rightarrow> metric_update list \<times> 'q outcome" where
  "EndpointsWatcher_DeleteFunc = watcher_DeleteFunc as_Endpoints ''endpoints''"

definition EndpointsWatcher_Get ::
  "('c, 'q) EndpointsWatcher \<Rightarrow> string \<Rightarrow> string \<Rightarrow> (error + Endpoints) outcome" where
  "EndpointsWatcher_Get = watcher_Get as_Endpoints ''endpoints''"

definition EndpointsWatcher_List :: "('c, 'q) EndpointsWatcher \<Rightarrow> (error + Endpoints list) outcome" where
  "EndpointsWatcher_List = watcher_List as_Endpoints"

definition EndpointSliceWatcher_AddFunc ::
  "('c, 'q) EndpointSliceWatcher \<Rightarrow> iface \<Rightarrow> 'q \<Rightarrow> metric_update list \<times> 'q outcome" where
  "EndpointSliceWatcher_AddFunc = watcher_AddFunc as_EndpointSlice ''endpointslice''"

definition EndpointSliceWatcher_UpdateFunc ::
  "('c, 'q) EndpointSliceWatcher \<Rightarrow> iface \<Rightarrow> iface \<Rightarrow> 'q \<Rightarrow> metric_update list \<times> 'q outcome" where
  "EndpointSliceWatcher_UpdateFunc = watcher_UpdateFunc as_EndpointSlice ''endpointslice''"

definition EndpointSliceWatcher_DeleteFunc ::
  "('c, 'q) EndpointSliceWatcher \<Rightarrow> iface \<Rightarrow> 'q \<Rightarrow> metric_update list \<times> 'q outcome" where
  "EndpointSliceWatcher_DeleteFunc = watcher_DeleteFunc as_EndpointSlice ''endpointslice''"

definition EndpointSliceWatcher_Get ::
  "('c, 'q) EndpointSliceWatcher \<Rightarrow> string \<Rightarrow> string \<Rightarrow> (error + EndpointSlice) outcome" where
  "EndpointSliceWatcher_Get = watcher_Get as_EndpointSlice ''endpointslice''"

definition EndpointSliceWatcher_List ::
  "('c, 'q) EndpointSliceWatcher \<Rightarrow> (error + EndpointSlice list) outcome" where
  "EndpointSliceWatcher_List = watcher_List as_EndpointSlice"

lemmas watcher_instances =
  ServiceWatcher_AddFunc_def ServiceWatcher_UpdateFunc_def ServiceWatcher_DeleteFunc_def
  ServiceWatcher_Get_def ServiceWatcher_List_def
  EndpointsWatcher_AddFunc_def EndpointsWatcher_UpdateFunc_def EndpointsWatcher_DeleteFunc_def
  EndpointsWatcher_Get_def EndpointsWatcher_List_def
  EndpointSliceWatcher_AddFunc_def EndpointSliceWatcher_UpdateFunc_def
  EndpointSliceWatcher_DeleteFunc_def EndpointSliceWatcher_Get_def EndpointSliceWatcher_List_def

subsection \<open>Reading a cache\<close>

text \<open>
  \<open>contents\<close> are the objects of the cache.  The law of \<open>GetByKey\<close> is stated for the namespaces
  Kubernetes allows, none of which holds a slash, so that a key names one object.
\<close>

locale informer_cache =
  fixes store :: cache_store
    and as_o :: "iface \<Rightarrow> 'o option"
    and to_iface :: "'o \<Rightarrow> iface"
    and contents :: "NamespacedName \<Rightarrow> 'o option"
  assumes as_to [simp]: "as_o (to_iface obj) = Some obj"
    and get_by_key:
      "CHR ''/'' \<notin> set ns \<Longrightarrow>
       GetByKey store (ns @ ''/'' @ n) = Inr (map_option to_iface (contents (NamespacedName ns n)))"
    and list_objects: "\<exists>objs. List_objects store = map to_iface objs \<and> set objs = ran contents"
begin

lemma collect: "collect_objects as_o (map to_iface objs) acc = Inr (acc @ objs)"
  by (induction objs arbitrary: acc) auto

lemma watcher_Get_eq:
  "w_store w = Some store \<Longrightarrow> CHR ''/'' \<notin> set ns \<Longrightarrow>
   watcher_Get as_o resource w n ns =
     Returned (case contents (NamespacedName ns n) of
       None \<Rightarrow> Inl (NotFound resource (ns @ ''/'' @ n)) | Some obj \<Rightarrow> Inr obj)"
  using get_by_key [of ns n] by (auto simp: watcher_Get_def Let_def split: option.splits)

lemma watcher_List_eq:
  "w_store w = Some store \<Longrightarrow> \<exists>objs. watcher_List as_o w = Returned (Inr objs) \<and> set objs = ran contents"
  using list_objects by (auto simp: watcher_List_def collect)

end

text \<open>
  A cache filled with a list of objects, keyed as the informer keys them.  Objects of a namespace
  with a slash are left out; a later object of the same key is shadowed.
\<close>

definition cache_entries :: "('o \<Rightarrow> ObjectMeta) \<Rightarrow> 'o list \<Rightarrow> (NamespacedName \<times> 'o) list" where
  "cache_entries meta objs =
     map (\<lambda>obj. (NamespacedName (obj_namespace (meta obj)) (obj_name (meta obj)), obj))
       (filter (\<lambda>obj. CHR ''/'' \<notin> set (obj_namespace (meta obj))) objs)"

definition cache_contents :: "('o \<Rightarrow> ObjectMeta) \<Rightarrow> 'o list \<Rightarrow> NamespacedName \<Rightarrow> 'o option" where
  "cache_contents meta objs = map_of (cache_entries meta objs)"

definition cache_of :: "('o \<Rightarrow> ObjectMeta) \<Rightarrow> ('o \<Rightarrow> iface) \<Rightarrow> 'o list \<Rightarrow> cache_store" where
  "cache_of meta to_iface objs =
     \<lparr>GetByKey = (\<lambda>key. Inr (map_option to_iface
        (map_of (map (\<lambda>(k, obj). (nn_namespace k @ ''/'' @ nn_name k, obj)) (cache_entries meta objs)) key))),
      List_objects = map to_iface (map snd (AList.clearjunk (cache_entries meta objs)))\<rparr>"

lemma key_inj:
  assumes "CHR ''/'' \<notin> set a" "CHR ''/'' \<notin> set b"
  shows "a @ CHR ''/'' # x = b @ CHR ''/'' # y \<longleftrightarrow> a = b \<and> x = y"
proof
  assume "a @ CHR ''/'' # x = b @ CHR ''/'' # y"
  then have "takeWhile (\<lambda>c. c \<noteq> CHR ''/'') (a @ CHR ''/'' # x) =
      takeWhile (\<lambda>c. c \<noteq> CHR ''/'') (b @ CHR ''/'' # y)" by simp
  moreover have "takeWhile (\<lambda>c. c \<noteq> CHR ''/'') (u @ CHR ''/'' # z) = u"
    if "CHR ''/'' \<notin> set u" for u z
    using that by (simp add: takeWhile_append)
  ultimately have "a = b" using assms by metis
  with \<open>a @ CHR ''/'' # x = b @ CHR ''/'' # y\<close> show "a = b \<and> x = y" by simp
qed simp

lemma map_of_string_keys:
  assumes "\<forall>k \<in> fst ` set al. CHR ''/'' \<notin> set (nn_namespace k)" "CHR ''/'' \<notin> set ns"
  shows "map_of (map (\<lambda>(k, obj). (nn_namespace k @ ''/'' @ nn_name k, obj)) al) (ns @ ''/'' @ n) =
    map_of al (NamespacedName ns n)"
  using assms
proof (induction al)
  case (Cons kv al)
  obtain k obj where kv: "kv = (k, obj)" by force
  have "nn_namespace k @ CHR ''/'' # nn_name k = ns @ CHR ''/'' # n \<longleftrightarrow> k = NamespacedName ns n"
    using key_inj [of "nn_namespace k" ns] Cons.prems kv by (cases k) auto
  with Cons kv show ?case by auto
qed simp

lemma cache_of_informer:
  assumes "\<And>obj. as_o (to_iface obj) = Some obj"
  shows "informer_cache (cache_of meta to_iface objs) as_o to_iface (cache_contents meta objs)"
proof
  fix ns n :: string
  assume "CHR ''/'' \<notin> set ns"
  then show "GetByKey (cache_of meta to_iface objs) (ns @ ''/'' @ n) =
      Inr (map_option to_iface (cache_contents meta objs (NamespacedName ns n)))"
    unfolding cache_of_def cache_contents_def cache_store.simps
    by (subst map_of_string_keys) (auto simp: cache_entries_def)
next
  have "ran (cache_contents meta objs) = snd ` set (AList.clearjunk (cache_entries meta objs))"
    unfolding cache_contents_def by (rule ran_map_of)
  then show "\<exists>os. List_objects (cache_of meta to_iface objs) = map to_iface os \<and>
      set os = ran (cache_contents meta objs)"
    by (intro exI [of _ "map snd (AList.clearjunk (cache_entries meta objs))"])
      (simp add: cache_of_def)
qed (rule assms)

interpretation svc_cache: informer_cache
  "cache_of svc_meta IService objs" as_Service IService "cache_contents svc_meta objs" for objs
  by (rule cache_of_informer) simp

interpretation ep_cache: informer_cache
  "cache_of ep_meta IEndpoints objs" as_Endpoints IEndpoints "cache_contents ep_meta objs" for objs
  by (rule cache_of_informer) simp

interpretation eps_cache: informer_cache
  "cache_of eps_meta IEndpointSlice objs" as_EndpointSlice IEndpointSlice
  "cache_contents eps_meta objs" for objs
  by (rule cache_of_informer) simp

end
