(* ===== verification/Runners.thy ===== *)
theory Runners
  imports KubeClient Watcher Queue
begin

text \<open>
  What the two kinds of runner share: the library functions they are given, the handler that adds
  the object of an event to a queue, the events of starting a runner, and the deletion loop of
  their start-up synchronisation.
\<close>

text \<open>
  The client-go and apimachinery functions the runners use: the work queue and a new one of a
  name, \<open>cache.DeletionHandlingMetaNamespaceKeyFunc\<close>, \<open>cache.SplitMetaNamespaceKey\<close>,
  \<open>labels.Set.String\<close>, the store of a new informer and \<open>meta.Accessor\<close>.
\<close>

record 'q library =
  lib_workqueue :: "'q workqueue"
  lib_newqueue :: "string \<Rightarrow> 'q"
  lib_keyfunc :: "iface \<Rightarrow> error + string"
  lib_split :: "string \<Rightarrow> error + string \<times> string"
  lib_set_string :: "go_map \<Rightarrow> string"
  lib_new_store :: cache_store
  lib_accessor :: "iface \<Rightarrow> error + ObjectMeta"

text \<open>
  The event handlers of both runners are the same switch: the new object of an addition or a
  modification is queued, the old one of a deletion, and other events are logged.  They read a
  field of the object first, which panics where it is nil.
\<close>

definition queue_event ::
  "'q library \<Rightarrow> ('o \<Rightarrow> iface) \<Rightarrow> EventType \<Rightarrow> 'o option \<Rightarrow> 'o option \<Rightarrow> 'q queue \<Rightarrow> 'q queue outcome" where
  "queue_event lib to_iface eventType old new q =
     (let add = (\<lambda>obj. case obj of
            None \<Rightarrow> Panicked
          | Some obj \<Rightarrow> Returned (queue_Add (lib_workqueue lib) (lib_keyfunc lib) (to_iface obj) q))
      in case eventType of
           Added \<Rightarrow> add new
         | Modified \<Rightarrow> add new
         | Deleted \<Rightarrow> add old
         | _ \<Rightarrow> Returned q)"

text \<open>
  What starting a runner does, in order: goroutines started, the flag set, caches that reported
  to be synced, the start-up synchronisation.
\<close>

datatype run_event =
    StartWatcher string
  | SetInitialised
  | CacheSynced string
  | Synced "error option"
  | StartQueue string

text \<open>
  \<open>cache.WaitForNamedCacheSync\<close> is \<open>True\<close> once the cache has synced, \<open>False\<close> if the stop channel
  closes first, and does not return otherwise (\<open>None\<close>).
\<close>

datatype run_status = RunReturned "error option" | RunBlocked | RunPanicked

text \<open>The deletion loop of \<open>ServiceSync\<close> and \<open>EndpointSliceSync\<close> over the names of the current
  mirrors, \<open>delete\<close> being the request; it stops at the first error.\<close>

fun delete_stale ::
  "('o \<Rightarrow> string) \<Rightarrow> ('o \<Rightarrow> 'w \<Rightarrow> error option \<times> 'w) \<Rightarrow> string list \<Rightarrow> 'o list \<Rightarrow> 'w \<Rightarrow>
   error option \<times> 'w" where
  "delete_stale name_of delete keep [] w = (None, w)"
| "delete_stale name_of delete keep (obj # objs) w =
     (let (_, inSlice) = inSlice keep (name_of obj)
      in if \<not> inSlice
         then (case delete obj w of
                 (Some err, w') \<Rightarrow> (Some err, w')
               | (None, w') \<Rightarrow> delete_stale name_of delete keep objs w')
         else delete_stale name_of delete keep objs w)"

context resource_client begin

text \<open>
  The loop deletes stale objects only, and all of them if it reports no error.
\<close>

lemma delete_stale_spec:
  assumes "delete_stale name_of (\<lambda>obj. r_delete api (ns_of obj) (name_of obj)) keep objs w = (r, w')"
  shows "k \<notin> {NamespacedName (ns_of obj) (name_of obj) |obj. obj \<in> set objs \<and> name_of obj \<notin> set keep} \<Longrightarrow>
      view w' k = view w k"
    and "r = None \<Longrightarrow>
      k \<in> {NamespacedName (ns_of obj) (name_of obj) |obj. obj \<in> set objs \<and> name_of obj \<notin> set keep} \<Longrightarrow>
      view w' k = None"
proof -
  let ?stale = "\<lambda>objs. {NamespacedName (ns_of obj) (name_of obj) |obj. obj \<in> set objs \<and> name_of obj \<notin> set keep}"
  have "(k \<notin> ?stale objs \<longrightarrow> view w' k = view w k) \<and>
      (r = None \<longrightarrow> k \<in> ?stale objs \<or> view w k = None \<longrightarrow> view w' k = None)" for k
    using assms
  proof (induction objs arbitrary: w)
    case (Cons obj objs)
    obtain i f where f: "inSlice keep (name_of obj) = (i, f)" by force
    then have f': "f \<longleftrightarrow> name_of obj \<in> set keep" by (metis snd_conv snd_inSlice)
    show ?case
    proof (cases f)
      case True
      with Cons.prems f have "delete_stale name_of (\<lambda>obj. r_delete api (ns_of obj) (name_of obj)) keep objs w = (r, w')"
        by simp
      from Cons.IH [OF this] True f' show ?thesis by auto
    next
      case False
      obtain rd w1 where d: "r_delete api (ns_of obj) (name_of obj) w = (rd, w1)" by force
      note fr = delete_frame [OF d]
      show ?thesis
      proof (cases rd)
        case (Some e)
        with Cons.prems f False d have rw: "r = Some e" "w' = w1" by auto
        have "k \<notin> ?stale (obj # objs) \<Longrightarrow> k \<noteq> NamespacedName (ns_of obj) (name_of obj)"
          using False f' by auto
        with fr [of k] have "k \<notin> ?stale (obj # objs) \<Longrightarrow> view w1 k = view w k" by blast
        with rw show ?thesis by simp
      next
        case None
        with Cons.prems f False d have
          "delete_stale name_of (\<lambda>obj. r_delete api (ns_of obj) (name_of obj)) keep objs w1 = (r, w')"
          by simp
        from Cons.IH [OF this] have IH: "(k \<notin> ?stale objs \<longrightarrow> view w' k = view w1 k) \<and>
          (r = None \<longrightarrow> k \<in> ?stale objs \<or> view w1 k = None \<longrightarrow> view w' k = None)" .
        have gone: "view w1 (NamespacedName (ns_of obj) (name_of obj)) = None"
          using delete_ok d None by simp
        have st: "k \<in> ?stale (obj # objs) \<longleftrightarrow> k = NamespacedName (ns_of obj) (name_of obj) \<or> k \<in> ?stale objs"
          using False f' by auto
        show ?thesis
          unfolding st using IH fr [of k] gone
          by (cases "k = NamespacedName (ns_of obj) (name_of obj)") simp_all
      qed
    qed
  qed simp
  note main = this [of k]
  show "view w' k = view w k" if "k \<notin> ?stale objs"
    by (rule main [THEN conjunct1, THEN mp, OF that])
  show "view w' k = None" if "r = None" "k \<in> ?stale objs"
    by (rule main [THEN conjunct2, THEN mp, OF that(1), THEN mp, OF disjI1, OF that(2)])
qed

end

subsection \<open>Keys\<close>

text \<open>
  The documented functions of client-go on keys, for objects and tombstones: the laws the round
  trip from an event to the reconcile function rests on, and functions that satisfy them.
\<close>

definition key_laws :: "(iface \<Rightarrow> error + string) \<Rightarrow> (string \<Rightarrow> error + string \<times> string) \<Rightarrow> bool" where
  "key_laws keyfunc split \<longleftrightarrow>
     (\<forall>obj m. iface_meta obj = Some m \<longrightarrow> obj_namespace m \<noteq> [] \<longrightarrow>
        keyfunc obj = Inr (obj_namespace m @ ''/'' @ obj_name m)) \<and>
     (\<forall>ns n. CHR ''/'' \<notin> set ns \<longrightarrow> CHR ''/'' \<notin> set n \<longrightarrow> split (ns @ ''/'' @ n) = Inr (ns, n))"

definition MetaNamespaceKey :: "iface \<Rightarrow> error + string" where
  "MetaNamespaceKey obj =
     (case obj of
        IDeletedFinalStateUnknown key _ \<Rightarrow> Inr key
      | _ \<Rightarrow> (case iface_meta obj of
          None \<Rightarrow> Inl (Failure ''object has no meta'')
        | Some m \<Rightarrow> Inr (if obj_namespace m = [] then obj_name m
                         else obj_namespace m @ ''/'' @ obj_name m)))"

definition SplitMetaNamespaceKey :: "string \<Rightarrow> error + string \<times> string" where
  "SplitMetaNamespaceKey key =
     (case split_at (CHR ''/'') key of
        [name] \<Rightarrow> Inr ([], name)
      | [namespace, name] \<Rightarrow> Inr (namespace, name)
      | _ \<Rightarrow> Inl (Failure ''unexpected key format''))"

lemma key_functions_laws: "key_laws MetaNamespaceKey SplitMetaNamespaceKey"
  by (auto simp: key_laws_def MetaNamespaceKey_def SplitMetaNamespaceKey_def split_at_append
      split_at_no_sep split: iface.splits)

text \<open>A library whose queues hold nothing, for the examples that need no queue.\<close>

definition idle_library :: "string \<Rightarrow> cache_store \<Rightarrow> unit library" where
  "idle_library selector store =
     \<lparr>lib_workqueue = \<lparr>wq_Add = (\<lambda>k q. q), wq_Get = (\<lambda>q. None), wq_Done = (\<lambda>k q. q),
        wq_AddRateLimited = (\<lambda>k q. q), wq_Forget = (\<lambda>k q. q), wq_ShutDown = (\<lambda>q. q)\<rparr>,
      lib_newqueue = (\<lambda>n. ()), lib_keyfunc = MetaNamespaceKey, lib_split = SplitMetaNamespaceKey,
      lib_set_string = (\<lambda>m. selector), lib_new_store = store,
      lib_accessor = (\<lambda>obj. case iface_meta obj of None \<Rightarrow> Inl (Failure []) | Some m \<Rightarrow> Inr m)\<rparr>"

end
