(* ===== verification/MirrorRunner.thy ===== *)
theory MirrorRunner
  imports Runners Names
begin

text \<open>
  \<open>mirror_runner.go\<close>: the runner that mirrors the services and endpoints of a remote cluster
  into the local namespace.  The reconcile functions are written as the Go code has them; the
  lemmas show each to be \<open>ensure\<close> or \<open>discard\<close> of the mirror, from which what it leaves in the
  cluster follows in \<open>resource_client\<close>.
\<close>

record ('c, 'q) MirrorRunner =
  mr_client :: 'c
  mr_serviceQueue :: "'q queue"
  mr_serviceWatcher :: "('c, 'q queue) ServiceWatcher"
  mr_mirrorServiceWatcher :: "('c, 'q queue) ServiceWatcher"
  mr_endpointsQueue :: "'q queue"
  mr_endpointsWatcher :: "('c, 'q queue) EndpointsWatcher"
  mr_mirrorEndpointsWatcher :: "('c, 'q queue) EndpointsWatcher"
  mr_mirrorLabels :: go_map
  mr_name :: string
  mr_namespace :: string
  mr_prefix :: string
  mr_labelselector :: string
  mr_sync :: bool
  mr_initialised :: bool

subsection \<open>Event handlers and construction\<close>

definition mr_ServiceEventHandler ::
  "'q library \<Rightarrow> EventType \<Rightarrow> Service option \<Rightarrow> Service option \<Rightarrow> 'q queue \<Rightarrow> 'q queue outcome" where
  "mr_ServiceEventHandler lib = queue_event lib IService"

definition mr_EndpointsEventHandler ::
  "'q library \<Rightarrow> EventType \<Rightarrow> Endpoints option \<Rightarrow> Endpoints option \<Rightarrow> 'q queue \<Rightarrow> 'q queue outcome" where
  "mr_EndpointsEventHandler lib = queue_event lib IEndpoints"

definition newMirrorRunner ::
  "'q library \<Rightarrow> 'c \<Rightarrow> 'c \<Rightarrow> string \<Rightarrow> string \<Rightarrow> string \<Rightarrow> string \<Rightarrow> int \<Rightarrow> bool \<Rightarrow> ('c, 'q) MirrorRunner" where
  "newMirrorRunner lib client watchClient name namespace prfx labelselector resyncPeriod sync =
     (let mirrorLabels = [''mirrored-svc'' \<mapsto> ''true'', ''mirror-svc-prefix-sync'' \<mapsto> prfx];
          runnerName = ''mirror-'' @ name;
          serviceWatcher = NewServiceWatcher (name @ ''-serviceWatcher'') watchClient resyncPeriod
            (Some (mr_ServiceEventHandler lib)) labelselector [] runnerName;
          mirrorServiceWatcher = NewServiceWatcher (name @ ''-mirrorServiceWatcher'') client resyncPeriod
            None (lib_set_string lib mirrorLabels) namespace runnerName;
          endpointsWatcher = NewEndpointsWatcher (name @ ''-endpointsWatcher'') watchClient resyncPeriod
            (Some (mr_EndpointsEventHandler lib)) labelselector [] runnerName;
          mirrorEndpointsWatcher = NewEndpointsWatcher (name @ ''-mirrorEndpointsWatcher'') client resyncPeriod
            None (lib_set_string lib mirrorLabels) namespace runnerName
      in \<lparr>mr_client = client,
          mr_serviceQueue = newQueue (name @ ''-service'') (lib_newqueue lib (name @ ''-service'')),
          mr_serviceWatcher = ServiceWatcher_Init (lib_new_store lib) serviceWatcher,
          mr_mirrorServiceWatcher = ServiceWatcher_Init (lib_new_store lib) mirrorServiceWatcher,
          mr_endpointsQueue = newQueue (name @ ''-endpoints'') (lib_newqueue lib (name @ ''-endpoints'')),
          mr_endpointsWatcher = EndpointsWatcher_Init (lib_new_store lib) endpointsWatcher,
          mr_mirrorEndpointsWatcher = EndpointsWatcher_Init (lib_new_store lib) mirrorEndpointsWatcher,
          mr_mirrorLabels = mirrorLabels,
          mr_name = name, mr_namespace = namespace, mr_prefix = prfx,
          mr_labelselector = [], mr_sync = sync, mr_initialised = False\<rparr>)"

subsection \<open>Services\<close>

definition mr_getRemoteService ::
  "('c, 'q) MirrorRunner \<Rightarrow> string \<Rightarrow> string \<Rightarrow> (error + Service) outcome" where
  "mr_getRemoteService mr name namespace = ServiceWatcher_Get (mr_serviceWatcher mr) name namespace"

definition reconcileService ::
  "('w kube_client, 'q) MirrorRunner \<Rightarrow> string \<Rightarrow> string \<Rightarrow> ('w, error option) go" where
  "reconcileService mr name namespace =
     (let mirrorName = generateMirrorName (mr_prefix mr) namespace name;
          errorf = (\<lambda>verb err. Some (ErrorOf
            (verb @ '' service '' @ mr_namespace mr @ ''/'' @ mirrorName) err))
      in check (mr_getRemoteService mr name namespace) (\<lambda>remote.
           case remote of
             Inl err \<Rightarrow>
               if IsNotFound err
               then call (DeleteService (mr_client mr) mirrorName (mr_namespace mr)) (\<lambda>err.
                      case err of
                        Some e \<Rightarrow> if \<not> IsNotFound e then ret (errorf ''deleting'' e) else ret None
                      | None \<Rightarrow> ret None)
               else ret (Some (ErrorOf ''getting remote service'' err))
           | Inr remoteSvc \<Rightarrow>
               call (GetService (mr_client mr) mirrorName (mr_namespace mr)) (\<lambda>mirror.
                 case mirror of
                   Inl err \<Rightarrow>
                     if IsNotFound err
                     then call (CreateService (mr_client mr) mirrorName (mr_namespace mr)
                            (mr_mirrorLabels mr) Map.empty (svc_ports remoteSvc) (isHeadless remoteSvc))
                          (\<lambda>r. case r of Inl e \<Rightarrow> ret (errorf ''creating'' e) | Inr _ \<Rightarrow> ret None)
                     else ret (errorf ''getting'' err)
                 | Inr mirrorSvc \<Rightarrow>
                     call (UpdateService (mr_client mr) mirrorSvc (svc_ports remoteSvc))
                       (\<lambda>r. case r of Inl e \<Rightarrow> ret (errorf ''updating'' e) | Inr _ \<Rightarrow> ret None))))"

definition ServiceSync :: "('w kube_client, 'q) MirrorRunner \<Rightarrow> ('w, error option) go" where
  "ServiceSync mr =
     check (ServiceWatcher_List (mr_serviceWatcher mr)) (\<lambda>stored.
       case stored of
         Inl err \<Rightarrow> ret (Some err)
       | Inr storeSvcs \<Rightarrow>
           let mirrorSvcList = map (\<lambda>svc. generateMirrorName (mr_prefix mr) (svc_namespace svc)
                 (svc_name svc)) storeSvcs
           in check (ServiceWatcher_List (mr_mirrorServiceWatcher mr)) (\<lambda>current.
                case current of
                  Inl err \<Rightarrow> ret (Some err)
                | Inr currSvcs \<Rightarrow>
                    call (delete_stale svc_name
                            (\<lambda>svc. DeleteService (mr_client mr) (svc_name svc) (mr_namespace mr))
                            mirrorSvcList currSvcs) ret))"

subsection \<open>Endpoints\<close>

definition mr_getRemoteEndpoints ::
  "('c, 'q) MirrorRunner \<Rightarrow> string \<Rightarrow> string \<Rightarrow> (error + Endpoints) outcome" where
  "mr_getRemoteEndpoints mr name namespace = EndpointsWatcher_Get (mr_endpointsWatcher mr) name namespace"

definition mr_getEndpoints ::
  "('w kube_client, 'q) MirrorRunner \<Rightarrow> string \<Rightarrow> string \<Rightarrow> 'w \<Rightarrow> (error + Endpoints) \<times> 'w" where
  "mr_getEndpoints mr name namespace = r_get (EndpointsOf (mr_client mr)) namespace name"

definition createEndpoints ::
  "('w kube_client, 'q) MirrorRunner \<Rightarrow> string \<Rightarrow> string \<Rightarrow> go_map \<Rightarrow> EndpointSubset list \<Rightarrow>
   'w \<Rightarrow> (error + Endpoints) \<times> 'w" where
  "createEndpoints mr name namespace labels subsets =
     r_create (EndpointsOf (mr_client mr)) namespace
       \<lparr>ep_meta = \<lparr>obj_name = name, obj_namespace = namespace, obj_labels = labels,
          obj_annotations = Map.empty\<rparr>, ep_subsets = subsets\<rparr>"

definition updateEndpoints ::
  "('w kube_client, 'q) MirrorRunner \<Rightarrow> string \<Rightarrow> string \<Rightarrow> go_map \<Rightarrow> EndpointSubset list \<Rightarrow>
   'w \<Rightarrow> (error + Endpoints) \<times> 'w" where
  "updateEndpoints mr name namespace labels subsets =
     r_update (EndpointsOf (mr_client mr)) namespace
       \<lparr>ep_meta = \<lparr>obj_name = name, obj_namespace = namespace, obj_labels = labels,
          obj_annotations = Map.empty\<rparr>, ep_subsets = subsets\<rparr>"

definition deleteEndpoints ::
  "('w kube_client, 'q) MirrorRunner \<Rightarrow> string \<Rightarrow> string \<Rightarrow> 'w \<Rightarrow> error option \<times> 'w" where
  "deleteEndpoints mr name namespace = r_delete (EndpointsOf (mr_client mr)) namespace name"

definition reconcileEndpoints ::
  "('w kube_client, 'q) MirrorRunner \<Rightarrow> string \<Rightarrow> string \<Rightarrow> ('w, error option) go" where
  "reconcileEndpoints mr name namespace =
     (let mirrorName = generateMirrorName (mr_prefix mr) namespace name;
          errorf = (\<lambda>verb err. Some (ErrorOf
            (verb @ '' endpoints '' @ mr_namespace mr @ ''/'' @ mirrorName) err))
      in check (mr_getRemoteEndpoints mr name namespace) (\<lambda>remote.
           case remote of
             Inl err \<Rightarrow>
               if IsNotFound err
               then call (deleteEndpoints mr mirrorName (mr_namespace mr)) (\<lambda>err.
                      case err of
                        Some e \<Rightarrow> if \<not> IsNotFound e then ret (errorf ''deleting'' e) else ret None
                      | None \<Rightarrow> ret None)
               else ret (Some (ErrorOf
                      (''getting remote endpoints '' @ namespace @ ''/'' @ name) err))
           | Inr remoteEndpoints \<Rightarrow>
               call (mr_getEndpoints mr mirrorName (mr_namespace mr)) (\<lambda>mirror.
                 case mirror of
                   Inl err \<Rightarrow>
                     if IsNotFound err
                     then call (createEndpoints mr mirrorName (mr_namespace mr)
                            (mr_mirrorLabels mr) (ep_subsets remoteEndpoints))
                          (\<lambda>r. case r of Inl e \<Rightarrow> ret (errorf ''creating'' e) | Inr _ \<Rightarrow> ret None)
                     else ret (errorf ''getting'' err)
                 | Inr _ \<Rightarrow>
                     call (updateEndpoints mr mirrorName (mr_namespace mr)
                            (mr_mirrorLabels mr) (ep_subsets remoteEndpoints))
                       (\<lambda>r. case r of Inl e \<Rightarrow> ret (errorf ''updating'' e) | Inr _ \<Rightarrow> ret None))))"

subsection \<open>Starting and stopping\<close>

text \<open>
  \<open>Run\<close>: \<open>wait\<close> answers for a cache by its name.  The watchers are as they stand when the
  services are synchronised.
\<close>

definition mr_Run ::
  "(string \<Rightarrow> bool option) \<Rightarrow> ('w kube_client, 'q) MirrorRunner \<Rightarrow> 'w \<Rightarrow>
   run_status \<times> run_event list \<times> ('w kube_client, 'q) MirrorRunner \<times> 'w" where
  "mr_Run wait mr w =
     (let started = [StartWatcher (w_name (mr_serviceWatcher mr)),
                     StartWatcher (w_name (mr_mirrorServiceWatcher mr)), SetInitialised];
          mr = mr\<lparr>mr_initialised := True\<rparr>;
          finish = (\<lambda>events w. (RunReturned None,
            events @ [StartWatcher (w_name (mr_endpointsWatcher mr)),
              StartWatcher (w_name (mr_mirrorEndpointsWatcher mr)),
              StartQueue (q_name (mr_serviceQueue mr)), StartQueue (q_name (mr_endpointsQueue mr))],
            mr, w))
      in case wait ''serviceWatcher'' of
           None \<Rightarrow> (RunBlocked, started, mr, w)
         | Some False \<Rightarrow>
             (RunReturned (Some (ErrorString ''failed to wait for service caches to sync'')), started, mr, w)
         | Some True \<Rightarrow>
             (let started = started @ [CacheSynced ''serviceWatcher'']
              in case wait ''mirrorServiceWatcher'' of
                   None \<Rightarrow> (RunBlocked, started, mr, w)
                 | Some False \<Rightarrow>
                     (RunReturned (Some (ErrorString ''failed to wait for mirror service caches to sync'')),
                      started, mr, w)
                 | Some True \<Rightarrow>
                     (let started = started @ [CacheSynced ''mirrorServiceWatcher'']
                      in if mr_sync mr
                         then (case ServiceSync mr w of
                                 (Panicked, w') \<Rightarrow> (RunPanicked, started, mr, w')
                               | (Returned err, w') \<Rightarrow> finish (started @ [Synced err]) w')
                         else finish started w)))"

text \<open>\<open>Stop\<close>; the queues and watchers in the order of the code.\<close>

definition mr_Stop :: "'q library \<Rightarrow> ('c, 'q) MirrorRunner \<Rightarrow> ('c, 'q) MirrorRunner outcome" where
  "mr_Stop lib mr =
     (let mr = mr\<lparr>mr_serviceQueue := queue_Stop (lib_workqueue lib) (mr_serviceQueue mr)\<rparr>
      in bind_outcome (ServiceWatcher_Stop (mr_serviceWatcher mr)) (\<lambda>sw.
         bind_outcome (ServiceWatcher_Stop (mr_mirrorServiceWatcher mr)) (\<lambda>msw.
         let mr = mr\<lparr>mr_serviceWatcher := sw, mr_mirrorServiceWatcher := msw,
                     mr_endpointsQueue := queue_Stop (lib_workqueue lib) (mr_endpointsQueue mr)\<rparr>
         in bind_outcome (EndpointsWatcher_Stop (mr_endpointsWatcher mr)) (\<lambda>ew.
            bind_outcome (EndpointsWatcher_Stop (mr_mirrorEndpointsWatcher mr)) (\<lambda>mew.
            Returned (mr\<lparr>mr_endpointsWatcher := ew, mr_mirrorEndpointsWatcher := mew\<rparr>))))))"

definition mr_Initialised :: "('c, 'q) MirrorRunner \<Rightarrow> bool" where
  "mr_Initialised mr = mr_initialised mr"

subsection \<open>The reconcile functions as \<open>ensure\<close> and \<open>discard\<close>\<close>

definition mirror_service :: "('c, 'q) MirrorRunner \<Rightarrow> string \<Rightarrow> Service \<Rightarrow> Service" where
  "mirror_service mr mirrorName remoteSvc =
     \<lparr>svc_meta = \<lparr>obj_name = mirrorName, obj_namespace = mr_namespace mr,
        obj_labels = mr_mirrorLabels mr, obj_annotations = Map.empty\<rparr>,
      svc_ports = svc_ports remoteSvc, svc_selector = Map.empty,
      svc_clusterIP = (if isHeadless remoteSvc then ''None'' else ''''), svc_rest = ''''\<rparr>"

definition mirror_endpoints :: "('c, 'q) MirrorRunner \<Rightarrow> string \<Rightarrow> Endpoints \<Rightarrow> Endpoints" where
  "mirror_endpoints mr mirrorName remote =
     \<lparr>ep_meta = \<lparr>obj_name = mirrorName, obj_namespace = mr_namespace mr,
        obj_labels = mr_mirrorLabels mr, obj_annotations = Map.empty\<rparr>,
      ep_subsets = ep_subsets remote\<rparr>"

definition mr_wrap :: "string \<Rightarrow> ('c, 'q) MirrorRunner \<Rightarrow> string \<Rightarrow> string \<Rightarrow> error \<Rightarrow> error" where
  "mr_wrap kind mr mirrorName verb err =
     ErrorOf (verb @ '' '' @ kind @ '' '' @ mr_namespace mr @ ''/'' @ mirrorName) err"

lemma reconcileService_absent:
  assumes "mr_getRemoteService mr name namespace = Returned (Inl err)" "IsNotFound err"
  shows "reconcileService mr name namespace =
    discard (Services (mr_client mr)) (mr_namespace mr)
      (generateMirrorName (mr_prefix mr) namespace name)
      (mr_wrap ''service'' mr (generateMirrorName (mr_prefix mr) namespace name))"
  using assms
  by (auto simp: fun_eq_iff reconcileService_def discard_def DeleteService_def mr_wrap_def
      Let_def go_simps split: option.splits prod.splits)

lemma reconcileService_present:
  assumes "mr_getRemoteService mr name namespace = Returned (Inr remoteSvc)"
  shows "reconcileService mr name namespace =
    ensure (Services (mr_client mr)) (mr_namespace mr)
      (generateMirrorName (mr_prefix mr) namespace name)
      (mirror_service mr (generateMirrorName (mr_prefix mr) namespace name) remoteSvc)
      svc_namespace (\<lambda>old. old\<lparr>svc_ports := svc_ports remoteSvc, svc_selector := Map.empty\<rparr>)
      (mr_wrap ''service'' mr (generateMirrorName (mr_prefix mr) namespace name))"
  using assms
  by (auto simp: fun_eq_iff reconcileService_def ensure_def GetService_def CreateService_def
      UpdateService_def mirror_service_def mr_wrap_def svc_namespace_def Let_def go_simps
      split: sum.splits prod.splits)

lemma reconcileEndpoints_absent:
  assumes "mr_getRemoteEndpoints mr name namespace = Returned (Inl err)" "IsNotFound err"
  shows "reconcileEndpoints mr name namespace =
    discard (EndpointsOf (mr_client mr)) (mr_namespace mr)
      (generateMirrorName (mr_prefix mr) namespace name)
      (mr_wrap ''endpoints'' mr (generateMirrorName (mr_prefix mr) namespace name))"
  using assms
  by (auto simp: fun_eq_iff reconcileEndpoints_def discard_def deleteEndpoints_def mr_wrap_def
      Let_def go_simps split: option.splits prod.splits)

lemma reconcileEndpoints_present:
  assumes "mr_getRemoteEndpoints mr name namespace = Returned (Inr remote)"
  shows "reconcileEndpoints mr name namespace =
    ensure (EndpointsOf (mr_client mr)) (mr_namespace mr)
      (generateMirrorName (mr_prefix mr) namespace name)
      (mirror_endpoints mr (generateMirrorName (mr_prefix mr) namespace name) remote)
      (\<lambda>_. mr_namespace mr)
      (\<lambda>_. mirror_endpoints mr (generateMirrorName (mr_prefix mr) namespace name) remote)
      (mr_wrap ''endpoints'' mr (generateMirrorName (mr_prefix mr) namespace name))"
  using assms
  by (auto simp: fun_eq_iff reconcileEndpoints_def ensure_def mr_getEndpoints_def createEndpoints_def
      updateEndpoints_def mirror_endpoints_def mr_wrap_def Let_def go_simps
      split: sum.splits prod.splits)

end
