(* ===== verification/GlobalServiceStore.thy ===== *)
theory GlobalServiceStore
  imports Utils
begin

text \<open>
  \<open>globalservice.go\<close>: the store of global services, shared by the global runners of all
  clusters.  The Go store maps names to pointers; the only writes through such a pointer are
  those of the two operations below, each of which is modelled as an update of the entry, and
  what they return is the entry as it stands in the store.  \<open>store_inv\<close> is the invariant of the
  store, \<open>targets\<close> its abstraction: for each global service the set of clusters it targets.
\<close>

record GlobalService =
  gs_name :: string
  gs_namespace :: string
  gs_ports :: "ServicePort list"
  gs_headless :: bool
  gs_labels :: go_map
  gs_annotations :: go_map
  gs_clusters :: "string list"

definition kubeSeviceTopologyAwareHintsAnno :: string where
  "kubeSeviceTopologyAwareHintsAnno = ''service.kubernetes.io/topology-aware-hints''"

definition kubeSeviceTopologyAwareHintsAnnoVal :: string where
  "kubeSeviceTopologyAwareHintsAnnoVal = ''auto''"

definition globalSvcLabels :: go_map where
  "globalSvcLabels = [''global-svc'' \<mapsto> ''true'']"

definition globalSvcClustersAnno :: string where
  "globalSvcClustersAnno = ''global-svc-clusters''"

type_synonym GlobalServiceStore = "string \<rightharpoonup> GlobalService"

definition newGlobalServiceStore :: GlobalServiceStore where
  "newGlobalServiceStore = Map.empty"

definition AddOrUpdateClusterServiceTarget ::
  "GlobalServiceStore \<Rightarrow> Service \<Rightarrow> string \<Rightarrow> bool \<Rightarrow>
   (error + GlobalService) \<times> GlobalServiceStore" where
  "AddOrUpdateClusterServiceTarget gss svc cluster topologyAwareHints =
     (let gsvcName = generateGlobalServiceName (svc_name svc) (svc_namespace svc);
          gsvcAnnotations = (if topologyAwareHints
            then [kubeSeviceTopologyAwareHintsAnno \<mapsto> kubeSeviceTopologyAwareHintsAnnoVal]
            else Map.empty)
      in case gss gsvcName of
           None \<Rightarrow>
             let gsvc = \<lparr>gs_name = svc_name svc, gs_namespace = svc_namespace svc,
                   gs_ports = svc_ports svc, gs_headless = isHeadless svc,
                   gs_labels = globalSvcLabels,
                   gs_annotations = gsvcAnnotations(globalSvcClustersAnno \<mapsto> cluster),
                   gs_clusters = [cluster]\<rparr>
             in (Inr gsvc, gss(gsvcName \<mapsto> gsvc))
         | Some gsvc \<Rightarrow>
             if gs_headless gsvc \<noteq> isHeadless svc
             then (Inl (ErrorString ''Mismatch between existing headless service and requested''), gss)
             else
               let (_, found) = inSlice (gs_clusters gsvc) cluster;
                   clusters = (if \<not> found then gs_clusters gsvc @ [cluster] else gs_clusters gsvc);
                   gsvc = gsvc\<lparr>gs_clusters := clusters,
                     gs_annotations :=
                       gsvcAnnotations(globalSvcClustersAnno \<mapsto> join '','' clusters),
                     gs_ports := svc_ports svc\<rparr>
               in (Inr gsvc, gss(gsvcName \<mapsto> gsvc)))"

definition DeleteClusterServiceTarget ::
  "GlobalServiceStore \<Rightarrow> string \<Rightarrow> string \<Rightarrow> string \<Rightarrow>
   (GlobalService option \<times> GlobalServiceStore) outcome" where
  "DeleteClusterServiceTarget gss name namespace cluster =
     (let gsvcName = generateGlobalServiceName name namespace
      in case gss gsvcName of
           None \<Rightarrow> Returned (None, gss)
         | Some gsvc \<Rightarrow>
             let (i, found) = inSlice (gs_clusters gsvc) cluster
             in bind_outcome
                  (if found then removeFromSlice (gs_clusters gsvc) i
                   else Returned (gs_clusters gsvc))
                  (\<lambda>clusters.
                     let gsvc = gsvc\<lparr>gs_clusters := clusters\<rparr>;
                         gss = gss(gsvcName \<mapsto> gsvc)
                     in if length (gs_clusters gsvc) = 0
                        then Returned (None, gss(gsvcName := None))
                        else
                          let gsvc = gsvc\<lparr>gs_annotations := (gs_annotations gsvc)
                                (globalSvcClustersAnno \<mapsto> join '','' (gs_clusters gsvc))\<rparr>
                          in Returned (Some gsvc, gss(gsvcName \<mapsto> gsvc))))"

definition Get :: "GlobalServiceStore \<Rightarrow> string \<Rightarrow> string \<Rightarrow> error + GlobalService" where
  "Get gss name namespace =
     (case gss (generateGlobalServiceName name namespace) of
        None \<Rightarrow> Inl (ErrorString ''not found'')
      | Some gsvc \<Rightarrow> Inr gsvc)"

definition Len :: "GlobalServiceStore \<Rightarrow> nat" where
  "Len gss = card (dom gss)"

subsection \<open>The invariant and the abstraction\<close>

definition service_inv :: "string \<Rightarrow> GlobalService \<Rightarrow> bool" where
  "service_inv k g \<longleftrightarrow>
     k = generateGlobalServiceName (gs_name g) (gs_namespace g) \<and>
     gs_clusters g \<noteq> [] \<and> distinct (gs_clusters g) \<and>
     gs_labels g = globalSvcLabels \<and>
     gs_annotations g globalSvcClustersAnno = Some (join '','' (gs_clusters g)) \<and>
     dom (gs_annotations g) \<subseteq> {globalSvcClustersAnno, kubeSeviceTopologyAwareHintsAnno}"

definition store_inv :: "GlobalServiceStore \<Rightarrow> bool" where
  "store_inv gss \<longleftrightarrow> finite (dom gss) \<and> (\<forall>k g. gss k = Some g \<longrightarrow> service_inv k g)"

definition targets :: "GlobalServiceStore \<Rightarrow> string \<Rightarrow> string set" where
  "targets gss k = (case gss k of None \<Rightarrow> {} | Some g \<Rightarrow> set (gs_clusters g))"

lemma anno_keys_differ [simp]:
  "globalSvcClustersAnno \<noteq> kubeSeviceTopologyAwareHintsAnno"
  "kubeSeviceTopologyAwareHintsAnno \<noteq> globalSvcClustersAnno"
  by (simp_all add: globalSvcClustersAnno_def kubeSeviceTopologyAwareHintsAnno_def)

lemma store_inv_new: "store_inv newGlobalServiceStore"
  by (simp add: store_inv_def newGlobalServiceStore_def)

lemma store_inv_upd:
  "store_inv gss \<Longrightarrow> service_inv k g \<Longrightarrow> store_inv (gss(k \<mapsto> g))"
  by (auto simp: store_inv_def)

lemma store_inv_del: "store_inv gss \<Longrightarrow> store_inv (gss(k := None))"
  by (auto simp: store_inv_def intro: finite_subset [of _ "dom gss"])

lemma store_inv_entry: "store_inv gss \<Longrightarrow> gss k = Some g \<Longrightarrow> service_inv k g"
  by (simp add: store_inv_def)

lemma targets_None [simp]: "gss k = None \<Longrightarrow> targets gss k = {}"
  by (simp add: targets_def)

lemma targets_Some: "gss k = Some g \<Longrightarrow> targets gss k = set (gs_clusters g)"
  by (simp add: targets_def)

lemma targets_upd [simp]:
  "targets (gss(k \<mapsto> g)) = (targets gss)(k := set (gs_clusters g))"
  "targets (gss(k := None)) = (targets gss)(k := {})"
  by (auto simp: targets_def fun_eq_iff)

lemma targets_empty_iff: "store_inv gss \<Longrightarrow> targets gss k = {} \<longleftrightarrow> gss k = None"
  by (auto simp: targets_def service_inv_def store_inv_def split: option.splits)

text \<open>The invariant of an entry with a new cluster list and the annotation that goes with it.\<close>

lemma service_inv_clusters:
  assumes "k = generateGlobalServiceName (gs_name g) (gs_namespace g)" "cs \<noteq> []" "distinct cs"
    and "gs_labels g = globalSvcLabels"
    and "dom an \<subseteq> {globalSvcClustersAnno, kubeSeviceTopologyAwareHintsAnno}"
  shows "service_inv k (g\<lparr>gs_clusters := cs,
           gs_annotations := an(globalSvcClustersAnno \<mapsto> join '','' cs), gs_ports := ps\<rparr>)"
    and "service_inv k (g\<lparr>gs_clusters := cs,
           gs_annotations := an(globalSvcClustersAnno \<mapsto> join '','' cs)\<rparr>)"
  using assms by (auto simp: service_inv_def)

subsection \<open>The operations\<close>

abbreviation key_of :: "Service \<Rightarrow> string" where
  "key_of svc \<equiv> generateGlobalServiceName (svc_name svc) (svc_namespace svc)"

text \<open>The annotations an update leaves, and the cluster list it leaves.\<close>

definition hint_annotations :: "bool \<Rightarrow> go_map" where
  "hint_annotations topologyAwareHints = (if topologyAwareHints
     then [kubeSeviceTopologyAwareHintsAnno \<mapsto> kubeSeviceTopologyAwareHintsAnnoVal] else Map.empty)"

lemma dom_hint_annotations: "dom (hint_annotations h) \<subseteq> {kubeSeviceTopologyAwareHintsAnno}"
  by (simp add: hint_annotations_def)

lemma Add_new:
  "gss (key_of svc) = None \<Longrightarrow>
   \<exists>g. AddOrUpdateClusterServiceTarget gss svc c h = (Inr g, gss(key_of svc \<mapsto> g)) \<and>
     gs_name g = svc_name svc \<and> gs_namespace g = svc_namespace svc \<and>
     gs_ports g = svc_ports svc \<and> gs_headless g = isHeadless svc \<and>
     gs_labels g = globalSvcLabels \<and> gs_clusters g = [c] \<and>
     gs_annotations g = (hint_annotations h)(globalSvcClustersAnno \<mapsto> c)"
  by (simp add: AddOrUpdateClusterServiceTarget_def Let_def hint_annotations_def)

lemma Add_mismatch:
  "gss (key_of svc) = Some g \<Longrightarrow> gs_headless g \<noteq> isHeadless svc \<Longrightarrow>
   AddOrUpdateClusterServiceTarget gss svc c h =
     (Inl (ErrorString ''Mismatch between existing headless service and requested''), gss)"
  by (simp add: AddOrUpdateClusterServiceTarget_def Let_def)

lemma Add_update:
  "gss (key_of svc) = Some g \<Longrightarrow> gs_headless g = isHeadless svc \<Longrightarrow>
   cs = (if c \<in> set (gs_clusters g) then gs_clusters g else gs_clusters g @ [c]) \<Longrightarrow>
   g' = g\<lparr>gs_clusters := cs,
     gs_annotations := (hint_annotations h)(globalSvcClustersAnno \<mapsto> join '','' cs),
     gs_ports := svc_ports svc\<rparr> \<Longrightarrow>
   AddOrUpdateClusterServiceTarget gss svc c h = (Inr g', gss(key_of svc \<mapsto> g'))"
  using snd_inSlice [of "gs_clusters g" c]
  by (auto simp: AddOrUpdateClusterServiceTarget_def Let_def hint_annotations_def
      split: prod.splits simp del: snd_inSlice)

text \<open>One statement of what a successful call leaves, for the proofs that follow.\<close>

lemma Add_success:
  assumes inv: "store_inv gss"
    and add: "AddOrUpdateClusterServiceTarget gss svc c h = (Inr g, gss')"
  shows "gss' = gss(key_of svc \<mapsto> g)" and "service_inv (key_of svc) g"
    and "set (gs_clusters g) = insert c (targets gss (key_of svc))"
    and "gs_ports g = svc_ports svc" and "gs_headless g = isHeadless svc"
    and "gs_annotations g =
      (hint_annotations h)(globalSvcClustersAnno \<mapsto> join '','' (gs_clusters g))"
proof -
  have "gss' = gss(key_of svc \<mapsto> g) \<and> service_inv (key_of svc) g \<and>
    set (gs_clusters g) = insert c (targets gss (key_of svc)) \<and>
    gs_ports g = svc_ports svc \<and> gs_headless g = isHeadless svc \<and>
    gs_annotations g = (hint_annotations h)(globalSvcClustersAnno \<mapsto> join '','' (gs_clusters g))"
  proof (cases "gss (key_of svc)")
    case None
    from Add_new [of gss svc c h, OF None] add None show ?thesis
      by (auto simp: service_inv_def hint_annotations_def)
  next
    case (Some old)
    from store_inv_entry [OF inv Some] have old: "service_inv (key_of svc) old" .
    have eq: "gs_headless old = isHeadless svc"
      using Add_mismatch [of gss svc old c h, OF Some] add by auto
    define cs where "cs = (if c \<in> set (gs_clusters old) then gs_clusters old else gs_clusters old @ [c])"
    from Add_update [of gss svc old cs c _ h, OF Some eq cs_def refl] add
    have g: "g = old\<lparr>gs_clusters := cs,
        gs_annotations := (hint_annotations h)(globalSvcClustersAnno \<mapsto> join '','' cs),
        gs_ports := svc_ports svc\<rparr>"
      and gss': "gss' = gss(key_of svc \<mapsto> g)" by auto
    have "service_inv (key_of svc) g" unfolding g
      by (rule service_inv_clusters(1))
        (use old dom_hint_annotations [of h] in \<open>auto simp: service_inv_def cs_def\<close>)
    with gss' g eq Some show ?thesis by (auto simp: targets_Some cs_def)
  qed
  then show "gss' = gss(key_of svc \<mapsto> g)" "service_inv (key_of svc) g"
    "set (gs_clusters g) = insert c (targets gss (key_of svc))"
    "gs_ports g = svc_ports svc" "gs_headless g = isHeadless svc"
    "gs_annotations g =
      (hint_annotations h)(globalSvcClustersAnno \<mapsto> join '','' (gs_clusters g))"
    by blast+
qed

lemma Add_error:
  "AddOrUpdateClusterServiceTarget gss svc c h = (Inl e, gss') \<Longrightarrow>
   gss' = gss \<and> e = ErrorString ''Mismatch between existing headless service and requested'' \<and>
   (\<exists>g. gss (key_of svc) = Some g \<and> gs_headless g \<noteq> isHeadless svc)"
  by (auto simp: AddOrUpdateClusterServiceTarget_def Let_def split: option.splits if_splits prod.splits)

text \<open>Removing a cluster: the list that is left, and what the store holds then.\<close>

lemma remove_cluster:
  assumes "distinct cs"
  obtains cs' where "(let (i, found) = inSlice cs c in
      if found then removeFromSlice cs i else Returned cs) = Returned cs'"
    and "distinct cs'" and "set cs' = set cs - {c}"
proof (cases "c \<in> set cs")
  case False
  then show thesis using that [of cs] assms by (auto simp: inSlice_not_found)
next
  case True
  then obtain k where k: "k < length cs" "inSlice cs c = (int k, True)" "cs ! k = c"
    by (rule inSlice_found)
  obtain ys where ys: "removeFromSlice cs (int k) = Returned ys" "mset ys = mset cs - {#cs ! k#}"
    using removeFromSlice_Returned [OF k(1)] by metis
  have "mset ys = mset (remove1 c cs)" using ys(2) k(3) by simp
  then have "distinct ys" "set ys = set (remove1 c cs)"
    using assms by (metis distinct_remove1 mset_eq_imp_distinct_iff, metis mset_eq_setD)
  with that [of ys] ys(1) k(2) assms show thesis by simp
qed

lemma Delete_absent:
  "gss (generateGlobalServiceName n ns) = None \<Longrightarrow>
   DeleteClusterServiceTarget gss n ns c = Returned (None, gss)"
  by (simp add: DeleteClusterServiceTarget_def)

lemma Delete_present:
  assumes "store_inv gss" "k = generateGlobalServiceName n ns" "gss k = Some g"
  obtains cs where "distinct cs" "set cs = set (gs_clusters g) - {c}"
    and "cs = [] \<Longrightarrow> DeleteClusterServiceTarget gss n ns c = Returned (None, gss(k := None))"
    and "cs \<noteq> [] \<Longrightarrow> DeleteClusterServiceTarget gss n ns c = Returned
      (Some (g\<lparr>gs_clusters := cs, gs_annotations :=
         (gs_annotations g)(globalSvcClustersAnno \<mapsto> join '','' cs)\<rparr>),
       gss(k \<mapsto> g\<lparr>gs_clusters := cs, gs_annotations :=
         (gs_annotations g)(globalSvcClustersAnno \<mapsto> join '','' cs)\<rparr>))"
proof -
  from assms have "distinct (gs_clusters g)"
    using store_inv_entry service_inv_def by blast
  then obtain cs where cs: "(let (i, found) = inSlice (gs_clusters g) c in
      if found then removeFromSlice (gs_clusters g) i else Returned (gs_clusters g)) = Returned cs"
    "distinct cs" "set cs = set (gs_clusters g) - {c}"
    by (rule remove_cluster)
  have "DeleteClusterServiceTarget gss n ns c =
    (if cs = [] then Returned (None, gss(k := None))
     else Returned (Some (g\<lparr>gs_clusters := cs, gs_annotations :=
         (gs_annotations g)(globalSvcClustersAnno \<mapsto> join '','' cs)\<rparr>),
       gss(k \<mapsto> g\<lparr>gs_clusters := cs, gs_annotations :=
         (gs_annotations g)(globalSvcClustersAnno \<mapsto> join '','' cs)\<rparr>)))"
    using assms(2,3) cs(1)
    by (auto simp: DeleteClusterServiceTarget_def Let_def split: prod.splits if_splits)
  with cs(2,3) that [of cs] show thesis by auto
qed

lemma Delete_returns:
  assumes inv: "store_inv gss" and k: "k = generateGlobalServiceName n ns"
  obtains r gss' where "DeleteClusterServiceTarget gss n ns c = Returned (r, gss')"
    and "store_inv gss'" and "r = gss' k"
    and "targets gss' = (targets gss)(k := targets gss k - {c})"
    and "\<And>k'. k' \<noteq> k \<Longrightarrow> gss' k' = gss k'"
proof (cases "gss k")
  case None
  then show thesis
    using that [of None gss] Delete_absent [of gss n ns c] inv k by (auto simp: fun_eq_iff)
next
  case (Some g)
  from store_inv_entry [OF inv Some] have g: "service_inv k g" .
  obtain cs where cs: "distinct cs" "set cs = set (gs_clusters g) - {c}"
    "cs = [] \<Longrightarrow> DeleteClusterServiceTarget gss n ns c = Returned (None, gss(k := None))"
    "cs \<noteq> [] \<Longrightarrow> DeleteClusterServiceTarget gss n ns c = Returned
      (Some (g\<lparr>gs_clusters := cs, gs_annotations :=
         (gs_annotations g)(globalSvcClustersAnno \<mapsto> join '','' cs)\<rparr>),
       gss(k \<mapsto> g\<lparr>gs_clusters := cs, gs_annotations :=
         (gs_annotations g)(globalSvcClustersAnno \<mapsto> join '','' cs)\<rparr>))"
    using Delete_present [OF inv k Some] by blast
  show thesis
  proof (cases "cs = []")
    case True
    with cs(2) have none: "targets gss k - {c} = {}" using Some by (simp add: targets_Some)
    from cs(3) [OF True] show thesis
      by (rule that) (use inv none in \<open>auto simp: store_inv_del fun_eq_iff\<close>)
  next
    case False
    let ?g = "g\<lparr>gs_clusters := cs, gs_annotations :=
         (gs_annotations g)(globalSvcClustersAnno \<mapsto> join '','' cs)\<rparr>"
    have "service_inv k ?g"
      by (rule service_inv_clusters(2)) (use g False cs(1) in \<open>auto simp: service_inv_def\<close>)
    then have inv': "store_inv (gss(k \<mapsto> ?g))" by (rule store_inv_upd [OF inv])
    from cs(4) [OF False] show thesis
      by (rule that) (use inv' Some cs(2) in \<open>simp_all add: targets_Some\<close>)
  qed
qed

subsection \<open>The store as its clients use it\<close>

text \<open>
  The contract the global runner relies on: an operation that returns an entry leaves it where
  \<open>Get\<close> finds it, a removal always returns, and both act on the set of clusters as their names
  say.  A client's history is a list of operations; a refused registration is not in the list of
  accepted ones, which \<open>replay\<close> runs on the sets.
\<close>

datatype store_op = Register Service string bool | Remove string string string

fun replay_op :: "store_op \<Rightarrow> (string \<Rightarrow> string set) \<Rightarrow> (string \<Rightarrow> string set)" where
  "replay_op (Register svc c h) m = m(key_of svc := insert c (m (key_of svc)))"
| "replay_op (Remove n ns c) m =
     m(generateGlobalServiceName n ns := m (generateGlobalServiceName n ns) - {c})"

fun run_op ::
  "('s \<Rightarrow> Service \<Rightarrow> string \<Rightarrow> bool \<Rightarrow> (error + 'g) \<times> 's) \<Rightarrow>
   ('s \<Rightarrow> string \<Rightarrow> string \<Rightarrow> string \<Rightarrow> ('g option \<times> 's) outcome) \<Rightarrow>
   store_op \<Rightarrow> 's \<Rightarrow> (store_op list \<times> 's) outcome" where
  "run_op add del (Register svc c h) s =
     (case add s svc c h of
        (Inl e, s') \<Rightarrow> Returned ([], s')
      | (Inr g, s') \<Rightarrow> Returned ([Register svc c h], s'))"
| "run_op add del (Remove n ns c) s =
     bind_outcome (del s n ns c) (\<lambda>(r, s'). Returned ([Remove n ns c], s'))"

fun run_ops ::
  "('s \<Rightarrow> Service \<Rightarrow> string \<Rightarrow> bool \<Rightarrow> (error + 'g) \<times> 's) \<Rightarrow>
   ('s \<Rightarrow> string \<Rightarrow> string \<Rightarrow> string \<Rightarrow> ('g option \<times> 's) outcome) \<Rightarrow>
   store_op list \<Rightarrow> 's \<Rightarrow> (store_op list \<times> 's) outcome" where
  "run_ops add del [] s = Returned ([], s)"
| "run_ops add del (x # xs) s =
     bind_outcome (run_op add del x s) (\<lambda>(acc, s').
       bind_outcome (run_ops add del xs s') (\<lambda>(acc', s''). Returned (acc @ acc', s'')))"

locale global_store =
  fixes add :: "'s \<Rightarrow> Service \<Rightarrow> string \<Rightarrow> bool \<Rightarrow> (error + 'g) \<times> 's"
    and del :: "'s \<Rightarrow> string \<Rightarrow> string \<Rightarrow> string \<Rightarrow> ('g option \<times> 's) outcome"
    and get :: "'s \<Rightarrow> string \<Rightarrow> string \<Rightarrow> error + 'g"
    and members :: "'s \<Rightarrow> string \<Rightarrow> string set"
    and inv :: "'s \<Rightarrow> bool"
  assumes add_ok:
      "inv s \<Longrightarrow> add s svc c h = (Inr g, s') \<Longrightarrow>
       inv s' \<and> get s' (svc_name svc) (svc_namespace svc) = Inr g \<and>
       members s' = replay_op (Register svc c h) (members s)"
    and add_refused: "add s svc c h = (Inl e, s') \<Longrightarrow> s' = s"
    and del_returns:
      "inv s \<Longrightarrow> \<exists>r s'. del s n ns c = Returned (r, s') \<and> inv s' \<and>
       (\<forall>g. r = Some g \<longrightarrow> get s' n ns = Inr g) \<and>
       members s' = replay_op (Remove n ns c) (members s)"
begin

lemma run_op_returns:
  "inv s \<Longrightarrow> \<exists>acc s'. run_op add del x s = Returned (acc, s') \<and> inv s' \<and>
     members s' = fold replay_op acc (members s)"
proof (cases x)
  case (Register svc c h)
  assume "inv s"
  with Register show ?thesis
    using add_ok [of s svc c h] add_refused [of s svc c h]
    by (cases "add s svc c h"; cases "fst (add s svc c h)") auto
next
  case (Remove n ns c)
  assume "inv s"
  from del_returns [OF this, of n ns c] Remove show ?thesis by auto
qed

lemma run_ops_returns:
  "inv s \<Longrightarrow> \<exists>acc s'. run_ops add del xs s = Returned (acc, s') \<and> inv s' \<and>
     members s' = fold replay_op acc (members s)"
proof (induction xs arbitrary: s)
  case (Cons x xs)
  from run_op_returns [OF Cons.prems] obtain acc s' where x:
    "run_op add del x s = Returned (acc, s')" "inv s'"
    "members s' = fold replay_op acc (members s)" by blast
  from Cons.IH [OF x(2)] x show ?case by auto
qed simp

end

interpretation gss: global_store
  AddOrUpdateClusterServiceTarget DeleteClusterServiceTarget Get targets store_inv
proof
  fix s svc c h g s'
  assume inv: "store_inv s" and add: "AddOrUpdateClusterServiceTarget s svc c h = (Inr g, s')"
  note ok = Add_success [OF inv add]
  from ok(1,2) inv have "store_inv s'" by (simp add: store_inv_upd)
  with ok(1,3) show "store_inv s' \<and> Get s' (svc_name svc) (svc_namespace svc) = Inr g \<and>
      targets s' = replay_op (Register svc c h) (targets s)"
    by (simp add: Get_def)
next
  fix s n ns c
  assume inv: "store_inv s"
  show "\<exists>r s'. DeleteClusterServiceTarget s n ns c = Returned (r, s') \<and> store_inv s' \<and>
      (\<forall>g. r = Some g \<longrightarrow> Get s' n ns = Inr g) \<and>
      targets s' = replay_op (Remove n ns c) (targets s)"
    by (rule Delete_returns [OF inv refl, of n ns c]) (auto simp: Get_def)
qed (use Add_error in blast)

end
