(* ===== verification/GlobalRunner.thy ===== *)
theory GlobalRunner
  imports Runners GlobalServiceStore Names
begin

text \<open>
  \<open>global_runner.go\<close>: the runner that feeds the global services from one cluster.  The store of
  global services is shared by the runners and is passed along with the world; the labels map
  the runner writes to (\<open>syncMirrorLabels\<close>) is part of the runner, which the reconcile function
  of endpoint slices therefore returns.  The routing strategy selector is apimachinery's and a
  predicate on labels.
\<close>

record ('c, 'q) GlobalRunner =
  gr_client :: 'c
  gr_serviceQueue :: "'q queue"
  gr_serviceWatcher :: "('c, 'q queue) ServiceWatcher"
  gr_endpointSliceQueue :: "'q queue"
  gr_endpointSliceWatcher :: "('c, 'q queue) EndpointSliceWatcher"
  gr_mirrorEndpointSliceWatcher :: "('c, 'q queue) EndpointSliceWatcher"
  gr_name :: string
  gr_namespace :: string
  gr_labelselector :: string
  gr_sync :: bool
  gr_syncMirrorLabels :: go_map
  gr_initialised :: bool
  gr_local :: bool
  gr_routingStrategyLabel :: "go_map \<Rightarrow> bool"

definition on_world :: "('w \<Rightarrow> 'a \<times> 'w) \<Rightarrow> 's \<times> 'w \<Rightarrow> 'a \<times> ('s \<times> 'w)" where
  "on_world m = (\<lambda>(s, w). case m w of (a, w') \<Rightarrow> (a, (s, w')))"

lemma on_world_apply [simp, go_simps]: "on_world m (s, w) = (case m w of (a, w') \<Rightarrow> (a, (s, w')))"
  by (simp add: on_world_def)

subsection \<open>Event handlers and construction\<close>

definition gr_ServiceEventHandler ::
  "'q library \<Rightarrow> EventType \<Rightarrow> Service option \<Rightarrow> Service option \<Rightarrow> 'q queue \<Rightarrow> 'q queue outcome" where
  "gr_ServiceEventHandler lib = queue_event lib IService"

definition gr_EndpointSliceEventHandler ::
  "'q library \<Rightarrow> EventType \<Rightarrow> EndpointSlice option \<Rightarrow> EndpointSlice option \<Rightarrow> 'q queue \<Rightarrow> 'q queue outcome" where
  "gr_EndpointSliceEventHandler lib = queue_event lib IEndpointSlice"

definition newGlobalRunner ::
  "'q library \<Rightarrow> 'c \<Rightarrow> 'c \<Rightarrow> string \<Rightarrow> string \<Rightarrow> string \<Rightarrow> int \<Rightarrow> bool \<Rightarrow> (go_map \<Rightarrow> bool) \<Rightarrow> bool \<Rightarrow>
   ('c, 'q) GlobalRunner" where
  "newGlobalRunner lib client watchClient name namespace labelselector resyncPeriod local rsl sync =
     (let mirrorLabels = [''mirrored-endpoint-slice'' \<mapsto> ''true'',
                          ''mirror-endpointslice-sync-name'' \<mapsto> name];
          runnerName = ''global-'' @ name;
          serviceWatcher = NewServiceWatcher (name @ ''-serviceWatcher'') watchClient resyncPeriod
            (Some (gr_ServiceEventHandler lib)) labelselector [] runnerName;
          endpointSliceWatcher = NewEndpointSliceWatcher (name @ ''-endpointSliceWatcher'') watchClient resyncPeriod
            (Some (gr_EndpointSliceEventHandler lib)) labelselector [] runnerName;
          mirrorEndpointSliceWatcher = NewEndpointSliceWatcher (name @ ''-mirrorEndpointSliceWatcher'') watchClient
            resyncPeriod None (lib_set_string lib mirrorLabels) namespace runnerName
      in \<lparr>gr_client = client,
          gr_serviceQueue = newQueue (name @ ''-global-service'') (lib_newqueue lib (name @ ''-global-service'')),
          gr_serviceWatcher = ServiceWatcher_Init (lib_new_store lib) serviceWatcher,
          gr_endpointSliceQueue = newQueue (name @ ''-endpointslice'') (lib_newqueue lib (name @ ''-endpointslice'')),
          gr_endpointSliceWatcher = EndpointSliceWatcher_Init (lib_new_store lib) endpointSliceWatcher,
          gr_mirrorEndpointSliceWatcher = EndpointSliceWatcher_Init (lib_new_store lib) mirrorEndpointSliceWatcher,
          gr_name = name, gr_namespace = namespace, gr_labelselector = [], gr_sync = sync,
          gr_syncMirrorLabels = mirrorLabels, gr_initialised = False, gr_local = local,
          gr_routingStrategyLabel = rsl\<rparr>)"

subsection \<open>Global services\<close>

definition gr_getRemoteService ::
  "('c, 'q) GlobalRunner \<Rightarrow> string \<Rightarrow> string \<Rightarrow> (error + Service) outcome" where
  "gr_getRemoteService gr name namespace = ServiceWatcher_Get (gr_serviceWatcher gr) name namespace"

definition updateGlobalService ::
  "('w kube_client, 'q) GlobalRunner \<Rightarrow> Service \<Rightarrow> ServicePort list \<Rightarrow> go_map \<Rightarrow>
   'w \<Rightarrow> (error + Service) \<times> 'w" where
  "updateGlobalService gr service ports annotations =
     (let service = service\<lparr>svc_meta := (svc_meta service)\<lparr>obj_annotations := annotations\<rparr>\<rparr>
      in UpdateService (gr_client gr) service ports)"

text \<open>
  The second half of \<open>reconcileGlobalService\<close>, from the lookup in the store on: \<open>remoteSvc\<close> is
  \<open>None\<close> (\<open>nil\<close>) when the remote service is gone and other clusters still have it.  Creating
  the local service reads \<open>remoteSvc.Spec.Ports\<close>.
\<close>

definition syncGlobalService ::
  "('w kube_client, 'q) GlobalRunner \<Rightarrow> string \<Rightarrow> string \<Rightarrow> Service option \<Rightarrow>
   (GlobalServiceStore \<times> 'w, error option) go" where
  "syncGlobalService gr name namespace remoteSvc = (\<lambda>(gss, w).
     let globalSvcName = generateGlobalServiceName name namespace;
         errorf = (\<lambda>verb err. Some (ErrorOf
           (verb @ '' service '' @ gr_namespace gr @ ''/'' @ globalSvcName) err))
     in (case Get gss name namespace of
           Inl err \<Rightarrow> ret (Some (ErrorOf ''finding global service in the store'' err))
         | Inr gsvc \<Rightarrow>
             call (on_world (GetService (gr_client gr) globalSvcName (gr_namespace gr))) (\<lambda>r.
               case r of
                 Inl err \<Rightarrow>
                   if IsNotFound err
                   then (case remoteSvc of
                           None \<Rightarrow> panic
                         | Some svc \<Rightarrow>
                             call (on_world (CreateService (gr_client gr) globalSvcName (gr_namespace gr)
                                     (gs_labels gsvc) (gs_annotations gsvc) (svc_ports svc) (gs_headless gsvc)))
                               (\<lambda>r. case r of Inl e \<Rightarrow> ret (errorf ''creating'' e) | Inr _ \<Rightarrow> ret None))
                   else ret (errorf ''getting'' err)
               | Inr globalSvc \<Rightarrow>
                   call (on_world (updateGlobalService gr globalSvc (gs_ports gsvc) (gs_annotations gsvc)))
                     (\<lambda>r. case r of Inl e \<Rightarrow> ret (errorf ''updating'' e) | Inr _ \<Rightarrow> ret None))) (gss, w))"

definition reconcileGlobalService ::
  "'q library \<Rightarrow> ('w kube_client, 'q) GlobalRunner \<Rightarrow> string \<Rightarrow> string \<Rightarrow>
   (GlobalServiceStore \<times> 'w, error option) go" where
  "reconcileGlobalService lib gr name namespace = (\<lambda>(gss, w).
     let globalSvcName = generateGlobalServiceName name namespace
     in (case gr_getRemoteService gr name namespace of
           Panicked \<Rightarrow> panic (gss, w)
         | Returned (Inl err) \<Rightarrow>
             if IsNotFound err
             then (case DeleteClusterServiceTarget gss name namespace (gr_name gr) of
                     Panicked \<Rightarrow> panic (gss, w)
                   | Returned (None, gss') \<Rightarrow>
                       call (on_world (DeleteService (gr_client gr) globalSvcName (gr_namespace gr))) (\<lambda>err.
                         case err of
                           Some e \<Rightarrow>
                             if \<not> IsNotFound e
                             then ret (Some (ErrorOf
                               (''deleting service '' @ gr_namespace gr @ ''/'' @ globalSvcName) e))
                             else ret None
                         | None \<Rightarrow> ret None) (gss', w)
                   | Returned (Some gsvc, gss') \<Rightarrow> syncGlobalService gr name namespace None (gss', w))
             else ret (Some (ErrorOf ''getting remote service'' err)) (gss, w)
         | Returned (Inr remoteSvc) \<Rightarrow>
             (let setServiceTopologyHints =
                    matchSelector (lib_accessor lib) (gr_routingStrategyLabel gr) (IService remoteSvc)
              in case AddOrUpdateClusterServiceTarget gss remoteSvc (gr_name gr) setServiceTopologyHints of
                   (Inl err, gss') \<Rightarrow>
                     ret (Some (ErrorOf ''failed to create/update service'' err)) (gss', w)
                 | (Inr _, gss') \<Rightarrow>
                     syncGlobalService gr name namespace (Some remoteSvc) (gss', w))))"

subsection \<open>Endpoint slices\<close>

definition getRemoteEndpointSlice ::
  "('c, 'q) GlobalRunner \<Rightarrow> string \<Rightarrow> string \<Rightarrow> (error + EndpointSlice) outcome" where
  "getRemoteEndpointSlice gr name namespace =
     EndpointSliceWatcher_Get (gr_endpointSliceWatcher gr) name namespace"

definition getEndpointSlice ::
  "('w kube_client, 'q) GlobalRunner \<Rightarrow> string \<Rightarrow> string \<Rightarrow> 'w \<Rightarrow> (error + EndpointSlice) \<times> 'w" where
  "getEndpointSlice gr name namespace = r_get (EndpointSlices (gr_client gr)) namespace name"

text \<open>\<open>zones\<close> is the package variable \<open>DefaultLocalEndpointZones\<close>.\<close>

definition ensureEndpointSliceZones ::
  "ForZone list \<Rightarrow> ('c, 'q) GlobalRunner \<Rightarrow> Endpoint list \<Rightarrow> Endpoint list" where
  "ensureEndpointSliceZones zones gr endpoints =
     (if \<not> gr_local gr
      then map (\<lambda>e. e\<lparr>e_zone := Some ''remote'', e_hints := Some [ForZone ''remote'']\<rparr>) endpoints
      else map (\<lambda>e. e\<lparr>e_hints := Some zones\<rparr>) endpoints)"

text \<open>
  Create and update build the same object.  Building it writes the labels of the runner, before
  the request is made and whatever the request answers.
\<close>

definition createEndpointSlice ::
  "ForZone list \<Rightarrow> string \<Rightarrow> string \<Rightarrow> string \<Rightarrow> string \<Rightarrow> Endpoint list \<Rightarrow> int list \<Rightarrow>
   ('w kube_client, 'q) GlobalRunner \<times> 'w \<Rightarrow>
   (error + EndpointSlice) \<times> (('w kube_client, 'q) GlobalRunner \<times> 'w)" where
  "createEndpointSlice zones name namespace targetService at endpoints ports = (\<lambda>(gr, w).
     let labels = generateEndpointSliceLabels (gr_syncMirrorLabels gr) targetService;
         gr = gr\<lparr>gr_syncMirrorLabels := labels\<rparr>
     in on_world (r_create (EndpointSlices (gr_client gr)) namespace
          \<lparr>eps_meta = \<lparr>obj_name = name, obj_namespace = namespace, obj_labels = labels,
             obj_annotations = Map.empty\<rparr>,
           eps_addressType = at, eps_endpoints = ensureEndpointSliceZones zones gr endpoints,
           eps_ports = ports\<rparr>) (gr, w))"

definition updateEndpointSlice ::
  "ForZone list \<Rightarrow> string \<Rightarrow> string \<Rightarrow> string \<Rightarrow> string \<Rightarrow> Endpoint list \<Rightarrow> int list \<Rightarrow>
   ('w kube_client, 'q) GlobalRunner \<times> 'w \<Rightarrow>
   (error + EndpointSlice) \<times> (('w kube_client, 'q) GlobalRunner \<times> 'w)" where
  "updateEndpointSlice zones name namespace targetService at endpoints ports = (\<lambda>(gr, w).
     let labels = generateEndpointSliceLabels (gr_syncMirrorLabels gr) targetService;
         gr = gr\<lparr>gr_syncMirrorLabels := labels\<rparr>
     in on_world (r_update (EndpointSlices (gr_client gr)) namespace
          \<lparr>eps_meta = \<lparr>obj_name = name, obj_namespace = namespace, obj_labels = labels,
             obj_annotations = Map.empty\<rparr>,
           eps_addressType = at, eps_endpoints = ensureEndpointSliceZones zones gr endpoints,
           eps_ports = ports\<rparr>) (gr, w))"

definition deleteEndpointSlice ::
  "('w kube_client, 'q) GlobalRunner \<Rightarrow> string \<Rightarrow> string \<Rightarrow> 'w \<Rightarrow> error option \<times> 'w" where
  "deleteEndpointSlice gr name namespace = r_delete (EndpointSlices (gr_client gr)) namespace name"

definition reconcileEndpointSlice ::
  "ForZone list \<Rightarrow> string \<Rightarrow> string \<Rightarrow> (('w kube_client, 'q) GlobalRunner \<times> 'w, error option) go" where
  "reconcileEndpointSlice zones name namespace = (\<lambda>(gr, w).
     let mirrorName = generateGlobalEndpointSliceName name;
         errorf = (\<lambda>verb err. Some (ErrorOf
           (verb @ '' endpointslice '' @ gr_namespace gr @ ''/'' @ mirrorName) err))
     in check (getRemoteEndpointSlice gr name namespace) (\<lambda>remote.
          case remote of
            Inl err \<Rightarrow>
              if IsNotFound err
              then call (on_world (deleteEndpointSlice gr mirrorName (gr_namespace gr))) (\<lambda>err.
                     case err of
                       Some e \<Rightarrow> if \<not> IsNotFound e then ret (errorf ''deleting'' e) else ret None
                     | None \<Rightarrow> ret None)
              else ret (Some (ErrorOf
                     (''getting remote endpointslice '' @ namespace @ ''/'' @ name) err))
          | Inr remote \<Rightarrow>
              (case obj_labels (eps_meta remote) ''kubernetes.io/service-name'' of
                 None \<Rightarrow> ret (Some (ErrorString
                   ''remote endpointslice is missing kubernetes.io/service-name label''))
               | Some targetSvc \<Rightarrow>
                   let targetGlobalService = generateGlobalServiceName targetSvc namespace
                   in call (on_world (getEndpointSlice gr mirrorName (gr_namespace gr))) (\<lambda>r.
                        case r of
                          Inl err \<Rightarrow>
                            if IsNotFound err
                            then call (createEndpointSlice zones mirrorName (gr_namespace gr)
                                   targetGlobalService (eps_addressType remote) (eps_endpoints remote)
                                   (eps_ports remote))
                                 (\<lambda>r. case r of Inl e \<Rightarrow> ret (errorf ''creating'' e) | Inr _ \<Rightarrow> ret None)
                            else ret (errorf ''getting'' err)
                        | Inr _ \<Rightarrow>
                            call (updateEndpointSlice zones mirrorName (gr_namespace gr)
                                   targetGlobalService (eps_addressType remote) (eps_endpoints remote)
                                   (eps_ports remote))
                                 (\<lambda>r. case r of Inl e \<Rightarrow> ret (errorf ''updating'' e) | Inr _ \<Rightarrow> ret None)))) (gr, w))"

definition EndpointSliceSync :: "('w kube_client, 'q) GlobalRunner \<Rightarrow> ('w, error option) go" where
  "EndpointSliceSync gr =
     check (EndpointSliceWatcher_List (gr_endpointSliceWatcher gr)) (\<lambda>stored.
       case stored of
         Inl err \<Rightarrow> ret (Some err)
       | Inr storeEnpointSlices \<Rightarrow>
           let mirrorEndpointSliceList =
                 map (\<lambda>es. generateGlobalEndpointSliceName (eps_name es)) storeEnpointSlices
           in check (EndpointSliceWatcher_List (gr_mirrorEndpointSliceWatcher gr)) (\<lambda>current.
                case current of
                  Inl err \<Rightarrow> ret (Some err)
                | Inr currEndpointSlices \<Rightarrow>
                    call (delete_stale eps_name
                            (\<lambda>es. deleteEndpointSlice gr (eps_name es) (eps_namespace es))
                            mirrorEndpointSliceList currEndpointSlices) ret))"

subsection \<open>Starting and stopping\<close>

definition gr_Run ::
  "(string \<Rightarrow> bool option) \<Rightarrow> ('w kube_client, 'q) GlobalRunner \<Rightarrow> 'w \<Rightarrow>
   run_status \<times> run_event list \<times> ('w kube_client, 'q) GlobalRunner \<times> 'w" where
  "gr_Run wait gr w =
     (let events = [StartWatcher (w_name (gr_serviceWatcher gr)), SetInitialised];
          gr = gr\<lparr>gr_initialised := True\<rparr>;
          slices = ''gl-'' @ gr_name gr @ ''-endpointSliceWatcher'';
          mirrors = ''mirror-'' @ gr_name gr @ ''-endpointSliceWatcher'';
          finish = (\<lambda>events w. (RunReturned None,
            events @ [StartQueue (q_name (gr_serviceQueue gr)),
              StartQueue (q_name (gr_endpointSliceQueue gr))], gr, w))
      in case wait ''serviceWatcher'' of
           None \<Rightarrow> (RunBlocked, events, gr, w)
         | Some False \<Rightarrow>
             (RunReturned (Some (ErrorString ''failed to wait for service caches to sync'')), events, gr, w)
         | Some True \<Rightarrow>
             (let events = events @ [CacheSynced ''serviceWatcher'',
                    StartWatcher (w_name (gr_endpointSliceWatcher gr)),
                    StartWatcher (w_name (gr_mirrorEndpointSliceWatcher gr))]
              in case wait slices of
                   None \<Rightarrow> (RunBlocked, events, gr, w)
                 | Some False \<Rightarrow>
                     (RunReturned (Some (ErrorString ''failed to wait for endpintslices caches to sync'')),
                      events, gr, w)
                 | Some True \<Rightarrow>
                     (let events = events @ [CacheSynced slices]
                      in case wait mirrors of
                           None \<Rightarrow> (RunBlocked, events, gr, w)
                         | Some False \<Rightarrow>
                             (RunReturned (Some (ErrorString
                                ''failed to wait for mirror endpintslices caches to sync'')), events, gr, w)
                         | Some True \<Rightarrow>
                             (let events = events @ [CacheSynced mirrors]
                              in if gr_sync gr
                                 then (case EndpointSliceSync gr w of
                                         (Panicked, w') \<Rightarrow> (RunPanicked, events, gr, w')
                                       | (Returned err, w') \<Rightarrow> finish (events @ [Synced err]) w')
                                 else finish events w))))"

definition gr_Stop :: "'q library \<Rightarrow> ('c, 'q) GlobalRunner \<Rightarrow> ('c, 'q) GlobalRunner outcome" where
  "gr_Stop lib gr =
     (let gr = gr\<lparr>gr_serviceQueue := queue_Stop (lib_workqueue lib) (gr_serviceQueue gr)\<rparr>
      in bind_outcome (ServiceWatcher_Stop (gr_serviceWatcher gr)) (\<lambda>sw.
         let gr = gr\<lparr>gr_serviceWatcher := sw,
                     gr_endpointSliceQueue := queue_Stop (lib_workqueue lib) (gr_endpointSliceQueue gr)\<rparr>
         in bind_outcome (EndpointSliceWatcher_Stop (gr_endpointSliceWatcher gr)) (\<lambda>ew.
            Returned (gr\<lparr>gr_endpointSliceWatcher := ew\<rparr>))))"

definition gr_Initialised :: "('c, 'q) GlobalRunner \<Rightarrow> bool" where
  "gr_Initialised gr = gr_initialised gr"

subsection \<open>What reconciling a global service does\<close>

definition global_service :: "('c, 'q) GlobalRunner \<Rightarrow> string \<Rightarrow> GlobalService \<Rightarrow> Service \<Rightarrow> Service" where
  "global_service gr k g svc =
     \<lparr>svc_meta = \<lparr>obj_name = k, obj_namespace = gr_namespace gr,
        obj_labels = gs_labels g, obj_annotations = gs_annotations g\<rparr>,
      svc_ports = svc_ports svc, svc_selector = Map.empty,
      svc_clusterIP = (if gs_headless g then ''None'' else ''''), svc_rest = ''''\<rparr>"

definition global_update :: "GlobalService \<Rightarrow> Service \<Rightarrow> Service" where
  "global_update g old =
     old\<lparr>svc_meta := (svc_meta old)\<lparr>obj_annotations := gs_annotations g\<rparr>,
         svc_ports := gs_ports g, svc_selector := Map.empty\<rparr>"

definition gr_wrap :: "string \<Rightarrow> ('c, 'q) GlobalRunner \<Rightarrow> string \<Rightarrow> string \<Rightarrow> error \<Rightarrow> error" where
  "gr_wrap kind gr k verb err = ErrorOf (verb @ '' '' @ kind @ '' '' @ gr_namespace gr @ ''/'' @ k) err"

abbreviation ensure_global ::
  "('w kube_client, 'q) GlobalRunner \<Rightarrow> string \<Rightarrow> GlobalService \<Rightarrow> Service \<Rightarrow> ('w, error option) go" where
  "ensure_global gr k g svc \<equiv>
     ensure (Services (gr_client gr)) (gr_namespace gr) k (global_service gr k g svc) svc_namespace
       (global_update g) (gr_wrap ''service'' gr k)"

lemma global_update_keeps [simp]:
  "obj_name (svc_meta (global_update g old)) = obj_name (svc_meta old)"
  "obj_namespace (svc_meta (global_update g old)) = obj_namespace (svc_meta old)"
  "obj_name (svc_meta (global_service gr k g svc)) = k"
  "obj_namespace (svc_meta (global_service gr k g svc)) = gr_namespace gr"
  by (simp_all add: global_update_def global_service_def)

lemma syncGlobalService_present:
  assumes "Get gss name ns = Inr g" "k = generateGlobalServiceName name ns"
  shows "syncGlobalService gr name ns (Some svc) (gss, w) =
    (case ensure_global gr k g svc w of (r, w') \<Rightarrow> (r, (gss, w')))"
  using assms
  by (auto simp: syncGlobalService_def ensure_def GetService_def CreateService_def UpdateService_def
      updateGlobalService_def global_service_def global_update_def gr_wrap_def svc_namespace_def
      Let_def go_simps split: sum.splits prod.splits)

lemma syncGlobalService_nil:
  assumes "Get gss name ns = Inr g" "k = generateGlobalServiceName name ns"
    and "r_get (Services (gr_client gr)) (gr_namespace gr) k w = (r, w1)"
  shows "syncGlobalService gr name ns None (gss, w) =
    (if \<exists>e. r = Inl e \<and> IsNotFound e then (Panicked, (gss, w1))
     else (case ensure_global gr k g svc w of (r, w') \<Rightarrow> (r, (gss, w'))))"
  using assms
  by (auto simp: syncGlobalService_def ensure_def GetService_def UpdateService_def
      updateGlobalService_def global_update_def gr_wrap_def svc_namespace_def
      Let_def go_simps split: sum.splits prod.splits)

lemma reconcileGlobalService_found:
  assumes "gr_getRemoteService gr name ns = Returned (Inr svc)"
    and "AddOrUpdateClusterServiceTarget gss svc (gr_name gr)
      (matchSelector (lib_accessor lib) (gr_routingStrategyLabel gr) (IService svc)) = (r, gss')"
  shows "reconcileGlobalService lib gr name ns (gss, w) =
    (case r of
       Inl err \<Rightarrow> (Returned (Some (ErrorOf ''failed to create/update service'' err)), (gss', w))
     | Inr _ \<Rightarrow> syncGlobalService gr name ns (Some svc) (gss', w))"
  using assms by (auto simp: reconcileGlobalService_def Let_def go_simps split: sum.splits)

lemma reconcileGlobalService_gone:
  assumes "gr_getRemoteService gr name ns = Returned (Inl err)" "IsNotFound err"
    and "DeleteClusterServiceTarget gss name ns (gr_name gr) = Returned (r, gss')"
    and "k = generateGlobalServiceName name ns"
  shows "reconcileGlobalService lib gr name ns (gss, w) =
    (case r of
       None \<Rightarrow> (case discard (Services (gr_client gr)) (gr_namespace gr) k (gr_wrap ''service'' gr k) w of
                 (r, w') \<Rightarrow> (r, (gss', w')))
     | Some _ \<Rightarrow> syncGlobalService gr name ns None (gss', w))"
  using assms
  by (auto simp: reconcileGlobalService_def discard_def DeleteService_def gr_wrap_def Let_def go_simps
      split: option.splits prod.splits)

text \<open>What the cache of the runner's watcher holds at a key has the name and namespace of the key.\<close>

definition service_keyed :: "('c, 'q) GlobalRunner \<Rightarrow> string \<Rightarrow> string \<Rightarrow> bool" where
  "service_keyed gr name ns \<longleftrightarrow>
     (case gr_getRemoteService gr name ns of
        Returned (Inr svc) \<Rightarrow> svc_name svc = name \<and> svc_namespace svc = ns | _ \<Rightarrow> True)"

lemma service_keyedD:
  "service_keyed gr name ns \<Longrightarrow> gr_getRemoteService gr name ns = Returned (Inr svc) \<Longrightarrow>
   svc_name svc = name \<and> svc_namespace svc = ns"
  by (simp add: service_keyed_def)

lemma ensure_global_spec:
  assumes "resource_client (Services (gr_client gr)) view svc_meta admit"
    and "ensure_global gr k g svc w = (r, w')"
  shows "r \<noteq> Panicked" and "k' \<noteq> NamespacedName (gr_namespace gr) k \<Longrightarrow> view w' k' = view w k'"
    and "r = Returned None \<Longrightarrow> view w' = (view w)(NamespacedName (gr_namespace gr) k \<mapsto>
      (case view w (NamespacedName (gr_namespace gr) k) of
         None \<Rightarrow> admit None (global_service gr k g svc)
       | Some old \<Rightarrow> admit (Some old) (global_update g old)))"
  using resource_client.ensure_spec [OF assms] by (simp_all add: svc_namespace_def)

lemma ensure_global_returns:
  assumes "reliable_client (Services (gr_client gr)) view svc_meta admit"
  shows "\<exists>w'. ensure_global gr k g svc w = (Returned None, w')"
  by (rule reliable_client.ensure_returns [OF assms]) (simp_all add: svc_namespace_def)

end
