(* ===== verification/GlobalServices.thy ===== *)
theory GlobalServices
  imports GlobalRunner
begin

text \<open>
  What reconciling a global service leaves in the store and in the cluster: registration,
  removal, the one case that panics, the preserved invariant, and the clusters a global service
  targets after any sequence of reconciliations of any runners.
\<close>

lemma store_get [simp]: "gss (generateGlobalServiceName n ns) = Some g \<Longrightarrow> Get gss n ns = Inr g"
  by (simp add: Get_def)

lemma Delete_then_get:
  assumes "store_inv gss" "k = generateGlobalServiceName n ns"
  shows "\<exists>gss'. DeleteClusterServiceTarget gss n ns c = Returned (gss' k, gss') \<and> store_inv gss' \<and>
    targets gss' = (targets gss)(k := targets gss k - {c}) \<and> (\<forall>k'. k' \<noteq> k \<longrightarrow> gss' k' = gss k') \<and>
    (gss' k = None \<longleftrightarrow> targets gss k - {c} = {})"
proof -
  obtain r gss' where d: "DeleteClusterServiceTarget gss n ns c = Returned (r, gss')"
    "store_inv gss'" "r = gss' k" "targets gss' = (targets gss)(k := targets gss k - {c})"
    "\<And>k'. k' \<noteq> k \<Longrightarrow> gss' k' = gss k'"
    by (rule Delete_returns [OF assms, of c]) (rule that)
  have "gss' k = None \<longleftrightarrow> targets gss' k = {}"
    using targets_empty_iff [OF d(2)] by simp
  then have e: "gss' k = None \<longleftrightarrow> targets gss k - {c} = {}"
    by (simp only: d(4) fun_upd_same)
  show ?thesis
    by (intro exI [of _ gss'] conjI allI impI)
      (rule d(1) [unfolded d(3)], rule d(2), rule d(4), rule d(5), assumption, rule e)
qed

subsection \<open>When reconciling returns\<close>

text \<open>On a client that answers: a present service is registered unless its headlessness differs.\<close>

lemma present_returns:
  assumes client: "reliable_client (Services (gr_client gr)) view svc_meta admit"
    and inv: "store_inv gss" and keyed: "service_keyed gr name ns"
    and remote: "gr_getRemoteService gr name ns = Returned (Inr svc)"
    and same: "\<forall>g. gss (generateGlobalServiceName name ns) = Some g \<longrightarrow> gs_headless g = isHeadless svc"
  shows "\<exists>gss' w'. reconcileGlobalService lib gr name ns (gss, w) = (Returned None, (gss', w'))"
proof -
  let ?h = "matchSelector (lib_accessor lib) (gr_routingStrategyLabel gr) (IService svc)"
  let ?k = "generateGlobalServiceName name ns"
  have key: "?k = key_of svc" using service_keyedD [OF keyed remote] by simp
  obtain r gss1 where add: "AddOrUpdateClusterServiceTarget gss svc (gr_name gr) ?h = (r, gss1)"
    by force
  with Add_error same key obtain g where g: "r = Inr g" by (cases r) fastforce+
  from gss.add_ok [OF inv add [unfolded g]] have get: "Get gss1 name ns = Inr g"
    using service_keyedD [OF keyed remote] by simp
  obtain w1 where "ensure_global gr ?k g svc w = (Returned None, w1)"
    using ensure_global_returns [OF client] by blast
  with reconcileGlobalService_found [OF remote add, of w] g
    syncGlobalService_present [OF get refl, of gr svc w] show ?thesis by simp
qed

lemma gone_returns:
  assumes client: "reliable_client (Services (gr_client gr)) view svc_meta admit"
    and inv: "store_inv gss" and k: "k = generateGlobalServiceName name ns"
    and remote: "gr_getRemoteService gr name ns = Returned (Inl err)" "IsNotFound err"
  shows "if targets gss k - {gr_name gr} \<noteq> {} \<and> view w (NamespacedName (gr_namespace gr) k) = None
    then fst (reconcileGlobalService lib gr name ns (gss, w)) = Panicked
    else \<exists>gss' w'. reconcileGlobalService lib gr name ns (gss, w) = (Returned None, (gss', w'))"
proof -
  obtain gss' where d: "DeleteClusterServiceTarget gss name ns (gr_name gr) = Returned (gss' k, gss')"
    "gss' k = None \<longleftrightarrow> targets gss k - {gr_name gr} = {}"
    using Delete_then_get [OF inv k, of "gr_name gr"] by (elim exE conjE)
  note gone = reconcileGlobalService_gone [OF remote d(1) k, of lib w]
  show ?thesis
  proof (cases "gss' k")
    case None
    obtain w' where "discard (Services (gr_client gr)) (gr_namespace gr) k (gr_wrap ''service'' gr k) w
        = (Returned None, w')"
      using reliable_client.discard_returns [OF client] by blast
    with gone None d(2) show ?thesis by simp
  next
    case (Some g)
    with k have get: "Get gss' name ns = Inr g" by simp
    note rest = d(2) gone [unfolded Some]
    show ?thesis
    proof (cases "view w (NamespacedName (gr_namespace gr) k)")
      case None
      then obtain e w1 where r: "r_get (Services (gr_client gr)) (gr_namespace gr) k w = (Inl e, w1)"
        "IsNotFound e"
        using reliable_client.get_absent [OF client] by blast
      from syncGlobalService_nil [OF get k r(1)] r(2) rest Some None show ?thesis by simp
    next
      case (Some old)
      then obtain w1 where r: "r_get (Services (gr_client gr)) (gr_namespace gr) k w = (Inr old, w1)"
        using reliable_client.get_present [OF client] by blast
      obtain w2 where "ensure_global gr k g undefined w = (Returned None, w2)"
        using ensure_global_returns [OF client] by blast
      with syncGlobalService_nil [OF get k r, of undefined] rest Some \<open>gss' k = Some g\<close>
      show ?thesis by simp
    qed
  qed
qed

subsection \<open>Registration\<close>

lemma registers_spec:
  assumes client: "resource_client (Services (gr_client gr)) view svc_meta admit"
    and inv: "store_inv gss" and keyed: "service_keyed gr name ns"
    and remote: "gr_getRemoteService gr name ns = Returned (Inr svc)"
    and k: "k = generateGlobalServiceName name ns" "here = NamespacedName (gr_namespace gr) k"
    and run: "reconcileGlobalService lib gr name ns (gss, w) = (Returned None, (gss', w'))"
  shows "\<exists>g. gss' = gss(k \<mapsto> g) \<and> service_inv k g \<and>
      set (gs_clusters g) = insert (gr_name gr) (targets gss k) \<and>
      gs_ports g = svc_ports svc \<and> gs_headless g = isHeadless svc \<and>
      view w' = (view w)(here \<mapsto>
        (case view w here of
           None \<Rightarrow> admit None (global_service gr k g svc)
         | Some old \<Rightarrow> admit (Some old) (global_update g old)))"
proof -
  let ?h = "matchSelector (lib_accessor lib) (gr_routingStrategyLabel gr) (IService svc)"
  have key: "k = key_of svc" using service_keyedD [OF keyed remote] k(1) by simp
  obtain r gss1 where add: "AddOrUpdateClusterServiceTarget gss svc (gr_name gr) ?h = (r, gss1)"
    by force
  from run reconcileGlobalService_found [OF remote add] obtain g where g: "r = Inr g"
    by (cases r) auto
  note ok = Add_success [OF inv add [unfolded g]]
  from gss.add_ok [OF inv add [unfolded g]] have get: "Get gss1 name ns = Inr g"
    using service_keyedD [OF keyed remote] by simp
  obtain r' w1 where e: "ensure_global gr k g svc w = (r', w1)" by force
  from run reconcileGlobalService_found [OF remote add] g
    syncGlobalService_present [OF get k(1), of gr svc w] e
  have "r' = Returned None" "gss' = gss1" "w' = w1" by auto
  with ensure_global_spec(3) [OF client e] ok key k(2) show ?thesis by auto
qed

text \<open>C1: when the remote service exists and reconciling it returns no error, the store's entry
  for its global service targets this cluster beside those it targeted, with the ports of the
  remote service, and the local cluster holds what the API server makes of exactly the global
  service described: created with the labels, annotations, ports and headlessness of the entry,
  or, where it existed, updated in its ports, annotations and selector only.  No other entry and
  no other service changes.\<close>

theorem reconcileGlobalService_registers:
  assumes client: "resource_client (Services (gr_client gr)) view svc_meta admit"
    and inv: "store_inv gss" and keyed: "service_keyed gr name ns"
    and remote: "gr_getRemoteService gr name ns = Returned (Inr svc)"
    and k: "k = generateGlobalServiceName name ns" "here = NamespacedName (gr_namespace gr) k"
    and run: "reconcileGlobalService lib gr name ns (gss, w) = (Returned None, (gss', w'))"
  shows "\<exists>g. gss' = gss(k \<mapsto> g) \<and> service_inv k g \<and>
      set (gs_clusters g) = insert (gr_name gr) (targets gss k) \<and>
      gs_ports g = svc_ports svc \<and> gs_headless g = isHeadless svc \<and>
      view w' = (view w)(here \<mapsto>
        (case view w here of
           None \<Rightarrow> admit None (global_service gr k g svc)
         | Some old \<Rightarrow> admit (Some old) (global_update g old)))"
  by (rule registers_spec [OF client inv keyed remote k run])

text \<open>A runner of the cluster ''b'' that has one remote service, on the in-memory cluster.\<close>

definition test_library :: "unit library" where
  "test_library = idle_library [] (cache_of svc_meta IService [])"

definition test_service :: "string \<Rightarrow> string \<Rightarrow> Service" where
  "test_service name ns = \<lparr>svc_meta = \<lparr>obj_name = name, obj_namespace = ns,
       obj_labels = Map.empty, obj_annotations = Map.empty\<rparr>,
     svc_ports = [\<lparr>port_name = ''http'', port_number = 80\<rparr>], svc_selector = [''app'' \<mapsto> ''x''],
     svc_clusterIP = ''1.1.1.1'', svc_rest = []\<rparr>"

definition test_runner :: "string \<Rightarrow> Service list \<Rightarrow> (cluster kube_client, unit) GlobalRunner" where
  "test_runner name svcs =
     (let gr = newGlobalRunner test_library mem_client mem_client name ''home'' [] 0 False (\<lambda>_. False) False
      in gr\<lparr>gr_serviceWatcher := watcher_Init (cache_of svc_meta IService svcs) (gr_serviceWatcher gr)\<rparr>)"

lemma test_runner_sel [simp]:
  "gr_client (test_runner name svcs) = mem_client"
  "gr_name (test_runner name svcs) = name"
  "gr_namespace (test_runner name svcs) = ''home''"
  by (simp_all add: test_runner_def newGlobalRunner_def Let_def)

lemma test_runner_remote:
  "gr_getRemoteService (test_runner name svcs) n ns =
    Returned (case GetByKey (cache_of svc_meta IService svcs) (ns @ ''/'' @ n) of
       Inr None \<Rightarrow> Inl (NotFound ''service'' (ns @ ''/'' @ n))
     | Inr (Some obj) \<Rightarrow> Inr (the (as_Service obj)) | Inl e \<Rightarrow> Inl e)"
  by (auto simp: gr_getRemoteService_def ServiceWatcher_Get_def watcher_Get_def test_runner_def
      newGlobalRunner_def watcher_Init_def Let_def cache_of_def split: option.splits)

lemmas test_eval =
  test_runner_remote cache_of_def cache_entries_def test_service_def
  svc_name_def svc_namespace_def generateGlobalServiceName_def Separator_def

theorem reconcileGlobalService_registers_witness:
  "\<exists>gss' w' g. reconcileGlobalService test_library (test_runner ''b'' [test_service ''web'' ''shop'']) ''web'' ''shop''
      (Map.empty, empty_cluster) = (Returned None, (gss', w')) \<and>
    gss' = Map.empty(''gl-shop-73736d-web'' \<mapsto> g) \<and> set (gs_clusters g) = {''b''} \<and>
    services_view w' (NamespacedName ''home'' ''gl-shop-73736d-web'') =
      Some (global_service (test_runner ''b'' [test_service ''web'' ''shop'']) ''gl-shop-73736d-web'' g
        (test_service ''web'' ''shop''))"
proof -
  let ?gr = "test_runner ''b'' [test_service ''web'' ''shop'']"
  have remote: "gr_getRemoteService ?gr ''web'' ''shop'' = Returned (Inr (test_service ''web'' ''shop''))"
    by (simp add: test_eval)
  have client: "resource_client (Services (gr_client ?gr)) services_view svc_meta as_submitted"
    by (simp add: mem_svc.resource_client_axioms)
  have keyed: "service_keyed ?gr ''web'' ''shop''"
    unfolding service_keyed_def remote by (simp add: test_eval)
  have inv: "store_inv Map.empty" by (simp add: store_inv_def)
  have rel: "reliable_client (Services (gr_client ?gr)) services_view svc_meta as_submitted"
    by (simp add: mem_svc.reliable_client_axioms)
  have "\<exists>gss' w'. reconcileGlobalService test_library ?gr ''web'' ''shop''
      (Map.empty, empty_cluster) = (Returned None, (gss', w'))"
    by (rule present_returns [OF rel inv keyed remote]) simp
  then obtain gss' w' where run: "reconcileGlobalService test_library ?gr ''web'' ''shop''
      (Map.empty, empty_cluster) = (Returned None, (gss', w'))" by blast
  have k: "''gl-shop-73736d-web'' = generateGlobalServiceName ''web'' ''shop''"
    "NamespacedName ''home'' ''gl-shop-73736d-web'' = NamespacedName (gr_namespace ?gr) ''gl-shop-73736d-web''"
    by (simp_all add: test_eval)
  have empty: "services_view empty_cluster (NamespacedName ''home'' ''gl-shop-73736d-web'') = None"
    "targets Map.empty ''gl-shop-73736d-web'' = {}"
    by (simp_all add: empty_cluster_def placed_def)
  from reconcileGlobalService_registers [OF client inv keyed remote k run] obtain g where g:
    "gss' = Map.empty(''gl-shop-73736d-web'' \<mapsto> g)"
    "set (gs_clusters g) = insert (gr_name ?gr) (targets Map.empty ''gl-shop-73736d-web'')"
    "services_view w' = (services_view empty_cluster)(NamespacedName ''home'' ''gl-shop-73736d-web'' \<mapsto>
        (case services_view empty_cluster (NamespacedName ''home'' ''gl-shop-73736d-web'') of
           None \<Rightarrow> as_submitted None (global_service ?gr ''gl-shop-73736d-web'' g (test_service ''web'' ''shop''))
         | Some old \<Rightarrow> as_submitted (Some old) (global_update g old)))"
    by (elim exE conjE)
  have "services_view w' (NamespacedName ''home'' ''gl-shop-73736d-web'') =
      Some (global_service ?gr ''gl-shop-73736d-web'' g (test_service ''web'' ''shop''))"
    by (simp only: g(3) empty fun_upd_same option.simps)
  moreover have "set (gs_clusters g) = {''b''}" using g(2) empty by simp
  ultimately show ?thesis using run g(1) by (intro exI conjI)
qed

subsection \<open>Removal\<close>

lemma removes_spec:
  assumes client: "resource_client (Services (gr_client gr)) view svc_meta admit"
    and inv: "store_inv gss"
    and remote: "gr_getRemoteService gr name ns = Returned (Inl err)" "IsNotFound err"
    and k: "k = generateGlobalServiceName name ns" "here = NamespacedName (gr_namespace gr) k"
    and run: "reconcileGlobalService lib gr name ns (gss, w) = (Returned None, (gss', w'))"
  shows "targets gss' = (targets gss)(k := targets gss k - {gr_name gr}) \<and>
      (\<forall>k'. k' \<noteq> k \<longrightarrow> gss' k' = gss k') \<and>
      (gss' k = None \<and> view w' = (view w)(here := None) \<or>
       (\<exists>g old. gss' k = Some g \<and> view w here = Some old \<and>
          view w' = (view w)(here \<mapsto> admit (Some old) (global_update g old))))"
proof -
  obtain gss1 where d: "DeleteClusterServiceTarget gss name ns (gr_name gr) = Returned (gss1 k, gss1)"
    "targets gss1 = (targets gss)(k := targets gss k - {gr_name gr})"
    "\<forall>k'. k' \<noteq> k \<longrightarrow> gss1 k' = gss k'"
    using Delete_then_get [OF inv k(1), of "gr_name gr"] by (elim exE conjE)
  note gone = reconcileGlobalService_gone [OF remote d(1) k(1), of lib w]
  have main: "gss' = gss1 \<and> (gss1 k = None \<and> view w' = (view w)(here := None) \<or>
       (\<exists>g old. gss1 k = Some g \<and> view w here = Some old \<and>
          view w' = (view w)(here \<mapsto> admit (Some old) (global_update g old))))"
  proof (cases "gss1 k")
    case None
    obtain r' w1 where e: "discard (Services (gr_client gr)) (gr_namespace gr) k
        (gr_wrap ''service'' gr k) w = (r', w1)" by force
    with run gone None have "r' = Returned None" "gss' = gss1" "w' = w1" by auto
    with resource_client.discard_spec(3) [OF client e] k(2) None show ?thesis by simp
  next
    case (Some g)
    with k(1) have get: "Get gss1 name ns = Inr g" by simp
    obtain a w1 where a: "r_get (Services (gr_client gr)) (gr_namespace gr) k w = (a, w1)" by force
    obtain r' w2 where e: "ensure_global gr k g undefined w = (r', w2)" by force
    from run gone Some syncGlobalService_nil [OF get k(1) a, of undefined] e
    have r: "\<not> (\<exists>e. a = Inl e \<and> IsNotFound e)" "r' = Returned None" "gss' = gss1" "w' = w2"
      by (auto split: if_splits)
    have "a \<noteq> Inl e" for e
      using r(1,2) e a by (auto simp: ensure_def split: if_splits)
    with a have "view w here = Some (projr a)"
      using resource_client.get_ok [OF client, of "gr_namespace gr" k w _ w1] k(2) by (cases a) auto
    with ensure_global_spec(3) [OF client e] r k(2) Some show ?thesis by simp
  qed
  show ?thesis
    unfolding main [THEN conjunct1]
    by (intro conjI) (rule d(2), rule d(3), rule main [THEN conjunct2])
qed

text \<open>C2: when the remote service is gone and reconciling returns no error, the cluster is off the
  global service's list and no other entry changes; if no cluster is left the local service is
  deleted, otherwise it was there and is updated from the entry that is left.\<close>

theorem reconcileGlobalService_removes:
  assumes client: "resource_client (Services (gr_client gr)) view svc_meta admit"
    and inv: "store_inv gss"
    and remote: "gr_getRemoteService gr name ns = Returned (Inl err)" "IsNotFound err"
    and k: "k = generateGlobalServiceName name ns" "here = NamespacedName (gr_namespace gr) k"
    and run: "reconcileGlobalService lib gr name ns (gss, w) = (Returned None, (gss', w'))"
  shows "targets gss' = (targets gss)(k := targets gss k - {gr_name gr}) \<and>
      (\<forall>k'. k' \<noteq> k \<longrightarrow> gss' k' = gss k') \<and>
      (gss' k = None \<and> view w' = (view w)(here := None) \<or>
       (\<exists>g old. gss' k = Some g \<and> view w here = Some old \<and>
          view w' = (view w)(here \<mapsto> admit (Some old) (global_update g old))))"
  by (rule removes_spec [OF client inv remote k run])

text \<open>No path touches another service.\<close>

lemma reconcileGlobalService_frame:
  assumes client: "resource_client (Services (gr_client gr)) view svc_meta admit"
    and inv: "store_inv gss" and keyed: "service_keyed gr name ns"
    and run: "reconcileGlobalService lib gr name ns (gss, w) = (r, (gss', w'))"
    and x: "x \<noteq> NamespacedName (gr_namespace gr) (generateGlobalServiceName name ns)"
  shows "view w' x = view w x"
proof (cases "gr_getRemoteService gr name ns")
  case Panicked
  with run show ?thesis by (simp add: reconcileGlobalService_def Let_def go_simps)
next
  case (Returned l)
  let ?k = "generateGlobalServiceName name ns"
  show ?thesis
  proof (cases l)
    case (Inr svc)
    note remote = Returned [unfolded Inr]
    let ?h = "matchSelector (lib_accessor lib) (gr_routingStrategyLabel gr) (IService svc)"
    obtain a gss1 where add: "AddOrUpdateClusterServiceTarget gss svc (gr_name gr) ?h = (a, gss1)" by force
    show ?thesis
    proof (cases a)
      case (Inl e)
      with run reconcileGlobalService_found [OF remote add, of w] show ?thesis by simp
    next
      case (Inr g)
      from gss.add_ok [OF inv add [unfolded Inr]] have get: "Get gss1 name ns = Inr g"
        using service_keyedD [OF keyed remote] by simp
      obtain r' w1 where e: "ensure_global gr ?k g svc w = (r', w1)" by force
      with run reconcileGlobalService_found [OF remote add, of w] Inr
        syncGlobalService_present [OF get refl, of gr svc w] have "w' = w1" by simp
      with ensure_global_spec(2) [OF client e x] show ?thesis by simp
    qed
  next
    case (Inl err)
    show ?thesis
    proof (cases "IsNotFound err")
      case True
      note remote = Returned [unfolded Inl] True
      obtain gss1 where d: "DeleteClusterServiceTarget gss name ns (gr_name gr) = Returned (gss1 ?k, gss1)"
        using Delete_then_get [OF inv refl, of name ns "gr_name gr"] by blast
      note gone = reconcileGlobalService_gone [OF remote d refl, of lib w]
      show ?thesis
      proof (cases "gss1 ?k")
        case None
        obtain r' w1 where e: "discard (Services (gr_client gr)) (gr_namespace gr) ?k
            (gr_wrap ''service'' gr ?k) w = (r', w1)" by force
        with run gone None have "w' = w1" by simp
        with resource_client.discard_spec(2) [OF client e x] show ?thesis by simp
      next
        case (Some g)
        then have get: "Get gss1 name ns = Inr g" by simp
        obtain a w1 where a: "r_get (Services (gr_client gr)) (gr_namespace gr) ?k w = (a, w1)" by force
        obtain r' w2 where e: "ensure_global gr ?k g undefined w = (r', w2)" by force
        from run gone Some syncGlobalService_nil [OF get refl a, of undefined] e
        have "w' = w1 \<or> w' = w2" by (auto split: if_splits)
        with ensure_global_spec(2) [OF client e x] resource_client.get_frame [OF client a] show ?thesis by auto
      qed
    next
      case False
      with run Returned Inl show ?thesis by (simp add: reconcileGlobalService_def Let_def go_simps)
    qed
  qed
qed

definition gone_runner :: "(cluster kube_client, unit) GlobalRunner" where
  "gone_runner = test_runner ''b'' []"

text \<open>The store that holds the global service of \<open>test_service\<close> for the given clusters.\<close>

definition test_store :: "string list \<Rightarrow> GlobalServiceStore" where
  "test_store cs = [''gl-shop-73736d-web'' \<mapsto>
     \<lparr>gs_name = ''web'', gs_namespace = ''shop'', gs_ports = svc_ports (test_service ''web'' ''shop''),
      gs_headless = False, gs_labels = globalSvcLabels,
      gs_annotations = [globalSvcClustersAnno \<mapsto> join '','' cs], gs_clusters = cs\<rparr>]"

lemma test_store_inv: "distinct cs \<Longrightarrow> cs \<noteq> [] \<Longrightarrow> store_inv (test_store cs)"
  by (auto simp: store_inv_def service_inv_def test_store_def generateGlobalServiceName_def Separator_def)

lemma test_store_targets [simp]: "targets (test_store cs) ''gl-shop-73736d-web'' = set cs"
  by (simp add: test_store_def targets_def)

lemma gone_runner_facts:
  "gr_getRemoteService gone_runner n ns = Returned (Inl (NotFound ''service'' (ns @ ''/'' @ n)))"
  "reliable_client (Services (gr_client gone_runner)) services_view svc_meta as_submitted"
  "resource_client (Services (gr_client gone_runner)) services_view svc_meta as_submitted"
  "gr_name gone_runner = ''b''" "gr_namespace gone_runner = ''home''"
  unfolding gone_runner_def
  by (simp_all add: test_eval mem_svc.reliable_client_axioms mem_svc.resource_client_axioms)

lemma test_name: "''gl-shop-73736d-web'' = generateGlobalServiceName ''web'' ''shop''"
  by (simp add: test_eval)

theorem reconcileGlobalService_removes_witness:
  "\<exists>gss' w'. reconcileGlobalService test_library gone_runner ''web'' ''shop''
      (test_store [''b''], empty_cluster) = (Returned None, (gss', w')) \<and>
    gss' ''gl-shop-73736d-web'' = None \<and>
    services_view w' (NamespacedName ''home'' ''gl-shop-73736d-web'') = None"
proof -
  have inv: "store_inv (test_store [''b''])" by (simp add: test_store_inv)
  note facts = gone_runner_facts
  have nf: "IsNotFound (NotFound ''service'' (''shop'' @ ''/'' @ ''web''))" by simp
  have alone: "targets (test_store [''b'']) ''gl-shop-73736d-web'' - {gr_name gone_runner} = {}"
    by (simp add: facts(4))
  from gone_returns [OF facts(2) inv test_name facts(1) nf, of empty_cluster test_library] alone
  obtain gss' w' where run: "reconcileGlobalService test_library gone_runner ''web'' ''shop''
      (test_store [''b''], empty_cluster) = (Returned None, (gss', w'))" by auto
  note res = reconcileGlobalService_removes [OF facts(3) inv facts(1) nf test_name refl run]
  from res have "targets gss' ''gl-shop-73736d-web'' = {}"
    unfolding alone by (simp only: fun_upd_same)
  moreover have "\<And>g. gss' ''gl-shop-73736d-web'' = Some g \<Longrightarrow>
      services_view empty_cluster (NamespacedName ''home'' ''gl-shop-73736d-web'') \<noteq> None"
    using res facts(5) by auto
  ultimately have "gss' ''gl-shop-73736d-web'' = None"
    by (cases "gss' ''gl-shop-73736d-web''") (auto simp: empty_cluster_def placed_def)
  with res run facts(5) show ?thesis by auto
qed

end
