(* ===== verification/GlobalTargets.thy ===== *)
theory GlobalTargets
  imports GlobalServices
begin

text \<open>
  Reconciling a global service seen from the store: it keeps the store's invariant whatever the
  requests answer, it panics in exactly one case, and after any sequence of reconciliations of
  the runners the store is what a simple registry of clusters has become, which only ever sees
  what the lookups answered.
\<close>

subsection \<open>What reconciling does to the store\<close>

lemma ensure_results:
  "fst (ensure api ns n fresh update_ns upd wrap w) \<in>
     {Returned None} \<union> (\<lambda>(verb, e). Returned (Some (wrap verb e))) `
        ({''creating'', ''getting'', ''updating''} \<times> UNIV)"
  by (auto simp: ensure_def split: sum.splits prod.splits)

lemma discard_results:
  "fst (discard api ns n wrap w) \<in> {Returned None} \<union> range (\<lambda>e. Returned (Some (wrap ''deleting'' e)))"
  by (auto simp: discard_def split: option.splits prod.splits)

abbreviation not_in_store :: "error \<Rightarrow> error" where
  "not_in_store \<equiv> ErrorOf ''finding global service in the store''"

lemma gr_wrap_not_in_store [simp]:
  "gr_wrap ''service'' gr k ''creating'' e \<noteq> not_in_store e'"
  "gr_wrap ''service'' gr k ''getting'' e \<noteq> not_in_store e'"
  "gr_wrap ''service'' gr k ''updating'' e \<noteq> not_in_store e'"
  "gr_wrap ''service'' gr k ''deleting'' e \<noteq> not_in_store e'"
  by (simp_all add: gr_wrap_def)

lemmas not_in_store_gr_wrap [simp] = gr_wrap_not_in_store [THEN not_sym]

lemma ensure_global_result:
  "fst (ensure_global gr k g svc w) \<noteq> Returned (Some (not_in_store e))"
  "fst (ensure_global gr k g svc w) \<noteq> Panicked"
  using ensure_results [of "Services (gr_client gr)" "gr_namespace gr" k "global_service gr k g svc"
      svc_namespace "global_update g" "gr_wrap ''service'' gr k" w] by auto

lemma store_after_found:
  assumes inv: "store_inv gss" and keyed: "service_keyed gr name ns"
    and remote: "gr_getRemoteService gr name ns = Returned (Inr svc)"
    and k: "k = generateGlobalServiceName name ns"
    and same: "\<forall>g. gss k = Some g \<longrightarrow> gs_headless g = isHeadless svc"
  obtains g r w' where "reconcileGlobalService lib gr name ns (gss, w) = (r, (gss(k \<mapsto> g), w'))"
    and "service_inv k g" "gs_headless g = isHeadless svc"
    and "set (gs_clusters g) = insert (gr_name gr) (targets gss k)"
    and "r \<noteq> Panicked" "\<And>e. r \<noteq> Returned (Some (not_in_store e))"
proof -
  let ?h = "matchSelector (lib_accessor lib) (gr_routingStrategyLabel gr) (IService svc)"
  have key: "k = key_of svc" using service_keyedD [OF keyed remote] k by simp
  obtain r gss1 where add: "AddOrUpdateClusterServiceTarget gss svc (gr_name gr) ?h = (r, gss1)"
    by force
  with Add_error same key obtain g where g: "r = Inr g" by (cases r) fastforce+
  note ok = Add_success [OF inv add [unfolded g]]
  from ok(1) key k have get: "Get gss1 name ns = Inr g" by simp
  obtain r' w1 where e: "ensure_global gr k g svc w = (r', w1)" by force
  note r' = ensure_global_result [of gr k g svc w, unfolded e fst_conv]
  have "reconcileGlobalService lib gr name ns (gss, w) = (r', (gss(k \<mapsto> g), w1))"
    using reconcileGlobalService_found [OF remote add, of w] g ok(1) key
      syncGlobalService_present [OF get k, of gr svc w] e by simp
  then show thesis
    by (rule that) (use ok key r' in simp_all)
qed

lemma store_after_mismatch:
  assumes "service_keyed gr name ns" "gr_getRemoteService gr name ns = Returned (Inr svc)"
    and "k = generateGlobalServiceName name ns" "gss k = Some g" "gs_headless g \<noteq> isHeadless svc"
  shows "reconcileGlobalService lib gr name ns (gss, w) =
    (Returned (Some (ErrorOf ''failed to create/update service''
       (ErrorString ''Mismatch between existing headless service and requested''))), (gss, w))"
proof -
  from service_keyedD [OF assms(1,2)] assms(3,4) have "gss (key_of svc) = Some g" by simp
  note add = Add_mismatch [of gss svc g, OF this assms(5)]
  from reconcileGlobalService_found [OF assms(2) add] show ?thesis by simp
qed

lemma Delete_headless:
  "DeleteClusterServiceTarget gss n ns c = Returned (r, gss') \<Longrightarrow> gss' k = Some g' \<Longrightarrow>
   \<exists>g. gss k = Some g \<and> gs_headless g = gs_headless g'"
  by (auto simp: DeleteClusterServiceTarget_def Let_def bind_outcome_Returned_iff
      split: option.splits if_splits prod.splits)

lemma store_after_gone:
  assumes inv: "store_inv gss" and k: "k = generateGlobalServiceName name ns"
    and remote: "gr_getRemoteService gr name ns = Returned (Inl err)" "IsNotFound err"
  obtains gss' r w' where "reconcileGlobalService lib gr name ns (gss, w) = (r, (gss', w'))"
    and "store_inv gss'" "targets gss' = (targets gss)(k := targets gss k - {gr_name gr})"
    and "\<And>k'. k' \<noteq> k \<Longrightarrow> gss' k' = gss k'"
    and "\<And>e. r \<noteq> Returned (Some (not_in_store e))"
    and "\<And>k' g'. gss' k' = Some g' \<Longrightarrow> \<exists>g. gss k' = Some g \<and> gs_headless g = gs_headless g'"
proof -
  obtain gss' where d: "DeleteClusterServiceTarget gss name ns (gr_name gr) = Returned (gss' k, gss')"
    "store_inv gss'" "targets gss' = (targets gss)(k := targets gss k - {gr_name gr})"
    "\<forall>k'. k' \<noteq> k \<longrightarrow> gss' k' = gss k'"
    using Delete_then_get [OF inv k, of "gr_name gr"] by (elim exE conjE)
  note gone = reconcileGlobalService_gone [OF remote d(1) k, of lib w]
  have "\<exists>r w'. reconcileGlobalService lib gr name ns (gss, w) = (r, (gss', w')) \<and>
      (\<forall>e. r \<noteq> Returned (Some (not_in_store e)))"
  proof (cases "gss' k")
    case None
    with gone discard_results [of "Services (gr_client gr)" "gr_namespace gr" k
        "gr_wrap ''service'' gr k" w] show ?thesis
      by (auto split: prod.splits)
  next
    case (Some g)
    with k have get: "Get gss' name ns = Inr g" by simp
    obtain a w1 where a: "r_get (Services (gr_client gr)) (gr_namespace gr) k w = (a, w1)" by force
    obtain r' w2 where e: "ensure_global gr k g undefined w = (r', w2)" by force
    with gone Some syncGlobalService_nil [OF get k a, of undefined]
      ensure_global_result [of gr k g undefined w] show ?thesis by auto
  qed
  then obtain r w' where "reconcileGlobalService lib gr name ns (gss, w) = (r, (gss', w'))"
    "\<And>e. r \<noteq> Returned (Some (not_in_store e))" by blast
  from that [OF this(1) d(2,3)] d(4) this(2) Delete_headless [OF d(1)] show thesis by blast
qed

lemma store_unchanged:
  assumes "gr_getRemoteService gr name ns = Returned (Inl err)" "\<not> IsNotFound err"
  shows "reconcileGlobalService lib gr name ns (gss, w) =
    (Returned (Some (ErrorOf ''getting remote service'' err)), (gss, w))"
  using assms by (simp add: reconcileGlobalService_def Let_def go_simps)

subsection \<open>The invariant\<close>

text \<open>C12: whatever the caches and the requests answer, reconciling keeps the store's invariant and
  leaves the other entries alone, and the lookup in the store after the update finds the entry.\<close>

theorem reconcileGlobalService_keeps_inv:
  assumes inv: "store_inv gss" and keyed: "service_keyed gr name ns"
  shows "store_inv (fst (snd (reconcileGlobalService lib gr name ns (gss, w)))) \<and>
    (\<forall>k. k \<noteq> generateGlobalServiceName name ns \<longrightarrow>
       fst (snd (reconcileGlobalService lib gr name ns (gss, w))) k = gss k) \<and>
    fst (reconcileGlobalService lib gr name ns (gss, w)) \<noteq> Returned (Some (not_in_store e))"
proof (cases "gr_getRemoteService gr name ns")
  case Panicked
  with inv show ?thesis by (simp add: reconcileGlobalService_def Let_def go_simps)
next
  case (Returned l)
  show ?thesis
  proof (cases l)
    case (Inl err)
    note r = Returned [unfolded Inl]
    show ?thesis
    proof (cases "IsNotFound err")
      case True
      show ?thesis
        by (rule store_after_gone [OF inv refl r True, of lib w]) simp
    next
      case False
      from store_unchanged [OF r this, of lib gss w] inv show ?thesis by simp
    qed
  next
    case (Inr svc)
    note r = Returned [unfolded Inr]
    show ?thesis
    proof (cases "\<forall>g. gss (generateGlobalServiceName name ns) = Some g \<longrightarrow> gs_headless g = isHeadless svc")
      case True
      show ?thesis
        by (rule store_after_found [OF inv keyed r refl True, of lib w]) (simp add: store_inv_upd inv)
    next
      case False
      then obtain g where "gss (generateGlobalServiceName name ns) = Some g" "gs_headless g \<noteq> isHeadless svc"
        by blast
      from store_after_mismatch [where gss = gss and g = g, OF keyed r refl this, of lib w] inv show ?thesis by simp
    qed
  qed
qed

lemma test_runner_keyed: "service_keyed (test_runner c [test_service ''web'' ''shop'']) ''web'' ''shop''"
  unfolding service_keyed_def by (simp add: test_eval)

theorem reconcileGlobalService_keeps_inv_witness:
  "store_inv (fst (snd (reconcileGlobalService test_library (test_runner ''b'' [test_service ''web'' ''shop''])
     ''web'' ''shop'' (test_store [''a''], empty_cluster))))"
  using reconcileGlobalService_keeps_inv [OF test_store_inv [of "[''a'']"] test_runner_keyed [of "''b''"]]
  by simp

subsection \<open>The case that panics\<close>

text \<open>C10: on a client that answers every request, reconciling panics exactly when the remote service is
  gone, other clusters still have it, and the local global service is not found: creating it then
  reads the ports of the remote service, which is nil.\<close>

theorem reconcileGlobalService_panics_iff:
  assumes client: "reliable_client (Services (gr_client gr)) view svc_meta admit"
    and inv: "store_inv gss" and keyed: "service_keyed gr name ns"
    and k: "k = generateGlobalServiceName name ns"
    and lookup: "gr_getRemoteService gr name ns = Returned r"
  shows "fst (reconcileGlobalService lib gr name ns (gss, w)) = Panicked \<longleftrightarrow>
    (\<exists>e. r = Inl e \<and> IsNotFound e) \<and> targets gss k - {gr_name gr} \<noteq> {} \<and>
    view w (NamespacedName (gr_namespace gr) k) = None"
proof (cases r)
  case (Inr svc)
  note found = lookup [unfolded Inr]
  show ?thesis
  proof (cases "\<forall>g. gss k = Some g \<longrightarrow> gs_headless g = isHeadless svc")
    case True
    from store_after_found [OF inv keyed found k True, of lib w] Inr show ?thesis
      by (metis fst_conv sum.distinct(1))
  next
    case False
    then obtain g where "gss k = Some g" "gs_headless g \<noteq> isHeadless svc" by blast
    from store_after_mismatch [where gss = gss and g = g, OF keyed found k this, of lib w] Inr
    show ?thesis by simp
  qed
next
  case (Inl err)
  note gone = lookup [unfolded Inl]
  show ?thesis
  proof (cases "IsNotFound err")
    case True
    from gone_returns [OF client inv k gone True, of w lib] Inl True show ?thesis
      by (auto split: if_splits)
  next
    case False
    with store_unchanged [OF gone this, of lib gss w] Inl show ?thesis by simp
  qed
qed

theorem reconcileGlobalService_panics_iff_witness:
  "fst (reconcileGlobalService test_library gone_runner ''web'' ''shop''
      (test_store [''a'', ''b''], empty_cluster)) = Panicked"
proof -
  have keyed: "service_keyed gone_runner ''web'' ''shop''"
    by (simp add: service_keyed_def gone_runner_facts(1))
  have inv: "store_inv (test_store [''a'', ''b''])" by (simp add: test_store_inv)
  show ?thesis
    unfolding reconcileGlobalService_panics_iff
      [OF gone_runner_facts(2) inv keyed test_name gone_runner_facts(1)]
    by (simp add: gone_runner_facts(4,5) empty_cluster_def placed_def)
qed

subsection \<open>The clusters a global service targets\<close>

text \<open>
  A visit is one call of \<open>reconcileGlobalService\<close> by some runner, as its cache stands then, after
  others have changed the world.
\<close>

type_synonym ('w, 'q) visit = "('w \<Rightarrow> 'w) \<times> ('w kube_client, 'q) GlobalRunner \<times> string \<times> string"

fun reconcile_all ::
  "'q library \<Rightarrow> ('w, 'q) visit list \<Rightarrow> GlobalServiceStore \<times> 'w \<Rightarrow> (GlobalServiceStore \<times> 'w) outcome" where
  "reconcile_all lib [] s = Returned s"
| "reconcile_all lib ((env, gr, name, ns) # visits) (gss, w) =
     (case reconcileGlobalService lib gr name ns (gss, env w) of
        (Panicked, _) \<Rightarrow> Panicked
      | (Returned _, s) \<Rightarrow> reconcile_all lib visits s)"

text \<open>
  The registry: for each global service whether it is headless and its clusters.  A cluster that
  finds the service is put in if it agrees on the former, the first one decides; one that does
  not is taken out, the last one takes the service along; any other answer changes nothing.
\<close>

type_synonym registry = "string \<Rightarrow> (bool \<times> string set) option"

datatype answer = Found bool | Gone | NoAnswer

fun registry_visit :: "string \<times> string \<times> answer \<Rightarrow> registry \<Rightarrow> registry" where
  "registry_visit (k, c, Found h) R =
     (case R k of
        None \<Rightarrow> R(k \<mapsto> (h, {c}))
      | Some (h', C) \<Rightarrow> if h' = h then R(k \<mapsto> (h', insert c C)) else R)"
| "registry_visit (k, c, Gone) R =
     (case R k of
        None \<Rightarrow> R
      | Some (h, C) \<Rightarrow> if C \<subseteq> {c} then R(k := None) else R(k \<mapsto> (h, C - {c})))"
| "registry_visit (k, c, NoAnswer) R = R"

definition registry_of :: "GlobalServiceStore \<Rightarrow> registry" where
  "registry_of gss k = map_option (\<lambda>g. (gs_headless g, set (gs_clusters g))) (gss k)"

fun visit_answer :: "('w, 'q) visit \<Rightarrow> string \<times> string \<times> answer" where
  "visit_answer (env, gr, name, ns) =
     (generateGlobalServiceName name ns, gr_name gr,
      case gr_getRemoteService gr name ns of
        Returned (Inr svc) \<Rightarrow> Found (isHeadless svc)
      | Returned (Inl err) \<Rightarrow> if IsNotFound err then Gone else NoAnswer
      | Panicked \<Rightarrow> NoAnswer)"

fun visit_keyed :: "('w, 'q) visit \<Rightarrow> bool" where
  "visit_keyed (env, gr, name, ns) = service_keyed gr name ns"

text \<open>One reconciliation is one visit of the registry.\<close>

lemma registry_upd: "registry_of (gss(k \<mapsto> g)) = (registry_of gss)(k \<mapsto> (gs_headless g, set (gs_clusters g)))"
  by (auto simp: registry_of_def)

lemma targets_registry: "targets gss k = (case registry_of gss k of None \<Rightarrow> {} | Some (h, C) \<Rightarrow> C)"
  by (simp add: targets_def registry_of_def split: option.split)

lemma registry_found:
  assumes "\<forall>g'. gss k = Some g' \<longrightarrow> gs_headless g' = h"
    and "gs_headless g = h" "set (gs_clusters g) = insert c (targets gss k)"
  shows "registry_of (gss(k \<mapsto> g)) = registry_visit (k, c, Found h) (registry_of gss)"
  using assms by (auto simp: registry_upd registry_of_def targets_def split: option.splits)

lemma registry_gone:
  assumes inv: "store_inv gss'" and t: "targets gss' = (targets gss)(k := targets gss k - {c})"
    and other: "\<And>k'. k' \<noteq> k \<Longrightarrow> gss' k' = gss k'"
    and same: "\<And>g'. gss' k = Some g' \<Longrightarrow> \<exists>g. gss k = Some g \<and> gs_headless g = gs_headless g'"
    and there: "gss' k = None \<longleftrightarrow> targets gss k - {c} = {}"
  shows "registry_of gss' = registry_visit (k, c, Gone) (registry_of gss)"
proof
  fix x
  have tk: "targets gss' k = targets gss k - {c}" using t by simp
  show "registry_of gss' x = registry_visit (k, c, Gone) (registry_of gss) x"
  proof (cases "x = k")
    case False
    then have "registry_visit (k, c, Gone) (registry_of gss) x = registry_of gss x"
      by (auto split: option.splits)
    with other [OF False] show ?thesis by (simp add: registry_of_def)
  next
    case True
    show ?thesis
    proof (cases "gss' k")
      case None
      with there have "targets gss k \<subseteq> {c}" by auto
      with None True show ?thesis by (auto simp: registry_of_def targets_def split: option.splits)
    next
      case (Some g')
      from same [OF Some] obtain g where g: "gss k = Some g" "gs_headless g = gs_headless g'" by blast
      from there Some g(1) have "\<not> set (gs_clusters g) \<subseteq> {c}" by (auto simp: targets_def)
      moreover from tk Some g(1) have "set (gs_clusters g') = set (gs_clusters g) - {c}" by (simp add: targets_def)
      ultimately show ?thesis using Some g True by (simp add: registry_of_def)
    qed
  qed
qed

lemma visit_step:
  assumes keyed: "visit_keyed (env, gr, name, ns)" and inv: "store_inv gss"
    and run: "reconcileGlobalService lib gr name ns (gss, w) = (r, (gss', w'))"
  shows "store_inv gss'" and "registry_of gss' = registry_visit (visit_answer (env, gr, name, ns)) (registry_of gss)"
proof -
  define k where "k = generateGlobalServiceName name ns"
  have keyed': "service_keyed gr name ns" using keyed by simp
  note answer = visit_answer.simps [of env gr name ns, folded k_def]
  have "store_inv gss' \<and> registry_of gss' = registry_visit (visit_answer (env, gr, name, ns)) (registry_of gss)"
  proof (cases "gr_getRemoteService gr name ns")
    case Panicked
    with run inv answer show ?thesis by (simp add: reconcileGlobalService_def Let_def go_simps)
  next
    case (Returned l)
    show ?thesis
    proof (cases l)
      case (Inr svc)
      note found = Returned [unfolded Inr]
      show ?thesis
      proof (cases "\<forall>g. gss k = Some g \<longrightarrow> gs_headless g = isHeadless svc")
        case True
        obtain g r1 w1 where d: "reconcileGlobalService lib gr name ns (gss, w) = (r1, (gss(k \<mapsto> g), w1))"
          "service_inv k g" "gs_headless g = isHeadless svc" "set (gs_clusters g) = insert (gr_name gr) (targets gss k)"
          by (rule store_after_found [OF inv keyed' found k_def True, of lib w]) blast
        from d(1) run have "gss' = gss(k \<mapsto> g)" by simp
        with d(2) registry_found [OF True d(3,4)] inv found answer show ?thesis by (simp add: store_inv_upd)
      next
        case False
        then obtain g where g: "gss k = Some g" "gs_headless g \<noteq> isHeadless svc" by blast
        from store_after_mismatch [where gss = gss and g = g, OF keyed' found k_def g, of lib w] run
        have "gss' = gss" by simp
        with g inv found answer show ?thesis by (simp add: registry_of_def)
      qed
    next
      case (Inl err)
      note gone = Returned [unfolded Inl]
      show ?thesis
      proof (cases "IsNotFound err")
        case True
        obtain gss1 r1 w1 where d: "reconcileGlobalService lib gr name ns (gss, w) = (r1, (gss1, w1))"
          "store_inv gss1" "targets gss1 = (targets gss)(k := targets gss k - {gr_name gr})"
          "\<forall>k'. k' \<noteq> k \<longrightarrow> gss1 k' = gss k'"
          "\<forall>k' g'. gss1 k' = Some g' \<longrightarrow> (\<exists>g. gss k' = Some g \<and> gs_headless g = gs_headless g')"
          by (rule store_after_gone [OF inv k_def gone True, of lib w]) blast
        from d(1) run have eq: "gss1 = gss'" by simp
        have "gss' k = None \<longleftrightarrow> targets gss' k = {}"
          using store_inv_entry [OF d(2), of k] by (auto simp: eq targets_def service_inv_def split: option.splits)
        then have "gss' k = None \<longleftrightarrow> targets gss k - {gr_name gr} = {}" using d(3) by (simp add: eq)
        from registry_gone [OF d(2,3) [unfolded eq] d(4,5) [unfolded eq, rule_format] this] d(2) gone True answer show ?thesis by (simp add: eq)
      next
        case False
        from store_unchanged [OF gone this, of lib gss w] run inv gone False answer show ?thesis by simp
      qed
    qed
  qed
  then show "store_inv gss'" "registry_of gss' = registry_visit (visit_answer (env, gr, name, ns)) (registry_of gss)"
    by blast+
qed

text \<open>C3: any sequence of reconciliations, by any runners, with whatever the lookups and the requests
  answered and whatever others did to the clusters in between, leaves in the store exactly what
  the registry holds after the same sequence of answers: a cluster is on the list of a global
  service from the visit that found it there, in agreement with the entry on whether the service
  is headless, to the one that found it gone, and the entry goes with its last cluster.  The
  caches hold their objects under the objects' own names.\<close>

theorem reconcile_all_refines_registry:
  assumes "reconcile_all lib visits (gss, w) = Returned (gss', w')"
    and "store_inv gss" "list_all visit_keyed visits"
  shows "registry_of gss' = fold registry_visit (map visit_answer visits) (registry_of gss) \<and>
    targets gss' k = (case fold registry_visit (map visit_answer visits) (registry_of gss) k of
      None \<Rightarrow> {} | Some (h, C) \<Rightarrow> C)"
proof -
  have "registry_of gss' = fold registry_visit (map visit_answer visits) (registry_of gss)"
    using assms
  proof (induction visits arbitrary: gss w)
    case (Cons v visits)
    obtain env gr name ns where v: "v = (env, gr, name, ns)" by (cases v)
    obtain r gss1 w1 where run: "reconcileGlobalService lib gr name ns (gss, env w) = (Returned r, (gss1, w1))"
      and rest: "reconcile_all lib visits (gss1, w1) = Returned (gss', w')"
      using Cons.prems(1) v by (auto split: prod.splits outcome.splits)
    from Cons.prems(3) v have keyed: "visit_keyed (env, gr, name, ns)" "list_all visit_keyed visits" by simp_all
    note one = visit_step [OF keyed(1) Cons.prems(2) run]
    from Cons.IH [OF rest one(1) keyed(2)] one(2) v show ?case by simp
  qed simp
  then show ?thesis by (simp add: targets_registry)
qed

text \<open>Two clusters register the service, a third has it headless, then it is gone in the second one.\<close>

definition headless_service :: Service where
  "headless_service = (test_service ''web'' ''shop'')\<lparr>svc_clusterIP := ''None''\<rparr>"

definition test_visits :: "(cluster, unit) visit list" where
  "test_visits =
     [(id, test_runner ''a'' [test_service ''web'' ''shop''], ''web'', ''shop''),
      (id, test_runner ''b'' [test_service ''web'' ''shop''], ''web'', ''shop''),
      (id, test_runner ''c'' [headless_service], ''web'', ''shop''),
      (id, gone_runner, ''web'', ''shop'')]"

lemma test_visits_run:
  "(case reconcile_all test_library test_visits (Map.empty, empty_cluster) of
      Panicked \<Rightarrow> False | Returned _ \<Rightarrow> True)"
  by code_simp

lemma test_visits_answers:
  "map visit_answer test_visits =
     [(''gl-shop-73736d-web'', ''a'', Found False), (''gl-shop-73736d-web'', ''b'', Found False),
      (''gl-shop-73736d-web'', ''c'', Found True), (''gl-shop-73736d-web'', ''b'', Gone)]"
  by code_simp

lemma test_visits_keyed: "list_all visit_keyed test_visits"
  by code_simp

theorem reconcile_all_refines_registry_witness:
  "\<exists>gss' w'. reconcile_all test_library test_visits (Map.empty, empty_cluster) = Returned (gss', w') \<and>
     targets gss' ''gl-shop-73736d-web'' = {''a''}"
proof -
  from test_visits_run obtain gss' w' where
    run: "reconcile_all test_library test_visits (Map.empty, empty_cluster) = Returned (gss', w')"
    by (cases "reconcile_all test_library test_visits (Map.empty, empty_cluster)") auto
  have "store_inv Map.empty" by (simp add: store_inv_def)
  from reconcile_all_refines_registry [OF run this test_visits_keyed, of "''gl-shop-73736d-web''"]
  have "targets gss' ''gl-shop-73736d-web'' = {''a''}"
    unfolding test_visits_answers by (auto simp: registry_of_def)
  with run show ?thesis by blast
qed

end
