(* ===== verification/Mirroring.thy ===== *)
theory Mirroring
  imports MirrorRunner
begin

text \<open>
  What reconciling mirrored services and endpoints leaves in the local cluster, and what the
  start-up synchronisation of services deletes.
\<close>

subsection \<open>A runner on the in-memory cluster\<close>

definition mirror_library :: "unit library" where
  "mirror_library = idle_library [] (cache_of svc_meta IService [])"

definition plain_service :: "string \<Rightarrow> string \<Rightarrow> Service" where
  "plain_service name ns = \<lparr>svc_meta = \<lparr>obj_name = name, obj_namespace = ns,
       obj_labels = Map.empty, obj_annotations = Map.empty\<rparr>,
     svc_ports = [\<lparr>port_name = ''http'', port_number = 80\<rparr>], svc_selector = [''app'' \<mapsto> ''x''],
     svc_clusterIP = ''1.1.1.1'', svc_rest = []\<rparr>"

definition plain_endpoints :: "string \<Rightarrow> string \<Rightarrow> Endpoints" where
  "plain_endpoints name ns = \<lparr>ep_meta = \<lparr>obj_name = name, obj_namespace = ns,
       obj_labels = Map.empty, obj_annotations = Map.empty\<rparr>,
     ep_subsets = [\<lparr>subset_addresses = [''10.2.0.1''], subset_ports = [80]\<rparr>]\<rparr>"

text \<open>The runner with its caches filled: remote services, services mirrored here, remote endpoints.\<close>

definition mirror_runner ::
  "Service list \<Rightarrow> Service list \<Rightarrow> Endpoints list \<Rightarrow> (cluster kube_client, unit) MirrorRunner" where
  "mirror_runner svcs mirrors eps =
     (let mr = newMirrorRunner mirror_library mem_client mem_client ''b'' ''home'' ''pfx'' [] 0 True
      in mr\<lparr>mr_serviceWatcher := watcher_Init (cache_of svc_meta IService svcs) (mr_serviceWatcher mr),
            mr_mirrorServiceWatcher :=
              watcher_Init (cache_of svc_meta IService mirrors) (mr_mirrorServiceWatcher mr),
            mr_endpointsWatcher := watcher_Init (cache_of ep_meta IEndpoints eps) (mr_endpointsWatcher mr)\<rparr>)"

lemma mirror_runner_sel [simp]:
  "mr_client (mirror_runner svcs mirrors eps) = mem_client"
  "mr_namespace (mirror_runner svcs mirrors eps) = ''home''"
  "mr_prefix (mirror_runner svcs mirrors eps) = ''pfx''"
  by (simp_all add: mirror_runner_def newMirrorRunner_def Let_def)

lemma mirror_runner_client [simp]:
  "resource_client (Services (mr_client (mirror_runner svcs mirrors eps))) services_view svc_meta as_submitted"
  "resource_client (EndpointsOf (mr_client (mirror_runner svcs mirrors eps))) endpoints_view ep_meta as_submitted"
  "reliable_client (Services (mr_client (mirror_runner svcs mirrors eps))) services_view svc_meta as_submitted"
  "reliable_client (EndpointsOf (mr_client (mirror_runner svcs mirrors eps))) endpoints_view ep_meta as_submitted"
  by (simp_all add: mem_svc.resource_client_axioms mem_ep.resource_client_axioms
      mem_svc.reliable_client_axioms mem_ep.reliable_client_axioms)

lemma mirror_runner_store:
  "w_store (mr_serviceWatcher (mirror_runner svcs mirrors eps)) = Some (cache_of svc_meta IService svcs)"
  "w_store (mr_mirrorServiceWatcher (mirror_runner svcs mirrors eps)) = Some (cache_of svc_meta IService mirrors)"
  "w_store (mr_endpointsWatcher (mirror_runner svcs mirrors eps)) = Some (cache_of ep_meta IEndpoints eps)"
  by (simp_all add: mirror_runner_def watcher_Init_def Let_def)

lemma mirror_runner_remote:
  "CHR ''/'' \<notin> set ns \<Longrightarrow> mr_getRemoteService (mirror_runner svcs mirrors eps) n ns =
     Returned (case cache_contents svc_meta svcs (NamespacedName ns n) of
       None \<Rightarrow> Inl (NotFound ''service'' (ns @ ''/'' @ n)) | Some svc \<Rightarrow> Inr svc)"
  "CHR ''/'' \<notin> set ns \<Longrightarrow> mr_getRemoteEndpoints (mirror_runner svcs mirrors eps) n ns =
     Returned (case cache_contents ep_meta eps (NamespacedName ns n) of
       None \<Rightarrow> Inl (NotFound ''endpoints'' (ns @ ''/'' @ n)) | Some e \<Rightarrow> Inr e)"
  unfolding mr_getRemoteService_def mr_getRemoteEndpoints_def watcher_instances
  by (rule svc_cache.watcher_Get_eq ep_cache.watcher_Get_eq, simp_all add: mirror_runner_store)+

subsection \<open>Services\<close>

text \<open>
  The specification: what the local cluster is to hold for a remote lookup \<open>l\<close>, \<open>old\<close> being what
  it holds: nothing for a service that is gone, and for a present one a fresh mirror or the one
  there with the ports of the remote service and no selector.
\<close>

definition mirrored_service ::
  "(Service option \<Rightarrow> Service \<Rightarrow> Service) \<Rightarrow> ('c, 'q) MirrorRunner \<Rightarrow> string \<Rightarrow> error + Service \<Rightarrow>
   Service option \<Rightarrow> Service option" where
  "mirrored_service admit mr mirrorName l old =
     (case l of
        Inl e \<Rightarrow> None
      | Inr svc \<Rightarrow> Some (case old of
            None \<Rightarrow> admit None (mirror_service mr mirrorName svc)
          | Some cur \<Rightarrow> admit (Some cur) (cur\<lparr>svc_ports := svc_ports svc, svc_selector := Map.empty\<rparr>)))"

definition mirrored_endpoints ::
  "(Endpoints option \<Rightarrow> Endpoints \<Rightarrow> Endpoints) \<Rightarrow> ('c, 'q) MirrorRunner \<Rightarrow> string \<Rightarrow> error + Endpoints \<Rightarrow>
   Endpoints option \<Rightarrow> Endpoints option" where
  "mirrored_endpoints admit mr mirrorName l old =
     (case l of
        Inl e \<Rightarrow> None
      | Inr eps \<Rightarrow> Some (admit old (mirror_endpoints mr mirrorName eps)))"

lemma mirror_service_sel [simp]:
  "obj_name (svc_meta (mirror_service mr m svc)) = m"
  "obj_namespace (svc_meta (mirror_service mr m svc)) = mr_namespace mr"
  "obj_name (ep_meta (mirror_endpoints mr m e)) = m"
  "obj_namespace (ep_meta (mirror_endpoints mr m e)) = mr_namespace mr"
  by (simp_all add: mirror_service_def mirror_endpoints_def)

lemma reconcileService_failed_lookup:
  "mr_getRemoteService mr name ns = Returned (Inl err) \<Longrightarrow> \<not> IsNotFound err \<Longrightarrow>
   reconcileService mr name ns w = (Returned (Some (ErrorOf ''getting remote service'' err)), w)"
  by (simp add: reconcileService_def Let_def go_simps)

lemma reconcileEndpoints_failed_lookup:
  "mr_getRemoteEndpoints mr name ns = Returned (Inl err) \<Longrightarrow> \<not> IsNotFound err \<Longrightarrow>
   reconcileEndpoints mr name ns w =
     (Returned (Some (ErrorOf (''getting remote endpoints '' @ ns @ ''/'' @ name) err)), w)"
  by (simp add: reconcileEndpoints_def Let_def go_simps)

lemma reconcileService_done:
  assumes client: "resource_client (Services (mr_client mr)) view svc_meta admit"
    and lookup: "mr_getRemoteService mr name ns = Returned l"
    and m: "m = generateMirrorName (mr_prefix mr) ns name" "here = NamespacedName (mr_namespace mr) m"
    and run: "reconcileService mr name ns w = (Returned None, w')"
  shows "view w' = (view w)(here := mirrored_service admit mr m l (view w here))"
proof (cases l)
  case (Inr svc)
  note e = run [unfolded reconcileService_present [OF lookup [unfolded Inr]], folded m(1)]
  from resource_client.ensure_spec(3) [OF client e] Inr m(2) show ?thesis
    by (simp add: svc_namespace_def mirrored_service_def)
next
  case (Inl err)
  with lookup run reconcileService_failed_lookup [of mr name ns err w] have "IsNotFound err" by auto
  note d = run [unfolded reconcileService_absent [OF lookup [unfolded Inl] this], folded m(1)]
  from resource_client.discard_spec(3) [OF client d] Inl m(2) show ?thesis
    by (simp add: mirrored_service_def)
qed

lemma reconcileService_returns:
  assumes client: "reliable_client (Services (mr_client mr)) view svc_meta admit"
    and lookup: "mr_getRemoteService mr name ns = Returned l" "\<And>e. l = Inl e \<Longrightarrow> IsNotFound e"
  shows "fst (reconcileService mr name ns w) = Returned None"
proof (cases l)
  case (Inr svc)
  have "\<exists>w'. reconcileService mr name ns w = (Returned None, w')"
    unfolding reconcileService_present [OF lookup(1) [unfolded Inr]]
    by (rule reliable_client.ensure_returns [OF client]) (simp_all add: svc_namespace_def)
  then show ?thesis by auto
next
  case (Inl err)
  have "\<exists>w'. reconcileService mr name ns w = (Returned None, w')"
    unfolding reconcileService_absent [OF lookup(1) [unfolded Inl] lookup(2) [OF Inl]]
    by (rule reliable_client.discard_returns [OF client])
  then show ?thesis by auto
qed

lemma mirrored_service_idem:
  assumes "\<And>old new. svc_ports (admit old new) = svc_ports new"
    and "\<And>old new. svc_selector (admit old new) = svc_selector new"
    and "\<And>obj. admit (Some obj) obj = obj"
  shows "mirrored_service admit mr m l (mirrored_service admit mr m l old) = mirrored_service admit mr m l old"
proof (cases l)
  case (Inr svc)
  define cur where "cur = the (mirrored_service admit mr m l old)"
  have cur: "svc_ports cur = svc_ports svc" "svc_selector cur = Map.empty"
    using Inr by (auto simp: cur_def mirrored_service_def mirror_service_def assms(1,2) split: option.split)
  then have "cur\<lparr>svc_ports := svc_ports svc, svc_selector := Map.empty\<rparr> = cur"
    by (cases cur) simp
  moreover have "mirrored_service admit mr m l old = Some cur"
    using Inr by (simp add: cur_def mirrored_service_def)
  ultimately show ?thesis using Inr assms(3) by (simp add: mirrored_service_def)
qed (simp add: mirrored_service_def)

lemma reconcileService_spec:
  assumes client: "resource_client (Services (mr_client mr)) view svc_meta admit"
    and lookup: "mr_getRemoteService mr name ns = Returned l"
    and m: "m = generateMirrorName (mr_prefix mr) ns name" "here = NamespacedName (mr_namespace mr) m"
    and run: "reconcileService mr name ns w = (r, w')"
  shows "r \<noteq> Panicked \<and> (\<forall>k. k \<noteq> here \<longrightarrow> view w' k = view w k) \<and>
    (r = Returned None \<longrightarrow> view w' here = mirrored_service admit mr m l (view w here))"
proof -
  have "r \<noteq> Panicked \<and> (\<forall>k. k \<noteq> here \<longrightarrow> view w' k = view w k)"
  proof (cases l)
    case (Inr svc)
    note e = run [unfolded reconcileService_present [OF lookup [unfolded Inr]], folded m(1)]
    from resource_client.ensure_spec(1,2) [OF client e] m(2) show ?thesis by (simp add: svc_namespace_def)
  next
    case (Inl err)
    with reconcileService_failed_lookup [of mr name ns err w] run lookup
      reconcileService_absent [of mr name ns err] resource_client.discard_spec(1,2) [OF client] m
    show ?thesis by (cases "IsNotFound err") auto
  qed
  with reconcileService_done [OF client lookup m, of w w'] run show ?thesis by auto
qed

text \<open>C13: reconciling a service never panics once its lookup returned, changes no service but the
  mirror of the one reconciled, and when it returns no error the mirror is exactly as specified:
  absent for a service that is gone, else with the ports of the remote service and no selector.\<close>

theorem reconcileService_mirrors:
  assumes client: "resource_client (Services (mr_client mr)) view svc_meta admit"
    and lookup: "mr_getRemoteService mr name ns = Returned l"
    and m: "m = generateMirrorName (mr_prefix mr) ns name" "here = NamespacedName (mr_namespace mr) m"
    and run: "reconcileService mr name ns w = (r, w')"
  shows "r \<noteq> Panicked \<and> (\<forall>k. k \<noteq> here \<longrightarrow> view w' k = view w k) \<and>
    (r = Returned None \<longrightarrow> view w' here = mirrored_service admit mr m l (view w here))"
  by (rule reconcileService_spec [OF client lookup m run])

definition one_service :: "(cluster kube_client, unit) MirrorRunner" where
  "one_service = mirror_runner [plain_service ''web'' ''shop''] [] [plain_endpoints ''web'' ''shop'']"

lemma one_service_facts:
  "mr_getRemoteService one_service ''web'' ''shop'' = Returned (Inr (plain_service ''web'' ''shop''))"
  "mr_getRemoteEndpoints one_service ''web'' ''shop'' = Returned (Inr (plain_endpoints ''web'' ''shop''))"
  "''pfx-shop-73736d-web'' = generateMirrorName (mr_prefix one_service) ''shop'' ''web''"
  "NamespacedName ''home'' ''pfx-shop-73736d-web'' =
     NamespacedName (mr_namespace one_service) ''pfx-shop-73736d-web''"
  by (simp_all add: one_service_def mirror_runner_remote cache_contents_def cache_entries_def
      plain_service_def plain_endpoints_def generateMirrorName_eq)

lemma one_service_client [simp]:
  "resource_client (Services (mr_client one_service)) services_view svc_meta as_submitted"
  "resource_client (EndpointsOf (mr_client one_service)) endpoints_view ep_meta as_submitted"
  "reliable_client (Services (mr_client one_service)) services_view svc_meta as_submitted"
  "reliable_client (EndpointsOf (mr_client one_service)) endpoints_view ep_meta as_submitted"
  unfolding one_service_def by (rule mirror_runner_client)+

theorem reconcileService_mirrors_witness:
  "services_view (snd (reconcileService one_service ''web'' ''shop'' empty_cluster))
      (NamespacedName ''home'' ''pfx-shop-73736d-web'') =
    Some (mirror_service one_service ''pfx-shop-73736d-web'' (plain_service ''web'' ''shop''))"
proof -
  obtain r w' where run: "reconcileService one_service ''web'' ''shop'' empty_cluster = (r, w')" by force
  have "fst (reconcileService one_service ''web'' ''shop'' empty_cluster) = Returned None"
    by code_simp
  with run have r: "r = Returned None" by simp
  note res = reconcileService_mirrors [OF one_service_client(1) one_service_facts(1,3,4) run]
  have "services_view empty_cluster (NamespacedName ''home'' ''pfx-shop-73736d-web'') = None"
    by (simp add: empty_cluster_def placed_def)
  with res r run show ?thesis by (simp add: mirrored_service_def)
qed

text \<open>Reconciling a service again, with the same remote service and the local services as the first
  reconciliation left them, changes no service, on an API server that stores the ports and the
  selector it is given and leaves alone an object submitted as it is.\<close>

lemma reconcileService_stable:
  assumes client: "resource_client (Services (mr_client mr)) view svc_meta admit"
    and keeps: "\<And>old new. svc_ports (admit old new) = svc_ports new"
      "\<And>old new. svc_selector (admit old new) = svc_selector new"
      "\<And>obj. admit (Some obj) obj = obj"
    and lookup: "mr_getRemoteService mr name ns = Returned l"
    and first: "reconcileService mr name ns w = (Returned None, w1)"
    and again: "reconcileService mr name ns w2 = (Returned None, w3)" "view w2 = view w1"
  shows "view w3 = view w1"
  using reconcileService_done [OF client lookup refl refl first]
    reconcileService_done [OF client lookup refl refl again(1)] again(2)
  by (simp add: mirrored_service_idem [where admit = admit, OF keeps])

lemma reconcileService_stable_example:
  "services_view (snd (reconcileService one_service ''web'' ''shop''
      (snd (reconcileService one_service ''web'' ''shop'' empty_cluster)))) =
    services_view (snd (reconcileService one_service ''web'' ''shop'' empty_cluster))"
proof -
  let ?run = "reconcileService one_service ''web'' ''shop''"
  have ok: "fst (?run empty_cluster) = Returned None" "fst (?run (snd (?run empty_cluster))) = Returned None"
    by code_simp+
  then obtain w1 w2 where "?run empty_cluster = (Returned None, w1)" "?run w1 = (Returned None, w2)"
    by (metis prod.collapse snd_conv)
  with reconcileService_stable [OF one_service_client(1) refl refl refl one_service_facts(1)
      this(1) this(2) refl] show ?thesis by simp
qed

subsection \<open>Endpoints\<close>

lemma reconcileEndpoints_spec:
  assumes client: "resource_client (EndpointsOf (mr_client mr)) view ep_meta admit"
    and lookup: "mr_getRemoteEndpoints mr name ns = Returned l"
    and m: "m = generateMirrorName (mr_prefix mr) ns name" "here = NamespacedName (mr_namespace mr) m"
    and run: "reconcileEndpoints mr name ns w = (r, w')"
  shows "r \<noteq> Panicked \<and> (\<forall>k. k \<noteq> here \<longrightarrow> view w' k = view w k) \<and>
    (r = Returned None \<longrightarrow> view w' here = mirrored_endpoints admit mr m l (view w here))"
proof (cases l)
  case (Inr eps)
  note e = run [unfolded reconcileEndpoints_present [OF lookup [unfolded Inr]], folded m(1)]
  from resource_client.ensure_spec [OF client e] Inr m(2) show ?thesis
    by (cases "view w here") (simp_all add: mirrored_endpoints_def)
next
  case (Inl err)
  show ?thesis
  proof (cases "IsNotFound err")
    case True
    note d = run [unfolded reconcileEndpoints_absent [OF lookup [unfolded Inl] True], folded m(1)]
    from resource_client.discard_spec [OF client d] Inl m(2) show ?thesis
      by (simp add: mirrored_endpoints_def)
  next
    case False
    from reconcileEndpoints_failed_lookup [OF lookup [unfolded Inl] this, of w] run show ?thesis by auto
  qed
qed

text \<open>C14: reconciling endpoints never panics once their lookup returned, changes no endpoints but the
  mirror of those reconciled, and when it returns no error the mirror is exactly as specified:
  absent for endpoints that are gone, else the subsets of the remote ones under the mirror's labels.\<close>

theorem reconcileEndpoints_mirrors:
  assumes client: "resource_client (EndpointsOf (mr_client mr)) view ep_meta admit"
    and lookup: "mr_getRemoteEndpoints mr name ns = Returned l"
    and m: "m = generateMirrorName (mr_prefix mr) ns name" "here = NamespacedName (mr_namespace mr) m"
    and run: "reconcileEndpoints mr name ns w = (r, w')"
  shows "r \<noteq> Panicked \<and> (\<forall>k. k \<noteq> here \<longrightarrow> view w' k = view w k) \<and>
    (r = Returned None \<longrightarrow> view w' here = mirrored_endpoints admit mr m l (view w here))"
  by (rule reconcileEndpoints_spec [OF client lookup m run])

theorem reconcileEndpoints_mirrors_witness:
  "endpoints_view (snd (reconcileEndpoints one_service ''web'' ''shop'' empty_cluster))
      (NamespacedName ''home'' ''pfx-shop-73736d-web'') =
    Some (mirror_endpoints one_service ''pfx-shop-73736d-web'' (plain_endpoints ''web'' ''shop''))"
proof -
  obtain r w' where run: "reconcileEndpoints one_service ''web'' ''shop'' empty_cluster = (r, w')" by force
  have "fst (reconcileEndpoints one_service ''web'' ''shop'' empty_cluster) = Returned None"
    by code_simp
  with run have r: "r = Returned None" by simp
  note res = reconcileEndpoints_mirrors [OF one_service_client(2) one_service_facts(2,3,4) run]
  with r run show ?thesis by (simp add: mirrored_endpoints_def)
qed

subsection \<open>Start-up synchronisation\<close>

lemma stale_services_eq:
  assumes "set remotes = ran rc" "set current = ran mc"
  shows "{NamespacedName ns (svc_name m) |m. m \<in> set current \<and>
        svc_name m \<notin> set (map (\<lambda>s. generateMirrorName p (svc_namespace s) (svc_name s)) remotes)} =
    {NamespacedName ns (svc_name m) |m. m \<in> ran mc \<and>
        (\<forall>s \<in> ran rc. svc_name m \<noteq> generateMirrorName p (svc_namespace s) (svc_name s))}"
  using assms by auto

text \<open>C16: with both caches holding services, synchronising on start-up deletes only mirrors in the local
  namespace to which no remote service of the cache is mirrored; it leaves every other service
  alone, and when it returns no error it has deleted all those mirrors.\<close>

theorem ServiceSync_deletes_stale:
  assumes client: "resource_client (Services (mr_client mr)) view svc_meta admit"
    and remote: "w_store (mr_serviceWatcher mr) = Some rs" "informer_cache rs as_Service IService remotes"
    and mirror: "w_store (mr_mirrorServiceWatcher mr) = Some ms" "informer_cache ms as_Service IService mirrors"
    and stale: "stale = {NamespacedName (mr_namespace mr) (svc_name m) |m. m \<in> ran mirrors \<and>
        (\<forall>s \<in> ran remotes. svc_name m \<noteq> generateMirrorName (mr_prefix mr) (svc_namespace s) (svc_name s))}"
    and run: "ServiceSync mr w = (r, w')"
  shows "r \<noteq> Panicked \<and> (\<forall>k. k \<notin> stale \<longrightarrow> view w' k = view w k) \<and>
    (r = Returned None \<longrightarrow> (\<forall>k \<in> stale. view w' k = None))"
proof -
  obtain rl where rl: "watcher_List as_Service (mr_serviceWatcher mr) = Returned (Inr rl)" "set rl = ran remotes"
    using informer_cache.watcher_List_eq [OF remote(2,1)] by blast
  obtain ml where ml: "watcher_List as_Service (mr_mirrorServiceWatcher mr) = Returned (Inr ml)"
    "set ml = ran mirrors"
    using informer_cache.watcher_List_eq [OF mirror(2,1)] by blast
  let ?keep = "map (\<lambda>s. generateMirrorName (mr_prefix mr) (svc_namespace s) (svc_name s)) rl"
  obtain res w1 where d: "delete_stale svc_name
      (\<lambda>s. r_delete (Services (mr_client mr)) (mr_namespace mr) (svc_name s)) ?keep ml w = (res, w1)"
    by force
  with run rl(1) ml(1) have rw: "r = Returned res" "w' = w1"
    by (simp_all add: ServiceSync_def ServiceWatcher_List_def DeleteService_def Let_def go_simps)
  note st = stale [folded stale_services_eq [OF rl(2) ml(2)]]
  note spec = resource_client.delete_stale_spec [OF client d]
  show ?thesis
    unfolding rw st by (intro conjI allI impI ballI) (use spec in simp_all)
qed

text \<open>A cluster with a current and a stale mirror.\<close>

definition sync_runner :: "(cluster kube_client, unit) MirrorRunner" where
  "sync_runner = mirror_runner [plain_service ''web'' ''shop'']
     [plain_service ''pfx-shop-73736d-web'' ''home'', plain_service ''pfx-shop-73736d-old'' ''home''] []"

definition sync_cluster :: cluster where
  "sync_cluster = empty_cluster\<lparr>c_services :=
     [NamespacedName ''home'' ''pfx-shop-73736d-web'' \<mapsto> plain_service ''pfx-shop-73736d-web'' ''home'',
      NamespacedName ''home'' ''pfx-shop-73736d-old'' \<mapsto> plain_service ''pfx-shop-73736d-old'' ''home'']\<rparr>"

theorem ServiceSync_deletes_stale_witness:
  "services_view (snd (ServiceSync sync_runner sync_cluster))
      (NamespacedName ''home'' ''pfx-shop-73736d-old'') = None \<and>
   services_view (snd (ServiceSync sync_runner sync_cluster))
      (NamespacedName ''home'' ''pfx-shop-73736d-web'') =
     Some (plain_service ''pfx-shop-73736d-web'' ''home'')"
proof -
  obtain r w' where run: "ServiceSync sync_runner sync_cluster = (r, w')" by force
  have "fst (ServiceSync sync_runner sync_cluster) = Returned None" by code_simp
  with run have r: "r = Returned None" by simp
  have client: "resource_client (Services (mr_client sync_runner)) services_view svc_meta as_submitted"
    unfolding sync_runner_def by (rule mirror_runner_client)
  note stores = mirror_runner_store [of "[plain_service ''web'' ''shop'']"
    "[plain_service ''pfx-shop-73736d-web'' ''home'', plain_service ''pfx-shop-73736d-old'' ''home'']" "[]",
    folded sync_runner_def]
  note res = ServiceSync_deletes_stale [OF client stores(1) svc_cache.informer_cache_axioms
    stores(2) svc_cache.informer_cache_axioms refl run]
  have ran: "ran (cache_contents svc_meta [plain_service ''web'' ''shop'']) = {plain_service ''web'' ''shop''}"
    "ran (cache_contents svc_meta
       [plain_service ''pfx-shop-73736d-web'' ''home'', plain_service ''pfx-shop-73736d-old'' ''home'']) =
     {plain_service ''pfx-shop-73736d-web'' ''home'', plain_service ''pfx-shop-73736d-old'' ''home''}"
    by (simp_all add: cache_contents_def ran_map_of cache_entries_def plain_service_def)
  have names: "svc_name (plain_service n ns) = n" "svc_namespace (plain_service n ns) = ns" for n ns
    by (simp_all add: plain_service_def svc_name_def svc_namespace_def)
  have sel: "mr_namespace sync_runner = ''home''" "mr_prefix sync_runner = ''pfx''"
    by (simp_all add: sync_runner_def)
  have stale: "{NamespacedName (mr_namespace sync_runner) (svc_name m) |m.
      m \<in> {plain_service ''pfx-shop-73736d-web'' ''home'', plain_service ''pfx-shop-73736d-old'' ''home''} \<and>
      (\<forall>s \<in> {plain_service ''web'' ''shop''}.
         svc_name m \<noteq> generateMirrorName (mr_prefix sync_runner) (svc_namespace s) (svc_name s))} =
    {NamespacedName ''home'' ''pfx-shop-73736d-old''}"
    by (auto simp: names sel generateMirrorName_eq
        intro!: exI [of _ "plain_service ''pfx-shop-73736d-old'' ''home''"])
  note res [unfolded ran stale]
  then have "services_view w' (NamespacedName ''home'' ''pfx-shop-73736d-old'') = None"
    "services_view w' (NamespacedName ''home'' ''pfx-shop-73736d-web'') =
      services_view sync_cluster (NamespacedName ''home'' ''pfx-shop-73736d-web'')"
    using r by simp_all
  then show ?thesis
    using run by (simp add: sync_cluster_def placed_def plain_service_def)
qed

end
