(* ===== verification/SliceMirroring.thy ===== *)
theory SliceMirroring
  imports GlobalRunner
begin

text \<open>
  What reconciling endpoint slices leaves in the local cluster, what slices a runner submits and
  with which labels, and what the start-up synchronisation of slices deletes.
\<close>

text \<open>The slice a global runner submits for a remote one: \<open>m\<close> its name, \<open>target\<close> its global service.\<close>

definition mirrored_slice ::
  "ForZone list \<Rightarrow> ('c, 'q) GlobalRunner \<Rightarrow> string \<Rightarrow> string \<Rightarrow> EndpointSlice \<Rightarrow> EndpointSlice" where
  "mirrored_slice zones gr m target remote =
     \<lparr>eps_meta = \<lparr>obj_name = m, obj_namespace = gr_namespace gr,
        obj_labels = generateEndpointSliceLabels (gr_syncMirrorLabels gr) target,
        obj_annotations = Map.empty\<rparr>,
      eps_addressType = eps_addressType remote,
      eps_endpoints = ensureEndpointSliceZones zones gr (eps_endpoints remote),
      eps_ports = eps_ports remote\<rparr>"

lemma mirrored_slice_sel [simp]:
  "obj_name (eps_meta (mirrored_slice zones gr m target remote)) = m"
  "obj_namespace (eps_meta (mirrored_slice zones gr m target remote)) = gr_namespace gr"
  by (simp_all add: mirrored_slice_def)

lemma zones_of_labels [simp]:
  "ensureEndpointSliceZones zones (gr\<lparr>gr_syncMirrorLabels := l\<rparr>) = ensureEndpointSliceZones zones gr"
  by (simp add: ensureEndpointSliceZones_def fun_eq_iff)

abbreviation service_label :: "EndpointSlice \<Rightarrow> string option" where
  "service_label slice \<equiv> obj_labels (eps_meta slice) ''kubernetes.io/service-name''"

text \<open>The runner with other labels: all a reconciliation can change in it.\<close>

definition same_but_labels :: "('c, 'q) GlobalRunner \<Rightarrow> ('c, 'q) GlobalRunner \<Rightarrow> bool" where
  "same_but_labels gr gr' \<longleftrightarrow>
     gr' = gr\<lparr>gr_syncMirrorLabels := gr_syncMirrorLabels gr'\<rparr> \<and>
     (\<forall>target. generateEndpointSliceLabels (gr_syncMirrorLabels gr') target =
       generateEndpointSliceLabels (gr_syncMirrorLabels gr) target)"

lemma labels_twice [simp]:
  "generateEndpointSliceLabels (generateEndpointSliceLabels l t) t' = generateEndpointSliceLabels l t'"
  by (auto simp: generateEndpointSliceLabels_def fun_eq_iff)

lemma same_but_labels_simps [simp]:
  "same_but_labels gr gr"
  "same_but_labels gr (gr\<lparr>gr_syncMirrorLabels := generateEndpointSliceLabels (gr_syncMirrorLabels gr) t\<rparr>)"
  by (simp_all add: same_but_labels_def)

text \<open>Reconciling a slice that is present is \<open>ensure\<close> of its mirror, one that is gone \<open>discard\<close>.\<close>

lemma reconcileEndpointSlice_present:
  assumes "getRemoteEndpointSlice gr name ns = Returned (Inr remote)"
    and "service_label remote = Some svc" and "m = generateGlobalEndpointSliceName name"
    and "slice = mirrored_slice zones gr m (generateGlobalServiceName svc ns) remote"
  shows "\<exists>gr' r w'. reconcileEndpointSlice zones name ns (gr, w) = (r, (gr', w')) \<and> same_but_labels gr gr' \<and>
    ensure (EndpointSlices (gr_client gr)) (gr_namespace gr) m slice (\<lambda>_. gr_namespace gr) (\<lambda>_. slice)
      (gr_wrap ''endpointslice'' gr m) w = (r, w')"
  using assms
  by (auto simp: reconcileEndpointSlice_def ensure_def getEndpointSlice_def createEndpointSlice_def
      updateEndpointSlice_def gr_wrap_def mirrored_slice_def Let_def go_simps split: sum.splits prod.splits)

lemma reconcileEndpointSlice_absent:
  assumes "getRemoteEndpointSlice gr name ns = Returned (Inl err)" "IsNotFound err"
    and "m = generateGlobalEndpointSliceName name"
  shows "reconcileEndpointSlice zones name ns (gr, w) =
    (case discard (EndpointSlices (gr_client gr)) (gr_namespace gr) m (gr_wrap ''endpointslice'' gr m) w of
       (r, w') \<Rightarrow> (r, (gr, w')))"
  using assms
  by (auto simp: reconcileEndpointSlice_def discard_def deleteEndpointSlice_def gr_wrap_def Let_def go_simps
      split: option.splits prod.splits)

lemma reconcileEndpointSlice_refused:
  assumes "getRemoteEndpointSlice gr name ns = Returned l"
    and "case l of Inl e \<Rightarrow> \<not> IsNotFound e | Inr remote \<Rightarrow> service_label remote = None"
  shows "\<exists>e. reconcileEndpointSlice zones name ns (gr, w) = (Returned (Some e), (gr, w))"
  using assms by (cases l) (auto simp: reconcileEndpointSlice_def Let_def go_simps)

lemma reconcileEndpointSlice_spec:
  assumes client: "resource_client (EndpointSlices (gr_client gr)) view eps_meta admit"
    and lookup: "getRemoteEndpointSlice gr name ns = Returned l"
    and m: "m = generateGlobalEndpointSliceName name" "here = NamespacedName (gr_namespace gr) m"
    and run: "reconcileEndpointSlice zones name ns (gr, w) = (r, (gr', w'))"
  shows "r \<noteq> Panicked \<and> (\<forall>k. k \<noteq> here \<longrightarrow> view w' k = view w k) \<and> same_but_labels gr gr' \<and>
    (r = Returned None \<longrightarrow>
       (case l of
          Inl e \<Rightarrow> view w' here = None
        | Inr remote \<Rightarrow> \<exists>svc. service_label remote = Some svc \<and>
            view w' here = Some (admit (view w here)
              (mirrored_slice zones gr m (generateGlobalServiceName svc ns) remote))))"
proof (cases "case l of Inl e \<Rightarrow> \<not> IsNotFound e | Inr remote \<Rightarrow> service_label remote = None")
  case True
  from reconcileEndpointSlice_refused [OF lookup True, of zones w] run show ?thesis by auto
next
  case False
  show ?thesis
  proof (cases l)
    case (Inl err)
    with False have nf: "IsNotFound err" by simp
    obtain r1 w1 where d: "discard (EndpointSlices (gr_client gr)) (gr_namespace gr) m
        (gr_wrap ''endpointslice'' gr m) w = (r1, w1)" by force
    with run reconcileEndpointSlice_absent [OF lookup [unfolded Inl] nf m(1), of zones w]
    have "r1 = r" "w1 = w'" "gr' = gr" by auto
    with resource_client.discard_spec [OF client d] Inl m(2) show ?thesis by simp
  next
    case (Inr remote)
    with False obtain svc where svc: "service_label remote = Some svc" by auto
    let ?slice = "mirrored_slice zones gr m (generateGlobalServiceName svc ns) remote"
    from reconcileEndpointSlice_present [OF lookup [unfolded Inr] svc m(1) refl, of zones w] run
    have e: "ensure (EndpointSlices (gr_client gr)) (gr_namespace gr) m ?slice (\<lambda>_. gr_namespace gr)
        (\<lambda>_. ?slice) (gr_wrap ''endpointslice'' gr m) w = (r, w')" and same: "same_but_labels gr gr'"
      by auto
    from resource_client.ensure_spec [OF client e] same Inr svc m(2) show ?thesis
      by (cases "view w here") simp_all
  qed
qed

text \<open>C15: reconciling an endpoint slice never panics once its lookup returned, changes no slice but the
  mirror and of the runner only its labels, and when it returns no error the mirror is absent for
  a slice that is gone, else what the API server makes of the slice submitted, which points at
  the global service of the remote slice's service; a slice that names no service is an error.\<close>

theorem reconcileEndpointSlice_mirrors:
  assumes client: "resource_client (EndpointSlices (gr_client gr)) view eps_meta admit"
    and lookup: "getRemoteEndpointSlice gr name ns = Returned l"
    and m: "m = generateGlobalEndpointSliceName name" "here = NamespacedName (gr_namespace gr) m"
    and run: "reconcileEndpointSlice zones name ns (gr, w) = (r, (gr', w'))"
  shows "r \<noteq> Panicked \<and> (\<forall>k. k \<noteq> here \<longrightarrow> view w' k = view w k) \<and> same_but_labels gr gr' \<and>
    (r = Returned None \<longrightarrow>
       (case l of
          Inl e \<Rightarrow> view w' here = None
        | Inr remote \<Rightarrow> \<exists>svc. service_label remote = Some svc \<and>
            view w' here = Some (admit (view w here)
              (mirrored_slice zones gr m (generateGlobalServiceName svc ns) remote))))"
  by (rule reconcileEndpointSlice_spec [OF assms])

text \<open>A runner with one remote slice.\<close>

definition slice_library :: "unit library" where
  "slice_library = idle_library ''set'' (cache_of eps_meta IEndpointSlice [])"

definition plain_slice :: "string \<Rightarrow> string \<Rightarrow> string \<Rightarrow> EndpointSlice" where
  "plain_slice name ns svc = \<lparr>eps_meta = \<lparr>obj_name = name, obj_namespace = ns,
       obj_labels = [''kubernetes.io/service-name'' \<mapsto> svc], obj_annotations = Map.empty\<rparr>,
     eps_addressType = ''IPv4'',
     eps_endpoints = [\<lparr>e_addresses = [''10.2.0.1''], e_zone = Some ''z1'', e_hints = None\<rparr>],
     eps_ports = [80]\<rparr>"

text \<open>\<open>slices\<close> and \<open>mirrors\<close> fill the caches of the two watchers, from the clients that are given.\<close>

definition slice_runner ::
  "'c \<Rightarrow> 'c \<Rightarrow> EndpointSlice list \<Rightarrow> EndpointSlice list \<Rightarrow> ('c, unit) GlobalRunner" where
  "slice_runner client watchClient slices mirrors =
     (let gr = newGlobalRunner slice_library client watchClient ''b'' ''home'' [] 0 False (\<lambda>_. False) True
      in gr\<lparr>gr_endpointSliceWatcher :=
              watcher_Init (cache_of eps_meta IEndpointSlice slices) (gr_endpointSliceWatcher gr),
            gr_mirrorEndpointSliceWatcher :=
              watcher_Init (cache_of eps_meta IEndpointSlice mirrors) (gr_mirrorEndpointSliceWatcher gr)\<rparr>)"

lemma slice_runner_sel [simp]:
  "gr_client (slice_runner c wc slices mirrors) = c"
  "gr_namespace (slice_runner c wc slices mirrors) = ''home''"
  by (simp_all add: slice_runner_def newGlobalRunner_def Let_def)

lemma slice_runner_store:
  "w_store (gr_endpointSliceWatcher (slice_runner c wc slices mirrors)) = Some (cache_of eps_meta IEndpointSlice slices)"
  "w_store (gr_mirrorEndpointSliceWatcher (slice_runner c wc slices mirrors)) =
     Some (cache_of eps_meta IEndpointSlice mirrors)"
  by (simp_all add: slice_runner_def watcher_Init_def Let_def)

lemma slice_runner_remote:
  "CHR ''/'' \<notin> set ns \<Longrightarrow> getRemoteEndpointSlice (slice_runner c wc slices mirrors) n ns =
     Returned (case cache_contents eps_meta slices (NamespacedName ns n) of
       None \<Rightarrow> Inl (NotFound ''endpointslice'' (ns @ ''/'' @ n)) | Some e \<Rightarrow> Inr e)"
  unfolding getRemoteEndpointSlice_def watcher_instances
  by (rule eps_cache.watcher_Get_eq) (simp_all add: slice_runner_store)

definition one_slice :: "(cluster kube_client, unit) GlobalRunner" where
  "one_slice = slice_runner mem_client mem_client [plain_slice ''web-x1'' ''shop'' ''web''] []"

lemma one_slice_facts:
  "getRemoteEndpointSlice one_slice ''web-x1'' ''shop'' = Returned (Inr (plain_slice ''web-x1'' ''shop'' ''web''))"
  "''gl-web-x1'' = generateGlobalEndpointSliceName ''web-x1''"
  "NamespacedName ''home'' ''gl-web-x1'' = NamespacedName (gr_namespace one_slice) ''gl-web-x1''"
  "service_label (plain_slice ''web-x1'' ''shop'' ''web'') = Some ''web''"
  by (simp_all add: one_slice_def slice_runner_remote cache_contents_def cache_entries_def
      plain_slice_def generateGlobalEndpointSliceName_def)

lemma one_slice_client: "resource_client (EndpointSlices (gr_client one_slice)) slices_view eps_meta as_submitted"
  by (simp add: one_slice_def mem_eps.resource_client_axioms)

theorem reconcileEndpointSlice_mirrors_witness:
  "slices_view (snd (snd (reconcileEndpointSlice [] ''web-x1'' ''shop'' (one_slice, empty_cluster))))
      (NamespacedName ''home'' ''gl-web-x1'') =
    Some (mirrored_slice [] one_slice ''gl-web-x1'' ''gl-shop-73736d-web'' (plain_slice ''web-x1'' ''shop'' ''web''))"
proof -
  obtain r gr' w' where run: "reconcileEndpointSlice [] ''web-x1'' ''shop'' (one_slice, empty_cluster) = (r, (gr', w'))"
    by (metis prod.exhaust)
  have "fst (reconcileEndpointSlice [] ''web-x1'' ''shop'' (one_slice, empty_cluster)) = Returned None"
    by code_simp
  with run have r: "r = Returned None" by simp
  have k: "generateGlobalServiceName ''web'' ''shop'' = ''gl-shop-73736d-web''"
    by (simp add: generateGlobalServiceName_eq)
  from reconcileEndpointSlice_mirrors [OF one_slice_client one_slice_facts(1,2,3) run] r
  show ?thesis using run by (simp add: one_slice_facts(4) k)
qed

subsection \<open>The labels over time\<close>

text \<open>
  A runner reconciles one slice after the other; before each, its cache and the world change.
\<close>

fun reconcile_slices ::
  "ForZone list \<Rightarrow> (('w kube_client, 'q queue) EndpointSliceWatcher \<times> ('w \<Rightarrow> 'w) \<times> string \<times> string) list \<Rightarrow>
   ('w kube_client, 'q) GlobalRunner \<times> 'w \<Rightarrow> ('w kube_client, 'q) GlobalRunner \<times> 'w" where
  "reconcile_slices zones [] s = s"
| "reconcile_slices zones ((watcher, env, name, ns) # visits) (gr, w) =
     reconcile_slices zones visits
       (snd (reconcileEndpointSlice zones name ns (gr\<lparr>gr_endpointSliceWatcher := watcher\<rparr>, env w)))"

definition mirror_labels :: "('c, 'q) GlobalRunner \<Rightarrow> string \<Rightarrow> go_map" where
  "mirror_labels gr target = generateEndpointSliceLabels (gr_syncMirrorLabels gr) target"

lemma reconcileEndpointSlice_labels:
  assumes "reconcileEndpointSlice zones name ns (gr, w) = (r, (gr', w'))"
  shows "mirror_labels gr' = mirror_labels gr"
  using assms
  by (auto simp: reconcileEndpointSlice_def createEndpointSlice_def updateEndpointSlice_def mirror_labels_def
      fun_eq_iff Let_def go_simps split: outcome.splits sum.splits option.splits prod.splits if_splits)

lemma reconcile_slices_labels:
  "reconcile_slices zones visits (gr, w) = (gr', w') \<Longrightarrow> mirror_labels gr' = mirror_labels gr"
proof (induction visits arbitrary: gr w)
  case (Cons v visits)
  obtain watcher env name ns where v: "v = (watcher, env, name, ns)" by (cases v)
  obtain r gr1 w1 where run: "reconcileEndpointSlice zones name ns
      (gr\<lparr>gr_endpointSliceWatcher := watcher\<rparr>, env w) = (r, (gr1, w1))" by (metis prod.exhaust)
  with Cons.prems v have "reconcile_slices zones visits (gr1, w1) = (gr', w')" by simp
  from Cons.IH [OF this] reconcileEndpointSlice_labels [OF run] show ?case
    by (simp add: mirror_labels_def)
qed simp

text \<open>A client that records the endpoint slices it is asked to create or update.\<close>

definition passing_api :: "('w, 'o) resource_api \<Rightarrow> ('w \<times> 'l, 'o) resource_api" where
  "passing_api api =
     \<lparr>r_get = (\<lambda>ns n (w, log). case r_get api ns n w of (a, w') \<Rightarrow> (a, (w', log))),
      r_create = (\<lambda>ns obj (w, log). case r_create api ns obj w of (a, w') \<Rightarrow> (a, (w', log))),
      r_update = (\<lambda>ns obj (w, log). case r_update api ns obj w of (a, w') \<Rightarrow> (a, (w', log))),
      r_delete = (\<lambda>ns n (w, log). case r_delete api ns n w of (a, w') \<Rightarrow> (a, (w', log)))\<rparr>"

definition recording_api :: "('w, 'o) resource_api \<Rightarrow> ('w \<times> 'o list, 'o) resource_api" where
  "recording_api api = (passing_api api)\<lparr>
     r_create := (\<lambda>ns obj (w, log). case r_create api ns obj w of (a, w') \<Rightarrow> (a, (w', log @ [obj]))),
     r_update := (\<lambda>ns obj (w, log). case r_update api ns obj w of (a, w') \<Rightarrow> (a, (w', log @ [obj])))\<rparr>"

definition recording :: "'w kube_client \<Rightarrow> ('w \<times> EndpointSlice list) kube_client" where
  "recording client = \<lparr>Services = passing_api (Services client), EndpointsOf = passing_api (EndpointsOf client),
     EndpointSlices = recording_api (EndpointSlices client)\<rparr>"

text \<open>The visits on such a client: what others do in between leaves the record alone.\<close>

type_synonym ('w, 'q) slice_visit =
  "(('w \<times> EndpointSlice list) kube_client, 'q queue) EndpointSliceWatcher \<times> ('w \<Rightarrow> 'w) \<times> string \<times> string"

fun recorded_visit :: "('w, 'q) slice_visit \<Rightarrow>
    (('w \<times> EndpointSlice list) kube_client, 'q queue) EndpointSliceWatcher \<times>
    ('w \<times> EndpointSlice list \<Rightarrow> 'w \<times> EndpointSlice list) \<times> string \<times> string" where
  "recorded_visit (watcher, env, name, ns) = (watcher, apfst env, name, ns)"

definition recorded_slices ::
  "ForZone list \<Rightarrow> ('w, 'q) slice_visit list \<Rightarrow> (('w \<times> EndpointSlice list) kube_client, 'q) GlobalRunner \<Rightarrow> 'w \<Rightarrow>
   EndpointSlice list" where
  "recorded_slices zones visits gr w =
     snd (snd (reconcile_slices zones (map recorded_visit visits)
       (gr, (w, []))))"

text \<open>What is recorded for a visit: the mirror of the slice its cache holds.\<close>

definition mirror_of_visit ::
  "ForZone list \<Rightarrow> (('w \<times> EndpointSlice list) kube_client, 'q) GlobalRunner \<Rightarrow> ('w, 'q) slice_visit \<Rightarrow>
   EndpointSlice \<Rightarrow> string \<Rightarrow> EndpointSlice \<Rightarrow> bool" where
  "mirror_of_visit zones gr visit remote svc slice \<longleftrightarrow>
     (case visit of (watcher, env, name, ns) \<Rightarrow>
        EndpointSliceWatcher_Get watcher name ns = Returned (Inr remote) \<and> service_label remote = Some svc \<and>
        slice = mirrored_slice zones gr (generateGlobalEndpointSliceName name) (generateGlobalServiceName svc ns) remote)"

lemma recording_sel:
  "r_get (EndpointSlices (recording client)) ns n (w, log) =
     (case r_get (EndpointSlices client) ns n w of (a, w') \<Rightarrow> (a, (w', log)))"
  "r_create (EndpointSlices (recording client)) ns obj (w, log) =
     (case r_create (EndpointSlices client) ns obj w of (a, w') \<Rightarrow> (a, (w', log @ [obj])))"
  "r_update (EndpointSlices (recording client)) ns obj (w, log) =
     (case r_update (EndpointSlices client) ns obj w of (a, w') \<Rightarrow> (a, (w', log @ [obj])))"
  "r_delete (EndpointSlices (recording client)) ns n (w, log) =
     (case r_delete (EndpointSlices client) ns n w of (a, w') \<Rightarrow> (a, (w', log)))"
  by (simp_all add: recording_def recording_api_def passing_api_def)

lemma discard_recorded:
  "discard (EndpointSlices (recording client)) ns n wrap (w, log) =
     (case discard (EndpointSlices client) ns n wrap w of (r, w') \<Rightarrow> (r, (w', log)))"
  by (auto simp: discard_def recording_sel split: prod.splits option.splits)

lemma ensure_recorded:
  "ensure (EndpointSlices (recording client)) ns n slice obj_ns (\<lambda>_. slice) wrap (w, log) = (r, (w', log')) \<Longrightarrow>
   log' = log \<or> log' = log @ [slice]"
  by (auto simp: ensure_def recording_sel split: prod.splits sum.splits if_splits)

text \<open>One reconciliation asks for at most one slice, and keeps all of the runner but its labels.\<close>

lemma reconcileEndpointSlice_recorded:
  assumes "gr_client gr = recording client"
    and "reconcileEndpointSlice zones name ns (gr, (w, log)) = (r, (gr', (w', log')))"
  shows "same_but_labels gr gr' \<and>
    (log' = log \<or> (\<exists>remote svc. getRemoteEndpointSlice gr name ns = Returned (Inr remote) \<and>
       service_label remote = Some svc \<and> log' = log @ [mirrored_slice zones gr
         (generateGlobalEndpointSliceName name) (generateGlobalServiceName svc ns) remote]))"
proof -
  show ?thesis
  proof (cases "getRemoteEndpointSlice gr name ns")
    case Panicked
    with assms(2) show ?thesis by (simp add: reconcileEndpointSlice_def Let_def go_simps)
  next
    case (Returned l)
    show ?thesis
    proof (cases "case l of Inl e \<Rightarrow> \<not> IsNotFound e | Inr remote \<Rightarrow> service_label remote = None")
      case True
      from reconcileEndpointSlice_refused [OF Returned True, of zones "(w, log)"] assms(2) show ?thesis by auto
    next
      case False
      show ?thesis
      proof (cases l)
        case (Inl err)
        with False have "IsNotFound err" by simp
        from reconcileEndpointSlice_absent [OF Returned [unfolded Inl] this refl, of zones "(w, log)"] assms
        show ?thesis by (auto simp: discard_recorded split: prod.splits)
      next
        case (Inr remote)
        with False obtain svc where svc: "service_label remote = Some svc" by auto
        from reconcileEndpointSlice_present [OF Returned [unfolded Inr] svc refl refl, of zones "(w, log)"] assms
          ensure_recorded [of client "gr_namespace gr"] Inr Returned svc
        show ?thesis by fastforce
      qed
    qed
  qed
qed

lemma mirrored_slice_cong:
  assumes "same_but_labels (gr\<lparr>gr_endpointSliceWatcher := watcher\<rparr>) gr'"
  shows "mirrored_slice zones gr' m target remote = mirrored_slice zones gr m target remote"
    and "gr_client gr' = gr_client gr"
proof -
  have gr': "gr' = gr\<lparr>gr_endpointSliceWatcher := watcher, gr_syncMirrorLabels := gr_syncMirrorLabels gr'\<rparr>"
    and labels: "generateEndpointSliceLabels (gr_syncMirrorLabels gr') target =
      generateEndpointSliceLabels (gr_syncMirrorLabels gr) target"
    using assms by (simp_all add: same_but_labels_def)
  from gr' have same: "gr_client gr' = gr_client gr" "gr_namespace gr' = gr_namespace gr" "gr_local gr' = gr_local gr"
    by (cases gr, cases gr', simp)+
  with labels show "mirrored_slice zones gr' m target remote = mirrored_slice zones gr m target remote"
    "gr_client gr' = gr_client gr"
    by (simp_all add: mirrored_slice_def ensureEndpointSliceZones_def)
qed


lemma recorded_run:
  "gr_client gr = recording client \<Longrightarrow>
   reconcile_slices zones (map recorded_visit visits) (gr, (w, log)) =
     (gr', (w', log')) \<Longrightarrow>
   \<exists>slices. log' = log @ slices \<and>
     (\<forall>slice \<in> set slices. \<exists>visit \<in> set visits. \<exists>remote svc. mirror_of_visit zones gr visit remote svc slice)"
proof (induction visits arbitrary: gr w log)
  case (Cons v visits)
  obtain watcher env name ns where v: "v = (watcher, env, name, ns)" by (cases v)
  let ?gr = "gr\<lparr>gr_endpointSliceWatcher := watcher\<rparr>"
  obtain r gr1 w1 log1 where run: "reconcileEndpointSlice zones name ns (?gr, (env w, log)) = (r, (gr1, (w1, log1)))"
    by (metis prod.exhaust)
  have client: "gr_client ?gr = recording client" using Cons.prems(1) by simp
  from reconcileEndpointSlice_recorded [OF client run] have
    same: "same_but_labels ?gr gr1" and
    one: "log1 = log \<or> (\<exists>remote svc. getRemoteEndpointSlice ?gr name ns = Returned (Inr remote) \<and>
       service_label remote = Some svc \<and> log1 = log @ [mirrored_slice zones ?gr
         (generateGlobalEndpointSliceName name) (generateGlobalServiceName svc ns) remote])" by blast+
  note cong = mirrored_slice_cong [OF same]
  have unwatched: "mirrored_slice zones ?gr m target remote = mirrored_slice zones gr m target remote" for m target remote
    by (simp add: mirrored_slice_def ensureEndpointSliceZones_def)
  have "\<exists>slices. log1 = log @ slices \<and>
      (\<forall>slice \<in> set slices. \<exists>remote svc. mirror_of_visit zones gr v remote svc slice)"
    using one
  proof (elim disjE exE conjE)
    fix remote svc
    assume "getRemoteEndpointSlice ?gr name ns = Returned (Inr remote)" "service_label remote = Some svc"
      "log1 = log @ [mirrored_slice zones ?gr (generateGlobalEndpointSliceName name)
        (generateGlobalServiceName svc ns) remote]"
    then show ?thesis by (intro exI) (auto simp: mirror_of_visit_def v getRemoteEndpointSlice_def unwatched)
  qed simp
  then obtain first where first: "log1 = log @ first"
    "\<forall>slice \<in> set first. \<exists>remote svc. mirror_of_visit zones gr v remote svc slice" by blast
  have "reconcile_slices zones (map recorded_visit visits)
      (gr1, (w1, log1)) = (gr', (w', log'))"
    using Cons.prems(2) v run by simp
  from Cons.IH [OF _ this] cong(2) Cons.prems(1) obtain slices where slices: "log' = log1 @ slices"
    "\<forall>slice \<in> set slices. \<exists>visit \<in> set visits. \<exists>remote svc. mirror_of_visit zones gr1 visit remote svc slice"
    by auto
  have "mirror_of_visit zones gr1 = mirror_of_visit zones gr"
    by (simp add: fun_eq_iff mirror_of_visit_def cong(1))
  with first slices show ?case by (intro exI [of _ "first @ slices"]) auto
qed simp

lemma recorded_slices_mirror:
  assumes "gr_client gr = recording client" "slice \<in> set (recorded_slices zones visits gr w)"
  obtains watcher env name ns remote svc where "(watcher, env, name, ns) \<in> set visits"
    and "EndpointSliceWatcher_Get watcher name ns = Returned (Inr remote)" "service_label remote = Some svc"
    and "slice = mirrored_slice zones gr (generateGlobalEndpointSliceName name) (generateGlobalServiceName svc ns) remote"
proof -
  obtain gr' w' log' where run: "reconcile_slices zones
      (map recorded_visit visits) (gr, (w, [])) = (gr', (w', log'))"
    by (metis prod.exhaust)
  then have "log' = recorded_slices zones visits gr w" by (simp add: recorded_slices_def)
  with recorded_run [OF assms(1) run] assms(2) obtain visit remote svc where
    "visit \<in> set visits" "mirror_of_visit zones gr visit remote svc slice" by auto
  with that show thesis by (cases visit) (simp add: mirror_of_visit_def)
qed

text \<open>C19: although every creation and update writes to the runner's one label map, each slice a runner asks
  the API server to create or update, over any sequence of reconciliations, whatever the requests
  answer, carries exactly the four labels it should: the mark and the sync name of the runner's
  cluster, the manager, and the global service of the very slice it mirrors, in whose name it is
  made.\<close>

theorem submitted_slice_labels:
  assumes "slice \<in> set (recorded_slices zones visits
      (newGlobalRunner lib (recording client) watchClient name namespace sel resync local rsl sync) w)"
  shows "\<exists>watcher env n ns remote svc. (watcher, env, n, ns) \<in> set visits \<and>
    EndpointSliceWatcher_Get watcher n ns = Returned (Inr remote) \<and>
    obj_labels (eps_meta remote) ''kubernetes.io/service-name'' = Some svc \<and>
    obj_name (eps_meta slice) = generateGlobalEndpointSliceName n \<and> obj_namespace (eps_meta slice) = namespace \<and>
    obj_labels (eps_meta slice) =
      [''mirrored-endpoint-slice'' \<mapsto> ''true'', ''mirror-endpointslice-sync-name'' \<mapsto> name,
       ''kubernetes.io/service-name'' \<mapsto> generateGlobalServiceName svc ns,
       ''endpointslice.kubernetes.io/managed-by'' \<mapsto> ''semaphore-service-mirror'']"
proof -
  let ?gr = "newGlobalRunner lib (recording client) watchClient name namespace sel resync local rsl sync"
  have gr: "gr_client ?gr = recording client" "gr_namespace ?gr = namespace"
    "gr_syncMirrorLabels ?gr = [''mirrored-endpoint-slice'' \<mapsto> ''true'', ''mirror-endpointslice-sync-name'' \<mapsto> name]"
    by (simp_all add: newGlobalRunner_def Let_def)
  obtain watcher env n ns remote svc where "(watcher, env, n, ns) \<in> set visits"
    "EndpointSliceWatcher_Get watcher n ns = Returned (Inr remote)" "service_label remote = Some svc"
    "slice = mirrored_slice zones ?gr (generateGlobalEndpointSliceName n) (generateGlobalServiceName svc ns) remote"
    by (rule recorded_slices_mirror [OF gr(1) assms])
  then show ?thesis
    by (intro exI conjI) (assumption | simp add: mirrored_slice_def gr generateEndpointSliceLabels_def)+
qed

text \<open>Two slices of one runner, one after the other.\<close>

definition slice_watcher ::
  "EndpointSlice list \<Rightarrow> ((cluster \<times> EndpointSlice list) kube_client, unit queue) EndpointSliceWatcher" where
  "slice_watcher slices =
     gr_endpointSliceWatcher (slice_runner (recording mem_client) (recording mem_client) slices [])"

definition two_visits :: "(cluster, unit) slice_visit list" where
  "two_visits =
     [(slice_watcher [plain_slice ''web-x1'' ''shop'' ''web''], id, ''web-x1'', ''shop''),
      (slice_watcher [plain_slice ''db-x2'' ''shop'' ''db''], id, ''db-x2'', ''shop'')]"

lemma two_recorded:
  "map (\<lambda>s. obj_name (eps_meta s)) (recorded_slices [] two_visits
     (newGlobalRunner slice_library (recording mem_client) (recording mem_client) ''b'' ''home'' [] 0 False
        (\<lambda>_. False) True) empty_cluster) = [''gl-web-x1'', ''gl-db-x2'']"
  by code_simp

theorem submitted_slice_labels_witness:
  "\<exists>slice. slice \<in> set (recorded_slices [] two_visits
      (newGlobalRunner slice_library (recording mem_client) (recording mem_client) ''b'' ''home'' [] 0 False
        (\<lambda>_. False) True) empty_cluster) \<and>
     obj_labels (eps_meta slice) ''mirror-endpointslice-sync-name'' = Some ''b''"
proof -
  let ?slices = "recorded_slices [] two_visits
      (newGlobalRunner slice_library (recording mem_client) (recording mem_client) ''b'' ''home'' [] 0 False
        (\<lambda>_. False) True) empty_cluster"
  from two_recorded have "?slices \<noteq> []" by auto
  then obtain slice where "slice \<in> set ?slices" using hd_in_set by blast
  with submitted_slice_labels [OF this] show ?thesis by auto
qed

subsection \<open>Start-up synchronisation\<close>

lemma stale_slices_eq:
  assumes "set remotes = ran rc" "set current = ran mc"
  shows "{NamespacedName (eps_namespace m) (eps_name m) |m. m \<in> set current \<and>
        eps_name m \<notin> set (map (\<lambda>s. generateGlobalEndpointSliceName (eps_name s)) remotes)} =
    {NamespacedName (eps_namespace m) (eps_name m) |m. m \<in> ran mc \<and>
        (\<forall>s \<in> ran rc. eps_name m \<noteq> generateGlobalEndpointSliceName (eps_name s))}"
  using assms by auto

lemma EndpointSliceSync_run:
  assumes "watcher_List as_EndpointSlice (gr_endpointSliceWatcher gr) = Returned (Inr rl)"
    and "watcher_List as_EndpointSlice (gr_mirrorEndpointSliceWatcher gr) = Returned (Inr ml)"
  shows "EndpointSliceSync gr w =
    (case delete_stale eps_name (\<lambda>s. r_delete (EndpointSlices (gr_client gr)) (eps_namespace s) (eps_name s))
        (map (\<lambda>s. generateGlobalEndpointSliceName (eps_name s)) rl) ml w of
       (res, w') \<Rightarrow> (Returned res, w'))"
  using assms
  by (simp add: EndpointSliceSync_def EndpointSliceWatcher_List_def deleteEndpointSlice_def Let_def go_simps)

text \<open>C17: with both caches holding slices, synchronising on start-up deletes only slices of the mirror
  cache that no remote slice of the cache is mirrored to, leaves every other slice alone, and
  when it returns no error it has deleted all of those.\<close>

theorem EndpointSliceSync_deletes_stale:
  assumes client: "resource_client (EndpointSlices (gr_client gr)) view eps_meta admit"
    and remote: "w_store (gr_endpointSliceWatcher gr) = Some rs"
      "informer_cache rs as_EndpointSlice IEndpointSlice remotes"
    and mirror: "w_store (gr_mirrorEndpointSliceWatcher gr) = Some ms"
      "informer_cache ms as_EndpointSlice IEndpointSlice mirrors"
    and stale: "stale = {NamespacedName (eps_namespace m) (eps_name m) |m. m \<in> ran mirrors \<and>
        (\<forall>s \<in> ran remotes. eps_name m \<noteq> generateGlobalEndpointSliceName (eps_name s))}"
    and run: "EndpointSliceSync gr w = (r, w')"
  shows "r \<noteq> Panicked \<and> (\<forall>k. k \<notin> stale \<longrightarrow> view w' k = view w k) \<and>
    (r = Returned None \<longrightarrow> (\<forall>k \<in> stale. view w' k = None))"
proof -
  obtain rl where rl: "watcher_List as_EndpointSlice (gr_endpointSliceWatcher gr) = Returned (Inr rl)"
    "set rl = ran remotes"
    using informer_cache.watcher_List_eq [OF remote(2,1)] by blast
  obtain ml where ml: "watcher_List as_EndpointSlice (gr_mirrorEndpointSliceWatcher gr) = Returned (Inr ml)"
    "set ml = ran mirrors"
    using informer_cache.watcher_List_eq [OF mirror(2,1)] by blast
  obtain res w1 where d: "delete_stale eps_name
      (\<lambda>s. r_delete (EndpointSlices (gr_client gr)) (eps_namespace s) (eps_name s))
      (map (\<lambda>s. generateGlobalEndpointSliceName (eps_name s)) rl) ml w = (res, w1)"
    by force
  with run EndpointSliceSync_run [OF rl(1) ml(1), of w] have rw: "r = Returned res" "w' = w1"
    by simp_all
  note st = stale [folded stale_slices_eq [OF rl(2) ml(2)]]
  note spec = resource_client.delete_stale_spec [OF client d]
  show ?thesis
    unfolding rw st by (intro conjI allI impI ballI) (use spec in simp_all)
qed

definition stale_slices :: "(cluster kube_client, unit) GlobalRunner" where
  "stale_slices = slice_runner mem_client mem_client [plain_slice ''web-x1'' ''shop'' ''web'']
     [plain_slice ''gl-old'' ''home'' ''web'']"

definition stale_cluster :: cluster where
  "stale_cluster = empty_cluster\<lparr>c_slices :=
     [NamespacedName ''home'' ''gl-old'' \<mapsto> plain_slice ''gl-old'' ''home'' ''web'']\<rparr>"

theorem EndpointSliceSync_deletes_stale_witness:
  "slices_view stale_cluster (NamespacedName ''home'' ''gl-old'') \<noteq> None \<and>
   slices_view (snd (EndpointSliceSync stale_slices stale_cluster)) (NamespacedName ''home'' ''gl-old'') = None"
proof -
  obtain r w' where run: "EndpointSliceSync stale_slices stale_cluster = (r, w')" by force
  have "fst (EndpointSliceSync stale_slices stale_cluster) = Returned None" by code_simp
  with run have r: "r = Returned None" by simp
  have client: "resource_client (EndpointSlices (gr_client stale_slices)) slices_view eps_meta as_submitted"
    by (simp add: stale_slices_def mem_eps.resource_client_axioms)
  note stores = slice_runner_store [of mem_client mem_client "[plain_slice ''web-x1'' ''shop'' ''web'']"
    "[plain_slice ''gl-old'' ''home'' ''web'']", folded stale_slices_def]
  note res = EndpointSliceSync_deletes_stale [OF client stores(1) eps_cache.informer_cache_axioms
    stores(2) eps_cache.informer_cache_axioms refl run]
  have ran: "ran (cache_contents eps_meta [plain_slice ''web-x1'' ''shop'' ''web'']) = {plain_slice ''web-x1'' ''shop'' ''web''}"
    "ran (cache_contents eps_meta [plain_slice ''gl-old'' ''home'' ''web'']) = {plain_slice ''gl-old'' ''home'' ''web''}"
    by (simp_all add: cache_contents_def ran_map_of cache_entries_def plain_slice_def)
  have names: "eps_name (plain_slice n ns svc) = n" "eps_namespace (plain_slice n ns svc) = ns" for n ns svc
    by (simp_all add: plain_slice_def eps_name_def eps_namespace_def)
  have "slices_view w' (NamespacedName ''home'' ''gl-old'') = None"
    using res [unfolded ran] r by (simp add: names generateGlobalEndpointSliceName_def)
  then show ?thesis using run by (simp add: stale_cluster_def placed_def plain_slice_def)
qed

text \<open>
  The caches of a runner that was just made, filled with what the list requests of its watchers
  return, \<open>request\<close> being the client's list of slices.
\<close>

definition fill_caches ::
  "('c \<Rightarrow> string \<Rightarrow> ListOptions \<Rightarrow> error + EndpointSlice list) \<Rightarrow> ('c, 'q) GlobalRunner \<Rightarrow>
   error + ('c, 'q) GlobalRunner" where
  "fill_caches request gr =
     (let options = \<lparr>opt_labelSelector = '''', opt_resourceVersion = ''''\<rparr>;
          fill = (\<lambda>w slices. watcher_Init (cache_of eps_meta IEndpointSlice slices) w)
      in case watcher_ListFunc request (gr_endpointSliceWatcher gr) options of
           Inl e \<Rightarrow> Inl e
         | Inr slices \<Rightarrow>
             (case watcher_ListFunc request (gr_mirrorEndpointSliceWatcher gr) options of
                Inl e \<Rightarrow> Inl e
              | Inr mirrors \<Rightarrow> Inr (gr\<lparr>
                  gr_endpointSliceWatcher := fill (gr_endpointSliceWatcher gr) slices,
                  gr_mirrorEndpointSliceWatcher := fill (gr_mirrorEndpointSliceWatcher gr) mirrors\<rparr>)))"

text \<open>C18: the runner of a remote cluster looks for the slices it mirrored in the remote cluster: where
  that cluster lists none under the mirror namespace and labels, synchronising on start-up
  deletes nothing, whatever stale slices the local cluster holds.\<close>

theorem EndpointSliceSync_misses_stale:
  assumes "fill_caches request
      (newGlobalRunner lib client watchClient name namespace sel resync local rsl sync) = Inr gr"
    and "\<And>options. opt_labelSelector options = lib_set_string lib
        [''mirrored-endpoint-slice'' \<mapsto> ''true'', ''mirror-endpointslice-sync-name'' \<mapsto> name] \<Longrightarrow>
      request watchClient namespace options = Inr []"
  shows "EndpointSliceSync gr w = (Returned None, w)"
proof -
  let ?gr = "newGlobalRunner lib client watchClient name namespace sel resync local rsl sync"
  have m: "watcher_ListFunc request (gr_mirrorEndpointSliceWatcher ?gr) options = Inr []" for options
    using assms(2) [of "options\<lparr>opt_labelSelector := lib_set_string lib
        [''mirrored-endpoint-slice'' \<mapsto> ''true'', ''mirror-endpointslice-sync-name'' \<mapsto> name]\<rparr>"]
    by (simp add: watcher_ListFunc_def newGlobalRunner_def watcher_Init_def newWatcher_def Let_def)
  from assms(1) m obtain rs where
    "w_store (gr_endpointSliceWatcher gr) = Some (cache_of eps_meta IEndpointSlice rs)"
    "w_store (gr_mirrorEndpointSliceWatcher gr) = Some (cache_of eps_meta IEndpointSlice [])"
    by (auto simp: fill_caches_def watcher_Init_def Let_def split: sum.splits)
  from eps_cache.watcher_List_eq [OF this(1)] eps_cache.watcher_List_eq [OF this(2)]
  obtain rl where "watcher_List as_EndpointSlice (gr_endpointSliceWatcher gr) = Returned (Inr rl)"
    "watcher_List as_EndpointSlice (gr_mirrorEndpointSliceWatcher gr) = Returned (Inr [])"
    by (auto simp: cache_contents_def cache_entries_def)
  from EndpointSliceSync_run [OF this, of w] show ?thesis by simp
qed

text \<open>Two clusters: the local one holds a mirrored slice that is stale, the remote one holds no slice.\<close>

definition list_request :: "cluster kube_client \<Rightarrow> string \<Rightarrow> ListOptions \<Rightarrow> error + EndpointSlice list" where
  "list_request c ns options =
     (case fst (r_get (EndpointSlices c) ns ''gl-old'' stale_cluster) of
        Inl e \<Rightarrow> Inr [] | Inr slice \<Rightarrow> Inr [slice])"

definition empty_client :: "cluster kube_client" where
  "empty_client = mem_client\<lparr>EndpointSlices :=
     mem_slices\<lparr>r_get := \<lambda>ns n w. (Inl (NotFound ''endpointslices'' n), w)\<rparr>\<rparr>"

theorem EndpointSliceSync_misses_stale_witness:
  "\<exists>gr. fill_caches list_request
      (newGlobalRunner slice_library mem_client empty_client ''b'' ''home'' [] 0 False (\<lambda>_. False) True) = Inr gr \<and>
    EndpointSliceSync gr stale_cluster = (Returned None, stale_cluster) \<and>
    slices_view stale_cluster (NamespacedName ''home'' ''gl-old'') = Some (plain_slice ''gl-old'' ''home'' ''web'')"
proof -
  have none: "list_request empty_client ns options = Inr []" for ns options
    by (simp add: list_request_def empty_client_def)
  then obtain gr where gr: "fill_caches list_request
      (newGlobalRunner slice_library mem_client empty_client ''b'' ''home'' [] 0 False (\<lambda>_. False) True) = Inr gr"
    by (simp add: fill_caches_def watcher_ListFunc_def newGlobalRunner_def watcher_Init_def newWatcher_def Let_def)
  from EndpointSliceSync_misses_stale [OF gr none] gr show ?thesis
    by (simp add: stale_cluster_def placed_def plain_slice_def)
qed

end
