(* ===== verification/Reconciling.thy ===== *)
theory Reconciling
  imports MemQueue Mirroring GlobalRunner
begin

text \<open>
  From an event to its reconciliation: the key an event queues is the object reconciled, a failed
  key stays pending, a stopped queue's worker returns.
\<close>

subsection \<open>Events\<close>

text \<open>What an event handler is to queue: the new object of an addition or modification, the old one of
  a deletion.\<close>

definition event_object :: "EventType \<Rightarrow> 'o option \<Rightarrow> 'o option \<Rightarrow> 'o option" where
  "event_object et old new = (case et of Added \<Rightarrow> new | Modified \<Rightarrow> new | Deleted \<Rightarrow> old | _ \<Rightarrow> None)"

lemma queue_event_object:
  "event_object et old new = Some obj \<Longrightarrow>
   queue_event lib to_iface et old new q =
     Returned (queue_Add (lib_workqueue lib) (lib_keyfunc lib) (to_iface obj) q)"
  by (cases et) (auto simp: event_object_def queue_event_def)

lemma key_laws_of:
  assumes "key_laws kf split" "iface_meta obj = Some m"
    and "CHR ''/'' \<notin> set (obj_namespace m)" "CHR ''/'' \<notin> set (obj_name m)" "obj_namespace m \<noteq> []"
  shows "kf obj = Inr (obj_namespace m @ ''/'' @ obj_name m)"
    and "split (obj_namespace m @ ''/'' @ obj_name m) = Inr (obj_namespace m, obj_name m)"
  using assms by (auto simp: key_laws_def)

text \<open>An event of a service queues one key, and the worker that takes that key calls the reconcile
  function with the name and the namespace of that service, once, and forgets the key if and
  only if it returned no error.\<close>

lemma service_event_reconciled:
  assumes laws: "key_laws (lib_keyfunc lib) (lib_split lib)"
    and obj: "event_object et old new = Some svc"
    and names: "CHR ''/'' \<notin> set (svc_namespace svc)" "CHR ''/'' \<notin> set (svc_name svc)" "svc_namespace svc \<noteq> []"
    and key: "key = svc_namespace svc @ ''/'' @ svc_name svc"
    and taken: "wq_Get (lib_workqueue lib) (q_queue q') = Some ((key, False), wqs)"
    and run: "rf (svc_name svc) (svc_namespace svc) w = (Returned err, w')"
  shows "mr_ServiceEventHandler lib et old new q =
      Returned (q\<lparr>q_queue := wq_Add (lib_workqueue lib) key (q_queue q)\<rparr>) \<and>
    gr_ServiceEventHandler lib et old new q = mr_ServiceEventHandler lib et old new q \<and>
    (\<exists>q''. processItem (lib_workqueue lib) (lib_split lib) rf q' w = Some (Returned True, q'', w') \<and>
       q_queue q'' = wq_Done (lib_workqueue lib) key
         (case err of None \<Rightarrow> wq_Forget (lib_workqueue lib) key wqs
          | Some e \<Rightarrow> wq_AddRateLimited (lib_workqueue lib) key wqs))"
proof -
  note k = key_laws_of [OF laws, of "IService svc" "svc_meta svc", simplified,
    OF names [unfolded svc_name_def svc_namespace_def]]
  have "lib_keyfunc lib (IService svc) = Inr key" "lib_split lib key = Inr (svc_namespace svc, svc_name svc)"
    using k by (simp_all add: key svc_name_def svc_namespace_def)
  with obj taken run show ?thesis
    by (cases err) (simp_all add: mr_ServiceEventHandler_def gr_ServiceEventHandler_def queue_event_object
        queue_Add_def processItem_def Let_def)
qed

definition mem_library :: "mem_queue library" where
  "mem_library = \<lparr>lib_workqueue = mem_workqueue, lib_newqueue = (\<lambda>n. mem_queue_empty),
     lib_keyfunc = MetaNamespaceKey, lib_split = SplitMetaNamespaceKey,
     lib_set_string = (\<lambda>m. []), lib_new_store = cache_of svc_meta IService [],
     lib_accessor = (\<lambda>obj. case iface_meta obj of None \<Rightarrow> Inl (Failure []) | Some m \<Rightarrow> Inr m)\<rparr>"

lemma mem_library_sel [simp]:
  "lib_workqueue mem_library = mem_workqueue"
  "lib_keyfunc mem_library = MetaNamespaceKey"
  "lib_split mem_library = SplitMetaNamespaceKey"
  by (simp_all add: mem_library_def)

definition pending_web :: "mem_queue queue" where
  "pending_web = newQueue ''b-service'' (mem_queue_empty\<lparr>mq_queue := [''shop/web''], mq_dirty := {''shop/web''}\<rparr>)"

lemma service_event_reconciled_example:
  "\<exists>q''. processItem mem_workqueue SplitMetaNamespaceKey (reconcileService one_service) pending_web empty_cluster =
     Some (Returned True, q'', snd (reconcileService one_service ''web'' ''shop'' empty_cluster))"
proof -
  obtain w' where run: "reconcileService one_service ''web'' ''shop'' empty_cluster = (Returned None, w')"
  proof -
    have "fst (reconcileService one_service ''web'' ''shop'' empty_cluster) = Returned None" by code_simp
    with that show thesis by (metis prod.collapse)
  qed
  have laws: "key_laws (lib_keyfunc mem_library) (lib_split mem_library)" by (simp add: key_functions_laws)
  have svc: "svc_name (plain_service ''web'' ''shop'') = ''web''" "svc_namespace (plain_service ''web'' ''shop'') = ''shop''"
    by (simp_all add: plain_service_def svc_name_def svc_namespace_def)
  have obj: "event_object Added None (Some (plain_service ''web'' ''shop'')) = Some (plain_service ''web'' ''shop'')"
    by (simp add: event_object_def)
  have taken: "wq_Get (lib_workqueue mem_library) (q_queue pending_web) =
      Some ((svc_namespace (plain_service ''web'' ''shop'') @ ''/'' @ svc_name (plain_service ''web'' ''shop''), False),
        mem_queue_empty\<lparr>mq_processing := {''shop/web''}\<rparr>)"
    by (simp add: svc pending_web_def newQueue_def mem_queue_simps mem_queue_empty_def)
  have names: "CHR ''/'' \<notin> set (svc_namespace (plain_service ''web'' ''shop''))"
    "CHR ''/'' \<notin> set (svc_name (plain_service ''web'' ''shop''))"
    "svc_namespace (plain_service ''web'' ''shop'') \<noteq> []" by (simp_all add: svc)
  from service_event_reconciled [OF laws obj names refl taken, where rf = "reconcileService one_service"
      and w = empty_cluster] run show ?thesis by (auto simp: svc)
qed

subsection \<open>Failed keys\<close>

lemma worker_run_name:
  "worker_run wq kf split rf s log s' \<Longrightarrow> q_name (fst s') = q_name (fst s)"
  by (induction rule: worker_run.induct) (simp_all add: item_requeued(1))

text \<open>C26: from a new queue, at any point of any run of its worker, with events and changes of the world
  in between, the requeued keys are exactly the keys whose last reconciliation failed, each
  once; all of them are still pending in the work queue, so no failure is lost; and the metric
  published is their number.\<close>

theorem failed_keys_stay_pending:
  assumes wqc: "workqueue_client wq pending processing is_down ok"
    and init: "ok q0" "processing q0 = {}" "\<not> is_down q0"
    and run: "worker_run wq kf split rf (newQueue name q0, w) log (q, w')"
  shows "distinct (q_requeued q) \<and> set (q_requeued q) = failing log \<and>
    failing log \<subseteq> set_mset (pending (q_queue q)) \<and>
    updateMetrics q = SetRequeued name (int (card (failing log)))"
proof -
  have "workqueue_client.worker_ok pending processing is_down ok (newQueue name q0)"
    using init by (simp add: workqueue_client.worker_ok_def [OF wqc] newQueue_def)
  from workqueue_client.worker_run_ok [OF wqc run] this have
    ok: "workqueue_client.worker_ok pending processing is_down ok q" by simp
  from worker_run_requeued [OF run] have req: "distinct (q_requeued q)" "set (q_requeued q) = failing log"
    by (simp_all add: newQueue_def)
  from worker_run_name [OF run] have "q_name q = name" by (simp add: newQueue_def)
  moreover have "card (failing log) = length (q_requeued q)"
    using req by (metis distinct_card)
  ultimately show ?thesis
    using req ok by (simp add: updateMetrics_def workqueue_client.worker_ok_def [OF wqc])
qed

definition failing_func :: "unit queueReconcileFunc" where
  "failing_func name namespace w = (Returned (Some (Failure ''refused'')), w)"

theorem failed_keys_stay_pending_witness:
  "\<exists>q. worker_run mem_workqueue MetaNamespaceKey SplitMetaNamespaceKey failing_func
      (newQueue ''q'' mem_queue_empty, ()) [(''shop/web'', True)] (q, ()) \<and>
    q_requeued q = [''shop/web''] \<and> ''shop/web'' \<in># mem_pending (q_queue q)"
proof -
  let ?run = "worker_run mem_workqueue MetaNamespaceKey SplitMetaNamespaceKey failing_func
      (newQueue ''q'' mem_queue_empty, ())"
  let ?q = "queue_Add mem_workqueue MetaNamespaceKey (IService (plain_service ''web'' ''shop''))
      (newQueue ''q'' mem_queue_empty)"
  have e: "?run [] (?q, ())" by (intro worker_run.intros)
  have g: "wq_Get mem_workqueue (q_queue ?q) =
      Some ((''shop/web'', False), mem_queue_empty\<lparr>mq_processing := {''shop/web''}\<rparr>)"
    by (simp add: queue_Add_def MetaNamespaceKey_def plain_service_def newQueue_def mem_queue_simps
        mem_queue_empty_def)
  have split: "SplitMetaNamespaceKey ''shop/web'' = Inr (''shop'', ''web'')"
    by (simp add: SplitMetaNamespaceKey_def)
  have f: "key_failed SplitMetaNamespaceKey failing_func ''shop/web'' ()"
    by (simp add: key_failed_def split failing_func_def)
  obtain q where p: "processItem mem_workqueue SplitMetaNamespaceKey failing_func ?q () = Some (Returned True, q, ())"
    by (simp add: processItem_def g split failing_func_def Let_def)
  from worker_run.item [OF e p g] f have r: "?run [(''shop/web'', True)] (q, ())" by simp
  have init: "mem_ok mem_queue_empty" "mq_processing mem_queue_empty = {}" "\<not> mq_down mem_queue_empty"
    by (simp_all add: mem_ok_def mem_queue_empty_def)
  note res = failed_keys_stay_pending [OF mem_wq.workqueue_client_axioms init r]
  have "failing [(''shop/web'', True)] = {''shop/web''}" by (auto simp: failing_def)
  with res have d: "distinct (q_requeued q)" "set (q_requeued q) = {''shop/web''}"
    "''shop/web'' \<in># mem_pending (q_queue q)" by auto
  from d(1,2) have "length (q_requeued q) = 1" by (metis distinct_card is_singletonI is_singleton_altdef)
  with d(2) have "q_requeued q = [''shop/web'']" by (cases "q_requeued q") auto
  with r d(3) show ?thesis by blast
qed

subsection \<open>Stopping\<close>

lemma pending_web_ok: "mem_wq.worker_ok pending_web"
  by (simp add: mem_wq.worker_ok_def pending_web_def newQueue_def mem_ok_def mem_queue_empty_def)

text \<open>C27: when the queue of a worker between two items is stopped, its loop returns, whatever
  reconciling the keys still queued returns, as long as it does not panic.\<close>

theorem stopped_queue_returns:
  assumes wqs: "stopping_workqueue wq pending processing is_down ok"
    and q: "workqueue_client.worker_ok pending processing is_down ok q"
    and rf: "\<And>n ns w. fst (rf n ns w) \<noteq> Panicked"
  shows "\<exists>q' w' ms. queue_Run wq split rf (queue_Stop wq q) w = Some (Returned (), q', w', ms)"
  by (rule stopping_workqueue.queue_Run_returns [OF wqs rf q])

theorem stopped_queue_returns_witness:
  "queue_Run mem_workqueue SplitMetaNamespaceKey failing_func (queue_Stop mem_workqueue pending_web) () \<noteq> None"
proof -
  have rf: "\<And>n ns w. fst (failing_func n ns w) \<noteq> Panicked" by (simp add: failing_func_def)
  from stopped_queue_returns [OF mem_wq_stop.stopping_workqueue_axioms pending_web_ok rf] show ?thesis
    by force
qed

end
