(* ===== verification/Lifecycle.thy ===== *)
theory Lifecycle
  imports SliceMirroring Reconciling
begin

text \<open>
  Starting and stopping the runners: what has happened before the queues start, what a stopped
  runner leaves running, and that the metric updates and the informer callbacks of the watchers
  do not panic, except on a tombstone.
\<close>

fun starts_queue :: "run_event \<Rightarrow> bool" where
  "starts_queue (StartQueue name) = True"
| "starts_queue _ = False"

text \<open>\<open>before P es\<close> are the events before the first that satisfies \<open>P\<close>.\<close>

abbreviation before :: "('a \<Rightarrow> bool) \<Rightarrow> 'a list \<Rightarrow> 'a list" where
  "before P \<equiv> takeWhile (\<lambda>x. \<not> P x)"

text \<open>C20: a mirror runner starts a queue only once both service caches have synced and, where it
  synchronises, once the synchronisation has ended; it changes the cluster only by that; and it
  counts as initialised in every case.\<close>

theorem mr_Run_order:
  assumes "mr_Run wait mr w = (status, events, mr', w')"
  shows "mr' = mr\<lparr>mr_initialised := True\<rparr> \<and>
    (list_ex starts_queue events \<longrightarrow>
       status = RunReturned None \<and>
       {CacheSynced ''serviceWatcher'', CacheSynced ''mirrorServiceWatcher''} \<subseteq> set (before starts_queue events) \<and>
       (if mr_sync mr then \<exists>err. ServiceSync mr' w = (Returned err, w') \<and> Synced err \<in> set (before starts_queue events)
        else w' = w)) \<and>
    (\<not> list_ex starts_queue events \<longrightarrow> status \<noteq> RunReturned None)"
  using assms
  by (auto simp: mr_Run_def Let_def split: option.splits bool.splits if_splits prod.splits outcome.splits)

theorem mr_Run_order_witness:
  "\<exists>events mr' w'. mr_Run (\<lambda>_. Some True) sync_runner sync_cluster = (RunReturned None, events, mr', w') \<and>
     CacheSynced ''mirrorServiceWatcher'' \<in> set (before starts_queue events)"
proof -
  obtain status events mr' w' where
    run: "mr_Run (\<lambda>_. Some True) sync_runner sync_cluster = (status, events, mr', w')"
    by (metis prod.exhaust)
  have "fst (mr_Run (\<lambda>_. Some True) sync_runner sync_cluster) = RunReturned None" by code_simp
  with run have "status = RunReturned None" by simp
  with mr_Run_order [OF run] run show ?thesis by auto
qed

text \<open>C21: a global runner starts a queue only once its three caches have synced, the slice caches after
  the service cache, and, where it synchronises, once the synchronisation has ended; it changes
  the cluster only by that; and it counts as initialised in every case.\<close>

theorem gr_Run_order:
  assumes "gr_Run wait gr w = (status, events, gr', w')"
  shows "gr' = gr\<lparr>gr_initialised := True\<rparr> \<and>
    (list_ex starts_queue events \<longrightarrow>
       status = RunReturned None \<and>
       subseq [CacheSynced ''serviceWatcher'', CacheSynced (''gl-'' @ gr_name gr @ ''-endpointSliceWatcher''),
         CacheSynced (''mirror-'' @ gr_name gr @ ''-endpointSliceWatcher'')] (before starts_queue events) \<and>
       (if gr_sync gr then \<exists>err. EndpointSliceSync gr' w = (Returned err, w') \<and> Synced err \<in> set (before starts_queue events)
        else w' = w)) \<and>
    (\<not> list_ex starts_queue events \<longrightarrow> status \<noteq> RunReturned None)"
  using assms
  by (auto simp: gr_Run_def Let_def split: option.splits bool.splits if_splits prod.splits outcome.splits)

theorem gr_Run_order_witness:
  "\<exists>events gr' w'. gr_Run (\<lambda>_. Some True) stale_slices stale_cluster = (RunReturned None, events, gr', w') \<and>
     CacheSynced (''mirror-'' @ gr_name stale_slices @ ''-endpointSliceWatcher'') \<in> set (before starts_queue events)"
proof -
  obtain status events gr' w' where
    run: "gr_Run (\<lambda>_. Some True) stale_slices stale_cluster = (status, events, gr', w')"
    by (metis prod.exhaust)
  have "fst (gr_Run (\<lambda>_. Some True) stale_slices stale_cluster) = RunReturned None" by code_simp
  with run have "status = RunReturned None" by simp
  with gr_Run_order [OF run] have
    "subseq [CacheSynced ''serviceWatcher'', CacheSynced (''gl-'' @ gr_name stale_slices @ ''-endpointSliceWatcher''),
         CacheSynced (''mirror-'' @ gr_name stale_slices @ ''-endpointSliceWatcher'')] (before starts_queue events)"
    by blast
  from list_emb_set [OF this, of "CacheSynced (''mirror-'' @ gr_name stale_slices @ ''-endpointSliceWatcher'')"]
  have "CacheSynced (''mirror-'' @ gr_name stale_slices @ ''-endpointSliceWatcher'') \<in>
      set (before starts_queue events)" by auto
  with run \<open>status = RunReturned None\<close> show ?thesis by blast
qed

subsection \<open>Stopping\<close>

text \<open>Stopping a mirror runner once shuts both queues down and stops all four watchers.\<close>

lemma mr_Stop_stops:
  assumes "\<not> w_stopped (mr_serviceWatcher mr)" "\<not> w_stopped (mr_mirrorServiceWatcher mr)"
    and "\<not> w_stopped (mr_endpointsWatcher mr)" "\<not> w_stopped (mr_mirrorEndpointsWatcher mr)"
  shows "\<exists>mr'. mr_Stop lib mr = Returned mr' \<and>
    w_stopped (mr_serviceWatcher mr') \<and> w_stopped (mr_mirrorServiceWatcher mr') \<and>
    w_stopped (mr_endpointsWatcher mr') \<and> w_stopped (mr_mirrorEndpointsWatcher mr') \<and>
    q_queue (mr_serviceQueue mr') = wq_ShutDown (lib_workqueue lib) (q_queue (mr_serviceQueue mr)) \<and>
    q_queue (mr_endpointsQueue mr') = wq_ShutDown (lib_workqueue lib) (q_queue (mr_endpointsQueue mr)) \<and>
    mr_Stop lib mr' = Panicked"
  using assms by (simp add: mr_Stop_def watcher_Stop_def queue_Stop_def Let_def)

lemma mr_Stop_stops_example:
  "\<exists>mr'. mr_Stop mirror_library sync_runner = Returned mr' \<and> w_stopped (mr_mirrorEndpointsWatcher mr')"
proof -
  have "\<not> w_stopped (mr_serviceWatcher sync_runner)" "\<not> w_stopped (mr_mirrorServiceWatcher sync_runner)"
    "\<not> w_stopped (mr_endpointsWatcher sync_runner)" "\<not> w_stopped (mr_mirrorEndpointsWatcher sync_runner)"
    by (simp_all add: sync_runner_def mirror_runner_def newMirrorRunner_def watcher_Init_def newWatcher_def Let_def)
  from mr_Stop_stops [OF this, of mirror_library] show ?thesis by blast
qed

text \<open>C25: stopping a global runner between items makes the workers of both of its queues return, whatever
  reconciling the keys still queued answers, as long as it does not panic, and closes the
  channels of two of its three watchers; of the runner nothing else changes, so that the watcher
  of the mirrored slices is left running, and no second stop can reach it: that one panics.\<close>

theorem gr_Stop_leaves_mirror_watcher:
  assumes wqs: "stopping_workqueue (lib_workqueue lib) pending processing is_down ok"
    and queues: "workqueue_client.worker_ok pending processing is_down ok (gr_serviceQueue gr)"
      "workqueue_client.worker_ok pending processing is_down ok (gr_endpointSliceQueue gr)"
    and rf: "\<And>n ns w. fst (rf n ns w) \<noteq> Panicked" "\<And>n ns w. fst (rf' n ns w) \<noteq> Panicked"
    and running: "\<not> w_stopped (gr_serviceWatcher gr)" "\<not> w_stopped (gr_endpointSliceWatcher gr)"
      "\<not> w_stopped (gr_mirrorEndpointSliceWatcher gr)"
  shows "\<exists>gr'. gr_Stop lib gr = Returned gr' \<and>
    (\<exists>q w' ms. queue_Run (lib_workqueue lib) split rf (gr_serviceQueue gr') w = Some (Returned (), q, w', ms)) \<and>
    (\<exists>q w' ms. queue_Run (lib_workqueue lib) split rf' (gr_endpointSliceQueue gr') w = Some (Returned (), q, w', ms)) \<and>
    gr' = gr\<lparr>gr_serviceQueue := gr_serviceQueue gr', gr_endpointSliceQueue := gr_endpointSliceQueue gr',
      gr_serviceWatcher := (gr_serviceWatcher gr)\<lparr>w_stopped := True\<rparr>,
      gr_endpointSliceWatcher := (gr_endpointSliceWatcher gr)\<lparr>w_stopped := True\<rparr>\<rparr> \<and>
    \<not> w_stopped (gr_mirrorEndpointSliceWatcher gr') \<and> gr_Stop lib gr' = Panicked"
proof -
  let ?gr = "gr\<lparr>gr_serviceQueue := queue_Stop (lib_workqueue lib) (gr_serviceQueue gr),
      gr_endpointSliceQueue := queue_Stop (lib_workqueue lib) (gr_endpointSliceQueue gr),
      gr_serviceWatcher := (gr_serviceWatcher gr)\<lparr>w_stopped := True\<rparr>,
      gr_endpointSliceWatcher := (gr_endpointSliceWatcher gr)\<lparr>w_stopped := True\<rparr>\<rparr>"
  have stop: "gr_Stop lib gr = Returned ?gr" "gr_Stop lib ?gr = Panicked"
    using running by (simp_all add: gr_Stop_def watcher_Stop_def Let_def)
  note service = stopping_workqueue.queue_Run_returns [OF wqs rf(1) queues(1)]
  note slices = stopping_workqueue.queue_Run_returns [OF wqs rf(2) queues(2)]
  show ?thesis
    by (intro exI [of _ ?gr] conjI stop)
      (use service slices running in simp_all)
qed

definition stopped_soon :: "(cluster kube_client, mem_queue) GlobalRunner" where
  "stopped_soon = (newGlobalRunner mem_library mem_client mem_client ''b'' ''home'' [] 0 False (\<lambda>_. False) False)
     \<lparr>gr_serviceQueue := pending_web\<rparr>"

theorem gr_Stop_leaves_mirror_watcher_witness:
  "\<exists>gr'. gr_Stop mem_library stopped_soon = Returned gr' \<and>
     queue_Run mem_workqueue SplitMetaNamespaceKey failing_func (gr_serviceQueue gr') () \<noteq> None \<and>
     \<not> w_stopped (gr_mirrorEndpointSliceWatcher gr')"
proof -
  have wqs: "stopping_workqueue (lib_workqueue mem_library) mem_pending mq_processing mq_down mem_ok"
    by (simp add: mem_wq_stop.stopping_workqueue_axioms)
  have q: "mem_wq.worker_ok (gr_serviceQueue stopped_soon)" "mem_wq.worker_ok (gr_endpointSliceQueue stopped_soon)"
    using pending_web_ok
    by (simp_all add: stopped_soon_def newGlobalRunner_def Let_def mem_library_def mem_wq.worker_ok_def
        newQueue_def mem_ok_def mem_queue_empty_def)
  note stop = gr_Stop_leaves_mirror_watcher [where rf = failing_func and rf' = failing_func and
      split = SplitMetaNamespaceKey and w = "()", OF wqs q]
  have rf: "\<And>n ns w. fst (failing_func n ns w) \<noteq> Panicked" by (simp add: failing_func_def)
  have running: "\<not> w_stopped (gr_serviceWatcher stopped_soon)" "\<not> w_stopped (gr_endpointSliceWatcher stopped_soon)"
    "\<not> w_stopped (gr_mirrorEndpointSliceWatcher stopped_soon)"
    by (simp_all add: stopped_soon_def newGlobalRunner_def newWatcher_def watcher_Init_def Let_def)
  from stop [OF rf rf running] show ?thesis unfolding mem_library_sel by blast
qed

subsection \<open>The callbacks of the informers\<close>

text \<open>The callbacks of the three watchers update metrics with exactly the labels their vectors
  declare, and on an initialised watcher and objects of its kind they do what the event handler
  does, once, with the object of the event.\<close>

lemma watcher_callbacks:
  assumes "w_store sw = Some ss" "w_store ew = Some es" "w_store pw = Some ps"
    and "w_eventHandler sw = Some sh" "w_eventHandler ew = Some eh" "w_eventHandler pw = Some ph"
  shows
    "snd (ServiceWatcher_AddFunc sw (IService s) q) = sh Added None (Some s) q \<and>
     snd (ServiceWatcher_UpdateFunc sw (IService s) (IService s') q) = sh Modified (Some s) (Some s') q \<and>
     snd (ServiceWatcher_DeleteFunc sw (IService s) q) = sh Deleted (Some s) None q \<and>
     snd (EndpointsWatcher_AddFunc ew (IEndpoints e) q) = eh Added None (Some e) q \<and>
     snd (EndpointsWatcher_UpdateFunc ew (IEndpoints e) (IEndpoints e') q) = eh Modified (Some e) (Some e') q \<and>
     snd (EndpointsWatcher_DeleteFunc ew (IEndpoints e) q) = eh Deleted (Some e) None q \<and>
     snd (EndpointSliceWatcher_AddFunc pw (IEndpointSlice p) q) = ph Added None (Some p) q \<and>
     snd (EndpointSliceWatcher_UpdateFunc pw (IEndpointSlice p) (IEndpointSlice p') q) =
       ph Modified (Some p) (Some p') q \<and>
     snd (EndpointSliceWatcher_DeleteFunc pw (IEndpointSlice p) q) = ph Deleted (Some p) None q \<and>
     list_all labels_declared (fst (ServiceWatcher_AddFunc sw obj q) @ fst (ServiceWatcher_UpdateFunc sw obj obj' q) @
      fst (ServiceWatcher_DeleteFunc sw obj q) @ fst (EndpointsWatcher_AddFunc ew obj q) @
      fst (EndpointsWatcher_UpdateFunc ew obj obj' q) @ fst (EndpointsWatcher_DeleteFunc ew obj q) @
      fst (EndpointSliceWatcher_AddFunc pw obj q) @ fst (EndpointSliceWatcher_UpdateFunc pw obj obj' q) @
      fst (EndpointSliceWatcher_DeleteFunc pw obj q))"
  using assms
  by (simp_all add: watcher_instances watcher_AddFunc_def watcher_UpdateFunc_def watcher_DeleteFunc_def
      handleEvent_def Let_def split: option.split)

text \<open>Watchers whose handler records the event type.\<close>

definition recording_watcher :: "(unit, 'o, EventType list) Watcher" where
  "recording_watcher = watcher_Init (cache_of svc_meta IService [])
     (newWatcher ''w'' () 0 (Some (\<lambda>et old new q. Returned (q @ [et]))) [] [] ''r'')"

lemma recording_watcher_sel:
  "w_store recording_watcher = Some (cache_of svc_meta IService [])"
  "w_eventHandler recording_watcher = Some (\<lambda>et old new q. Returned (q @ [et]))"
  by (simp_all add: recording_watcher_def watcher_Init_def newWatcher_def)

lemma watcher_callbacks_example:
  "snd (ServiceWatcher_DeleteFunc recording_watcher (IService (plain_service ''web'' ''shop'')) [Added]) =
     Returned [Added, Deleted]"
  using watcher_callbacks [OF recording_watcher_sel(1) recording_watcher_sel(1) recording_watcher_sel(1)
      recording_watcher_sel(2) recording_watcher_sel(2) recording_watcher_sel(2)]
  by (simp only: append_Cons append_Nil simp_thms)

text \<open>C24: given the tombstone client-go documents for a deletion it learns of late, each of the three
  deletion callbacks panics, although the key function of the queue is the one that handles it.\<close>

theorem tombstone_panics:
  "snd (ServiceWatcher_DeleteFunc sw (IDeletedFinalStateUnknown key obj) q) = Panicked \<and>
   snd (EndpointsWatcher_DeleteFunc ew (IDeletedFinalStateUnknown key obj) q) = Panicked \<and>
   snd (EndpointSliceWatcher_DeleteFunc pw (IDeletedFinalStateUnknown key obj) q) = Panicked"
  by (simp add: watcher_instances watcher_DeleteFunc_def)

end
