(* ===== verification/Controller.thy ===== *)
theory Controller
  imports Runners
begin

text \<open>
  A controller: an informer that keeps a cache and reports its changes, a queue of keys, and a
  worker that reconciles one key after the other.  The steps of the three interleave in any
  order.  The locale \<open>level_controller\<close> is the contract between the queue, the event handler and
  the reconcile function under which no change of the cache is lost, whatever the interleaving
  and whichever requests fail.
\<close>

subsection \<open>Keys\<close>

definition remote_key :: "NamespacedName \<Rightarrow> string" where
  "remote_key k = nn_namespace k @ ''/'' @ nn_name k"

definition slash_free :: "NamespacedName \<Rightarrow> bool" where
  "slash_free k \<longleftrightarrow> CHR ''/'' \<notin> set (nn_namespace k) \<and> CHR ''/'' \<notin> set (nn_name k) \<and> nn_namespace k \<noteq> []"

lemma remote_key_inj: "slash_free k \<Longrightarrow> slash_free k' \<Longrightarrow> remote_key k = remote_key k' \<longleftrightarrow> k = k'"
  by (cases k; cases k') (auto simp: slash_free_def remote_key_def key_inj)

definition meta_key :: "ObjectMeta \<Rightarrow> NamespacedName" where
  "meta_key m = NamespacedName (obj_namespace m) (obj_name m)"

subsection \<open>Steps\<close>

text \<open>
  What the informer reports: an object that is new in its cache, one that was replaced (by itself
  on a resync), or one that is gone.
\<close>

definition cache_change ::
  "('o \<Rightarrow> ObjectMeta) \<Rightarrow> NamespacedName \<Rightarrow> EventType \<Rightarrow> 'o option \<Rightarrow> 'o option \<Rightarrow> bool" where
  "cache_change meta k et old new \<longleftrightarrow>
     (case (et, old, new) of
        (Added, None, Some n) \<Rightarrow> meta_key (meta n) = k
      | (Modified, Some c, Some n) \<Rightarrow> meta_key (meta c) = k \<and> meta_key (meta n) = k
      | (Deleted, Some c, None) \<Rightarrow> meta_key (meta c) = k
      | _ \<Rightarrow> False)"

text \<open>The callback an informer calls for a change, of the three it is given.\<close>

definition informer_call ::
  "('o \<Rightarrow> iface) \<Rightarrow> (iface \<Rightarrow> 's \<Rightarrow> 'u \<times> 's outcome) \<Rightarrow> (iface \<Rightarrow> iface \<Rightarrow> 's \<Rightarrow> 'u \<times> 's outcome) \<Rightarrow>
   (iface \<Rightarrow> 's \<Rightarrow> 'u \<times> 's outcome) \<Rightarrow> EventType \<Rightarrow> 'o option \<Rightarrow> 'o option \<Rightarrow> 's \<Rightarrow> 's outcome" where
  "informer_call to_iface add upd del et old new s =
     (case (et, old, new) of
        (Added, None, Some n) \<Rightarrow> snd (add (to_iface n) s)
      | (Modified, Some c, Some n) \<Rightarrow> snd (upd (to_iface c) (to_iface n) s)
      | (Deleted, Some c, None) \<Rightarrow> snd (del (to_iface c) s)
      | _ \<Rightarrow> Returned s)"

text \<open>
  The worker is idle, has taken a key, or is reconciling a key with what it has read of the cache.
  The reconcile functions read the cache once, before their first request.
\<close>

datatype 'o working =
    Idle
  | Taken string
  | Reading string cache_store "NamespacedName \<Rightarrow> 'o option"

fun working_keys :: "'o working \<Rightarrow> string set" where
  "working_keys Idle = {}"
| "working_keys (Taken key) = {key}"
| "working_keys (Reading key store contents) = {key}"

record ('q, 'o, 'w) controller =
  ctl_queue :: "'q queue"
  ctl_store :: cache_store
  ctl_contents :: "NamespacedName \<Rightarrow> 'o option"
  ctl_working :: "'o working"
  ctl_world :: 'w

text \<open>
  The parameters: the work queue and the splitting of its keys, the informer's call of the
  watcher's callback on a store, what a store holds, the reconcile function of a runner with that
  store, the keys of the objects that occur, and what others may do to the world.  Requests of a
  reconciliation are one step with the \<open>Done\<close> of its key: an event between the two adds to the
  same queue as one before them.
\<close>

inductive controller_step ::
  "'q workqueue \<Rightarrow> (string \<Rightarrow> error + string \<times> string) \<Rightarrow> ('o \<Rightarrow> ObjectMeta) \<Rightarrow>
   (cache_store \<Rightarrow> EventType \<Rightarrow> 'o option \<Rightarrow> 'o option \<Rightarrow> 'q queue \<Rightarrow> 'q queue outcome) \<Rightarrow>
   (cache_store \<Rightarrow> (NamespacedName \<Rightarrow> 'o option) \<Rightarrow> bool) \<Rightarrow> (cache_store \<Rightarrow> 'w queueReconcileFunc) \<Rightarrow>
   (NamespacedName \<Rightarrow> bool) \<Rightarrow> ('w \<Rightarrow> 'w \<Rightarrow> bool) \<Rightarrow>
   ('q, 'o, 'w) controller \<Rightarrow> ('q, 'o, 'w) controller \<Rightarrow> bool"
  for wq split meta deliver reads rf occurs foreign where
  event: "occurs k \<Longrightarrow> ctl_contents s k = old \<Longrightarrow> cache_change meta k et old new \<Longrightarrow>
    reads store ((ctl_contents s)(k := new)) \<Longrightarrow>
    deliver store et old new (ctl_queue s) = Returned q \<Longrightarrow>
    controller_step wq split meta deliver reads rf occurs foreign s
      (s\<lparr>ctl_queue := q, ctl_store := store, ctl_contents := (ctl_contents s)(k := new)\<rparr>)"
| take: "ctl_working s = Idle \<Longrightarrow> wq_Get wq (q_queue (ctl_queue s)) = Some ((key, False), wqs) \<Longrightarrow>
    controller_step wq split meta deliver reads rf occurs foreign s
      (s\<lparr>ctl_queue := (ctl_queue s)\<lparr>q_queue := wqs\<rparr>, ctl_working := Taken key\<rparr>)"
| read: "ctl_working s = Taken key \<Longrightarrow>
    controller_step wq split meta deliver reads rf occurs foreign s
      (s\<lparr>ctl_working := Reading key (ctl_store s) (ctl_contents s)\<rparr>)"
| finish: "ctl_working s = Reading key store contents \<Longrightarrow>
    finish_item wq split (rf store) key (ctl_queue s) (ctl_world s) = (Returned True, q, w) \<Longrightarrow>
    controller_step wq split meta deliver reads rf occurs foreign s
      (s\<lparr>ctl_queue := q, ctl_working := Idle, ctl_world := w\<rparr>)"
| foreign: "foreign (ctl_world s) w \<Longrightarrow>
    controller_step wq split meta deliver reads rf occurs foreign s (s\<lparr>ctl_world := w\<rparr>)"

abbreviation controller_run where
  "controller_run wq split meta deliver reads rf occurs foreign \<equiv>
     (controller_step wq split meta deliver reads rf occurs foreign)\<^sup>*\<^sup>*"

subsection \<open>The contract\<close>

text \<open>
  \<open>mirror w k\<close> is what the reconcile function keeps in the world for the key \<open>k\<close>, and \<open>matches\<close>
  says when that is right for what the cache holds; \<open>world_ok\<close> is an invariant of the world that the
  reconcile function rests on and keeps.
\<close>

locale level_controller = workqueue_client wq pending processing is_down ok
  for wq :: "'q workqueue" and pending processing is_down ok +
  fixes split :: "string \<Rightarrow> error + string \<times> string"
    and meta :: "'o \<Rightarrow> ObjectMeta"
    and deliver :: "cache_store \<Rightarrow> EventType \<Rightarrow> 'o option \<Rightarrow> 'o option \<Rightarrow> 'q queue \<Rightarrow> 'q queue outcome"
    and reads :: "cache_store \<Rightarrow> (NamespacedName \<Rightarrow> 'o option) \<Rightarrow> bool"
    and rf :: "cache_store \<Rightarrow> 'w queueReconcileFunc"
    and occurs :: "NamespacedName \<Rightarrow> bool"
    and foreign :: "'w \<Rightarrow> 'w \<Rightarrow> bool"
    and mirror :: "'w \<Rightarrow> NamespacedName \<Rightarrow> 'm option"
    and matches :: "'o option \<Rightarrow> 'm option \<Rightarrow> bool"
    and world_ok :: "'w \<Rightarrow> bool"
  assumes occurs_slash_free: "occurs k \<Longrightarrow> slash_free k"
    and split_key: "occurs k \<Longrightarrow> split (remote_key k) = Inr (nn_namespace k, nn_name k)"
    and delivers:
      "occurs k \<Longrightarrow> cache_change meta k et old new \<Longrightarrow>
       deliver store et old new q = Returned (q\<lparr>q_queue := wq_Add wq (remote_key k) (q_queue q)\<rparr>)"
    and reconciles:
      "occurs k \<Longrightarrow> reads store contents \<Longrightarrow> world_ok w \<Longrightarrow>
       rf store (nn_name k) (nn_namespace k) w = (r, w') \<Longrightarrow>
       world_ok w' \<and> (r = Returned None \<longrightarrow> matches (contents k) (mirror w' k)) \<and>
       (\<forall>k'. occurs k' \<longrightarrow> k' \<noteq> k \<longrightarrow> mirror w' k' = mirror w k')"
    and foreign_mirror:
      "world_ok w \<Longrightarrow> foreign w w' \<Longrightarrow> world_ok w' \<and> (\<forall>k. occurs k \<longrightarrow> mirror w' k = mirror w k)"
begin

abbreviation step :: "('q, 'o, 'w) controller \<Rightarrow> ('q, 'o, 'w) controller \<Rightarrow> bool" where
  "step \<equiv> controller_step wq split meta deliver reads rf occurs foreign"

abbreviation run :: "('q, 'o, 'w) controller \<Rightarrow> ('q, 'o, 'w) controller \<Rightarrow> bool" where
  "run \<equiv> controller_run wq split meta deliver reads rf occurs foreign"

text \<open>The state's invariant: the worker's key is the one being processed, every key is that of an
  object that occurs, and a key whose last reconciliation failed is pending or being processed.\<close>

definition inv :: "('q, 'o, 'w) controller \<Rightarrow> bool" where
  "inv s \<longleftrightarrow>
     ok (q_queue (ctl_queue s)) \<and> \<not> is_down (q_queue (ctl_queue s)) \<and>
     processing (q_queue (ctl_queue s)) = working_keys (ctl_working s) \<and>
     distinct (q_requeued (ctl_queue s)) \<and>
     set (q_requeued (ctl_queue s)) \<subseteq> set_mset (pending (q_queue (ctl_queue s))) \<union> working_keys (ctl_working s) \<and>
     set_mset (pending (q_queue (ctl_queue s))) \<union> working_keys (ctl_working s) \<subseteq> remote_key ` Collect occurs \<and>
     reads (ctl_store s) (ctl_contents s) \<and> world_ok (ctl_world s) \<and>
     (\<forall>key store contents. ctl_working s = Reading key store contents \<longrightarrow> reads store contents)"

text \<open>What holds of one key: it is pending, or its reconciliation has yet to read the cache or has read
  what is there, or the mirror is right.\<close>

definition level :: "NamespacedName \<Rightarrow> ('q, 'o, 'w) controller \<Rightarrow> bool" where
  "level k s \<longleftrightarrow>
     remote_key k \<in># pending (q_queue (ctl_queue s)) \<or>
     (case ctl_working s of
        Taken key \<Rightarrow> key = remote_key k \<or> matches (ctl_contents s k) (mirror (ctl_world s) k)
      | Reading key store contents \<Rightarrow>
          if key = remote_key k then contents k = ctl_contents s k
          else matches (ctl_contents s k) (mirror (ctl_world s) k)
      | Idle \<Rightarrow> matches (ctl_contents s k) (mirror (ctl_world s) k))"

lemma key_eq [simp]: "occurs k \<Longrightarrow> occurs k' \<Longrightarrow> remote_key k = remote_key k' \<longleftrightarrow> k = k'"
  by (rule remote_key_inj) (rule occurs_slash_free, assumption)+

lemma inv_start:
  assumes "ok (q_queue q)" "\<not> is_down (q_queue q)" "processing (q_queue q) = {}" "pending (q_queue q) = {#}"
    and "q_requeued q = []" "reads store contents" "world_ok w"
  shows "inv \<lparr>ctl_queue = q, ctl_store = store, ctl_contents = contents, ctl_working = Idle, ctl_world = w\<rparr>"
  using assms by (simp add: inv_def)

text \<open>The event of a change makes its key pending and loses none.\<close>

lemma event_pending:
  assumes "inv s" "occurs k" "cache_change meta k et old new" "deliver store et old new (ctl_queue s) = Returned q"
  shows "ok (q_queue q)" "\<not> is_down (q_queue q)"
    "processing (q_queue q) = processing (q_queue (ctl_queue s))" "q_requeued q = q_requeued (ctl_queue s)"
    "set_mset (pending (q_queue q)) = insert (remote_key k) (set_mset (pending (q_queue (ctl_queue s))))"
proof -
  from delivers [OF assms(2,3), of store "ctl_queue s"] assms(4)
  have q: "q = (ctl_queue s)\<lparr>q_queue := wq_Add wq (remote_key k) (q_queue (ctl_queue s))\<rparr>" by simp
  note a = add [of "q_queue (ctl_queue s)" "remote_key k"]
  from assms(1) a show "ok (q_queue q)" "\<not> is_down (q_queue q)"
    "processing (q_queue q) = processing (q_queue (ctl_queue s))" "q_requeued q = q_requeued (ctl_queue s)"
    by (simp_all add: inv_def q)
  from assms(1) a have sub: "pending (q_queue (ctl_queue s)) \<subseteq># pending (q_queue q)"
    "pending (q_queue q) \<subseteq># add_mset (remote_key k) (pending (q_queue (ctl_queue s)))"
    "remote_key k \<in># pending (q_queue q)"
    by (simp_all add: inv_def q)
  from sub(3) set_mset_mono [OF sub(1)] set_mset_mono [OF sub(2)] show "set_mset (pending (q_queue q)) = insert (remote_key k) (set_mset (pending (q_queue (ctl_queue s))))"
    by auto
qed

text \<open>Finishing a key: it is done, and pending again if reconciling it failed.\<close>

lemma finish_cases:
  assumes inv: "inv s" and working: "ctl_working s = Reading key store contents"
    and finish: "finish_item wq split (rf store) key (ctl_queue s) (ctl_world s) = (Returned True, q, w)"
  obtains k r where "occurs k" "key = remote_key k" "reads store contents"
    "rf store (nn_name k) (nn_namespace k) (ctl_world s) = (r, w)" "world_ok (ctl_world s)"
    "ok (q_queue q)" "\<not> is_down (q_queue q)" "processing (q_queue q) = {}"
    "distinct (q_requeued q)" "set (q_requeued q) \<subseteq> set_mset (pending (q_queue q))"
    "set_mset (pending (q_queue (ctl_queue s))) \<subseteq> set_mset (pending (q_queue q))"
    "set_mset (pending (q_queue q)) \<subseteq> remote_key ` Collect occurs"
    "r \<noteq> Returned None \<Longrightarrow> key \<in># pending (q_queue q)"
proof -
  let ?q = "q_queue (ctl_queue s)"
  from inv working have i: "ok ?q" "\<not> is_down ?q" "processing ?q = {key}" "distinct (q_requeued (ctl_queue s))"
    "set (q_requeued (ctl_queue s)) \<subseteq> insert key (set_mset (pending ?q))" "reads store contents"
    "set_mset (pending ?q) \<subseteq> remote_key ` Collect occurs" "key \<in> remote_key ` Collect occurs"
    "world_ok (ctl_world s)"
    by (auto simp: inv_def)
  from i(8) obtain k where k: "occurs k" "key = remote_key k" by auto
  obtain r w1 where run: "rf store (nn_name k) (nn_namespace k) (ctl_world s) = (r, w1)" by force
  from finish run k have np: "r \<noteq> Panicked" by (auto simp: finish_item_def split_key Let_def)
  then obtain err where r: "r = Returned err" by (cases r) auto
  note f = forget [OF i(1), of key]
  note fd = finished [of "wq_Forget wq key ?q" key]
  note a = add_rate_limited [OF i(1,2), of key]
  note ad = finished [of "wq_AddRateLimited wq key ?q" key]
  show thesis
  proof (cases err)
    case None
    from finish run k r None have e: "w1 = w"
      "q = (let q2 = forget wq key (ctl_queue s) in q2\<lparr>q_queue := wq_Done wq key (q_queue q2)\<rparr>)"
      by (simp_all add: finish_item_def split_key Let_def)
    from e f fd i show ?thesis
      using that [OF k i(6)] i(9) run r None by (auto simp: Let_def)
  next
    case (Some x)
    from finish run k r Some have e: "w1 = w"
      "q = (let q2 = requeue wq key (ctl_queue s) in q2\<lparr>q_queue := wq_Done wq key (q_queue q2)\<rparr>)"
      by (simp_all add: finish_item_def split_key Let_def)
    from a have sub: "pending ?q \<subseteq># pending (wq_AddRateLimited wq key ?q)"
      "pending (wq_AddRateLimited wq key ?q) \<subseteq># add_mset key (pending ?q)" by simp_all
    have q: "q_queue q = wq_Done wq key (wq_AddRateLimited wq key ?q)"
      "set (q_requeued q) = insert key (set (q_requeued (ctl_queue s)))" "distinct (q_requeued q)"
      using i(4) by (simp_all add: e(2) Let_def)
    have d: "ok (q_queue q)" "pending (q_queue q) = pending (wq_AddRateLimited wq key ?q)"
      "processing (q_queue q) = {}" "\<not> is_down (q_queue q)"
      using a ad i(3) by (simp_all add: q(1))
    show ?thesis
      by (rule that [OF k i(6) run [unfolded e(1)] i(9) d(1,4,3) q(3)])
        (use i(5,7,8) a set_mset_mono [OF sub(1)] set_mset_mono [OF sub(2)] in \<open>auto simp: q(2) d(2)\<close>)
  qed
qed

lemma inv_step: "step s t \<Longrightarrow> inv s \<Longrightarrow> inv t"
proof (induction rule: controller_step.induct)
  case (event k s old et new store q)
  from event_pending [OF event.prems event.hyps(1,3,5)] event.prems event.hyps(1,4)
  show ?case by (auto simp: inv_def)
next
  case (take s key wqs)
  with get [of "q_queue (ctl_queue s)" key wqs]
  have g: "ok wqs" "pending (q_queue (ctl_queue s)) = add_mset key (pending wqs)" "processing wqs = {key}"
    "\<not> is_down wqs" by (auto simp: inv_def)
  with take show ?case by (auto simp: inv_def)
next
  case (finish s key store contents q w)
  note i = finish.prems
  have "ok (q_queue q)" "\<not> is_down (q_queue q)" "processing (q_queue q) = {}" "distinct (q_requeued q)"
    "set (q_requeued q) \<subseteq> set_mset (pending (q_queue q))"
    "set_mset (pending (q_queue q)) \<subseteq> remote_key ` Collect occurs"
    by (rule finish_cases [OF i finish.hyps(1,2)], assumption)+
  moreover have "world_ok w"
    by (rule finish_cases [OF i finish.hyps(1,2)]) (use reconciles in blast)
  ultimately show ?case using i by (simp add: inv_def)
next
  case (foreign s w)
  with foreign_mirror show ?case by (auto simp: inv_def)
qed (simp add: inv_def)

lemma inv_run: "run s0 s \<Longrightarrow> inv s0 \<Longrightarrow> inv s"
  by (induction rule: rtranclp_induct) (auto intro: inv_step)

text \<open>No step loses a change.\<close>

lemma level_step: "step s t \<Longrightarrow> inv s \<Longrightarrow> occurs k \<Longrightarrow> level k s \<Longrightarrow> level k t"
proof (induction rule: controller_step.induct)
  case (event k' s old et new store q)
  note e = event_pending [OF event.prems(1) event.hyps(1,3,5)]
  from event.prems event.hyps(1) show ?case
    by (cases "k' = k") (auto simp: level_def e(5) split: working.splits)
next
  case (take s key wqs)
  with get [of "q_queue (ctl_queue s)" key wqs]
  have "pending (q_queue (ctl_queue s)) = add_mset key (pending wqs)" by (auto simp: inv_def)
  with take show ?case by (auto simp: level_def)
next
  case (read s key)
  then show ?case by (auto simp: level_def split: if_splits)
next
  case (finish s key store contents q w)
  obtain k' r where f: "occurs k'" "key = remote_key k'" "reads store contents"
    "rf store (nn_name k') (nn_namespace k') (ctl_world s) = (r, w)" "world_ok (ctl_world s)"
    "set_mset (pending (q_queue (ctl_queue s))) \<subseteq> set_mset (pending (q_queue q))"
    "r \<noteq> Returned None \<Longrightarrow> key \<in># pending (q_queue q)"
    by (rule finish_cases [OF finish.prems(1) finish.hyps(1,2)]) blast
  note r = reconciles [OF f(1,3,5,4)]
  note before = finish.prems(3)
  show ?case
  proof (cases "remote_key k \<in># pending (q_queue q)")
    case True
    then show ?thesis by (simp add: level_def)
  next
    case False
    with f(6) have np: "remote_key k \<notin># pending (q_queue (ctl_queue s))" by auto
    show ?thesis
    proof (cases "k' = k")
      case True
      with before np finish.hyps(1) f(2) have "contents k = ctl_contents s k" by (simp add: level_def)
      moreover from False f(2,7) True have "r = Returned None" by blast
      ultimately show ?thesis using r True by (simp add: level_def)
    next
      case False
      with before np finish.hyps(1) f(1,2) finish.prems(2)
      have "matches (ctl_contents s k) (mirror (ctl_world s) k)" by (simp add: level_def)
      with r False finish.prems(2) show ?thesis by (simp add: level_def)
    qed
  qed
next
  case (foreign s w)
  from foreign have "world_ok (ctl_world s)" by (simp add: inv_def)
  with foreign_mirror foreign have "mirror w k = mirror (ctl_world s) k" by blast
  with foreign.prems(3) show ?case
    by (cases "ctl_working s") (auto simp: level_def split: if_splits)
qed

lemma level_run: "run s0 s \<Longrightarrow> inv s0 \<Longrightarrow> occurs k \<Longrightarrow> level k s0 \<Longrightarrow> level k s"
  by (induction rule: rtranclp_induct) (auto intro: level_step inv_run)

text \<open>
  A mirror that was there at the start is outside this until its object is first heard of: as
  long as the cache does not hold the object and its key was never queued, the mirror stays.
\<close>

definition level_or_untouched :: "NamespacedName \<Rightarrow> 'w \<Rightarrow> ('q, 'o, 'w) controller \<Rightarrow> bool" where
  "level_or_untouched k w0 s \<longleftrightarrow> level k s \<or>
     ctl_contents s k = None \<and> mirror (ctl_world s) k = mirror w0 k \<and> remote_key k \<notin> working_keys (ctl_working s)"

lemma untouched_step:
  assumes "step s t" "inv s" "occurs k" "level_or_untouched k w0 s"
  shows "level_or_untouched k w0 t"
proof (cases "level k s")
  case True
  with level_step [OF assms(1-3)] show ?thesis by (simp add: level_or_untouched_def)
next
  case False
  with assms(4) have u: "ctl_contents s k = None" "mirror (ctl_world s) k = mirror w0 k"
    "remote_key k \<notin> working_keys (ctl_working s)" "remote_key k \<notin># pending (q_queue (ctl_queue s))"
    by (simp_all add: level_or_untouched_def level_def)
  show ?thesis
    using assms(1)
  proof (cases rule: controller_step.cases)
    case (event k' old et new store q)
    from event_pending(5) [OF assms(2) event(2,4,6)] event(1) u show ?thesis
      by (cases "k' = k") (auto simp: level_or_untouched_def level_def)
  next
    case (take key wqs)
    have "ok (q_queue (ctl_queue s))" using assms(2) by (simp add: inv_def)
    from get [OF this take(3)] take(1) u show ?thesis by (auto simp: level_or_untouched_def)
  next
    case (read key)
    with u show ?thesis by (auto simp: level_or_untouched_def)
  next
    case (finish key store contents q w)
    obtain k' r where f: "occurs k'" "key = remote_key k'" "reads store contents"
      "rf store (nn_name k') (nn_namespace k') (ctl_world s) = (r, w)" "world_ok (ctl_world s)"
      by (rule finish_cases [OF assms(2) finish(2,3)]) blast
    from u(3) finish(2) f(2) have "k \<noteq> k'" by auto
    with reconciles [OF f(1,3,5,4)] assms(3) finish(1) u show ?thesis by (simp add: level_or_untouched_def)
  next
    case (foreign w)
    from assms(2) have "world_ok (ctl_world s)" by (simp add: inv_def)
    from foreign_mirror [OF this foreign(2)] assms(3) foreign(1) u show ?thesis
      by (simp add: level_or_untouched_def)
  qed
qed

lemma untouched_run:
  "run s0 s \<Longrightarrow> inv s0 \<Longrightarrow> occurs k \<Longrightarrow> level_or_untouched k w0 s0 \<Longrightarrow> level_or_untouched k w0 s"
  by (induction rule: rtranclp_induct) (auto intro: untouched_step inv_run)

text \<open>A key the cache has held is level from then on.\<close>

lemma held_level:
  assumes "run s0 s1" "inv s0" "occurs k" "level_or_untouched k w0 s0" "ctl_contents s1 k \<noteq> None"
  shows "level k s1"
  using untouched_run [OF assms(1-4)] assms(5) by (simp add: level_or_untouched_def)

text \<open>With the worker idle and nothing pending, every key the run started level on is mirrored.\<close>

lemma settled:
  assumes "run s0 s" "inv s0" "occurs k" "level k s0"
    and "ctl_working s = Idle" "pending (q_queue (ctl_queue s)) = {#}"
  shows "matches (ctl_contents s k) (mirror (ctl_world s) k)"
  using level_run [OF assms(1-4)] assms(5,6) by (simp add: level_def)

lemma level_cases:
  "level k s \<Longrightarrow>
   remote_key k \<in># pending (q_queue (ctl_queue s)) \<or> ctl_working s = Taken (remote_key k) \<or>
   (\<exists>store contents. ctl_working s = Reading (remote_key k) store contents \<and> contents k = ctl_contents s k) \<or>
   matches (ctl_contents s k) (mirror (ctl_world s) k)"
  by (auto simp: level_def split: working.splits if_splits)

end

subsection \<open>Settling\<close>

text \<open>Where reconciling succeeds, a worker left to itself settles.\<close>

locale settling_controller = level_controller +
  assumes succeeds:
    "occurs k \<Longrightarrow> reads store contents \<Longrightarrow> fst (rf store (nn_name k) (nn_namespace k) w) = Returned None"
begin

lemma one_key:
  assumes "occurs k" "reads store contents" "world_ok w"
  shows "world_ok (reconcile_key split (rf store) (remote_key k) w)"
    and "matches (contents k) (mirror (reconcile_key split (rf store) (remote_key k) w) k)"
    and "occurs k' \<Longrightarrow> k' \<noteq> k \<Longrightarrow> mirror (reconcile_key split (rf store) (remote_key k) w) k' = mirror w k'"
proof -
  obtain r w' where run: "rf store (nn_name k) (nn_namespace k) w = (r, w')" by force
  from succeeds [OF assms(1,2), of w] run have r: "r = Returned None" by simp
  have w': "reconcile_key split (rf store) (remote_key k) w = w'"
    using run by (simp add: reconcile_key_def split_key [OF assms(1)])
  from reconciles [OF assms run] r show "world_ok (reconcile_key split (rf store) (remote_key k) w)"
    "matches (contents k) (mirror (reconcile_key split (rf store) (remote_key k) w) k)"
    "occurs k' \<Longrightarrow> k' \<noteq> k \<Longrightarrow> mirror (reconcile_key split (rf store) (remote_key k) w) k' = mirror w k'"
    unfolding w' by blast+
qed

lemma fold_keys:
  assumes reads: "reads store contents" and w: "world_ok w"
  shows "set log \<subseteq> remote_key ` Collect occurs \<Longrightarrow>
    world_ok (fold (reconcile_key split (rf store)) log w) \<and>
    (occurs k \<longrightarrow> remote_key k \<in> set log \<or> matches (contents k) (mirror w k) \<longrightarrow>
     matches (contents k) (mirror (fold (reconcile_key split (rf store)) log w) k)) \<and>
    (occurs k \<longrightarrow> remote_key k \<notin> set log \<longrightarrow>
     mirror (fold (reconcile_key split (rf store)) log w) k = mirror w k)"
proof (induction log rule: rev_induct)
  case (snoc key log)
  then obtain k0 where k0: "occurs k0" "key = remote_key k0" by auto
  from snoc have w': "world_ok (fold (reconcile_key split (rf store)) log w)" by simp
  note one = one_key [OF k0(1) reads w', folded k0(2)]
  have "matches (contents k) (mirror (fold (reconcile_key split (rf store)) (log @ [key]) w) k)"
    if "occurs k" "remote_key k \<in> set (log @ [key]) \<or> matches (contents k) (mirror w k)"
  proof (cases "k = k0")
    case True
    with one(2) show ?thesis by simp
  next
    case False
    with snoc that k0 have "matches (contents k) (mirror (fold (reconcile_key split (rf store)) log w) k)" by auto
    with one(3) [OF that(1) False] show ?thesis by simp
  qed
  moreover have "mirror (fold (reconcile_key split (rf store)) (log @ [key]) w) k = mirror w k"
    if "occurs k" "remote_key k \<notin> set (log @ [key])"
  proof -
    from that k0 have "k \<noteq> k0" by auto
    from one(3) [OF that(1) this] snoc that show ?thesis by auto
  qed
  ultimately show ?case using one(1) by simp
qed (simp add: w)

lemma settles:
  assumes run: "run s0 s" "inv s0" and idle: "ctl_working s = Idle"
  shows "\<exists>log q w. process_items (size (pending (q_queue (ctl_queue s)))) wq split (rf (ctl_store s))
      (ctl_queue s) (ctl_world s) = (log, q, w) \<and> mset log = pending (q_queue (ctl_queue s)) \<and>
    pending (q_queue q) = {#} \<and> q_requeued q = [] \<and>
    (\<forall>k. occurs k \<longrightarrow> level k s0 \<longrightarrow> matches (ctl_contents s k) (mirror w k)) \<and>
    (\<forall>k. occurs k \<longrightarrow> level_or_untouched k w0 s0 \<longrightarrow> matches (ctl_contents s k) (mirror w k) \<or>
       ctl_contents s k = None \<and> mirror w k = mirror w0 k)"
proof -
  from inv_run [OF run] idle have ok: "worker_ok (ctl_queue s)" and reads: "reads (ctl_store s) (ctl_contents s)"
    and w: "world_ok (ctl_world s)"
    and keys: "set_mset (pending (q_queue (ctl_queue s))) \<subseteq> remote_key ` Collect occurs"
    by (auto simp: inv_def worker_ok_def)
  have "\<forall>key \<in># pending (q_queue (ctl_queue s)). key_succeeds split (rf (ctl_store s)) key"
    using keys succeeds [OF _ reads] by (auto simp: key_succeeds_def split_key)
  from process_items_drain [OF ok refl this, of "ctl_world s"] obtain log q where
    log: "process_items (size (pending (q_queue (ctl_queue s)))) wq split (rf (ctl_store s)) (ctl_queue s) (ctl_world s) =
      (log, q, fold (reconcile_key split (rf (ctl_store s))) log (ctl_world s))"
    "mset log = pending (q_queue (ctl_queue s))" "pending (q_queue q) = {#}" "q_requeued q = []"
    by blast
  from log(2) have set: "set log = set_mset (pending (q_queue (ctl_queue s)))" by (metis set_mset_mset)
  have "matches (ctl_contents s k) (mirror (fold (reconcile_key split (rf (ctl_store s))) log (ctl_world s)) k)"
    if "occurs k" "level k s0" for k
    using fold_keys [OF reads w, of log k] keys that level_run [OF run that] idle
    by (auto simp: set level_def)
  moreover have "matches (ctl_contents s k) (mirror (fold (reconcile_key split (rf (ctl_store s))) log (ctl_world s)) k) \<or>
      ctl_contents s k = None \<and> mirror (fold (reconcile_key split (rf (ctl_store s))) log (ctl_world s)) k = mirror w0 k"
    if "occurs k" "level_or_untouched k w0 s0" for k
    using fold_keys [OF reads w, of log k] keys that untouched_run [OF run that] idle
    by (cases "remote_key k \<in> set log") (auto simp: set level_def level_or_untouched_def)
  ultimately show ?thesis using log by blast
qed

end

end
