(* ===== verification/MirrorSystem.thy ===== *)
theory MirrorSystem
  imports Controller Reconciling
begin

text \<open>
  A mirror runner at work: the informers of its remote caches, its two queues and their workers,
  as controllers.  No change of a remote service or of remote endpoints is lost, and a worker
  that meets no failures leaves the local cluster mirroring the remote cache.
\<close>

subsection \<open>The mirrors of a runner\<close>

text \<open>The place of the mirror of a remote object, and the keys for which places are distinct.\<close>

definition mirror_key :: "('c, 'q) MirrorRunner \<Rightarrow> NamespacedName \<Rightarrow> NamespacedName" where
  "mirror_key mr k =
     NamespacedName (mr_namespace mr) (generateMirrorName (mr_prefix mr) (nn_namespace k) (nn_name k))"

definition proper_key :: "NamespacedName \<Rightarrow> bool" where
  "proper_key k \<longleftrightarrow> slash_free k \<and> \<not> sublist ''-73736d'' (nn_namespace k)"

lemma mirror_key_inj: "proper_key k \<Longrightarrow> proper_key k' \<Longrightarrow> mirror_key mr k = mirror_key mr k' \<longleftrightarrow> k = k'"
  using generateMirrorName_inj [of "mr_prefix mr" "nn_namespace k" "nn_name k" "nn_namespace k'" "nn_name k'"]
  by (auto simp: proper_key_def mirror_key_def intro: NamespacedName.expand)

text \<open>The mirror a remote service, or remote endpoints, should have: none for an object that is gone.\<close>

definition mirrors_service :: "Service option \<Rightarrow> Service option \<Rightarrow> bool" where
  "mirrors_service remote mirror \<longleftrightarrow>
     (case remote of
        None \<Rightarrow> mirror = None
      | Some svc \<Rightarrow> \<exists>m. mirror = Some m \<and> svc_ports m = svc_ports svc \<and> svc_selector m = Map.empty)"

definition mirrors_endpoints :: "Endpoints option \<Rightarrow> Endpoints option \<Rightarrow> bool" where
  "mirrors_endpoints remote mirror \<longleftrightarrow> map_option ep_subsets mirror = map_option ep_subsets remote"

text \<open>What others do: anything but change the mirrors of this runner.\<close>

definition spares_mirrors ::
  "('c, 'q) MirrorRunner \<Rightarrow> ('w \<Rightarrow> NamespacedName \<Rightarrow> 'm option) \<Rightarrow> 'w \<Rightarrow> 'w \<Rightarrow> bool" where
  "spares_mirrors mr view w w' \<longleftrightarrow> (\<forall>k. proper_key k \<longrightarrow> view w' (mirror_key mr k) = view w (mirror_key mr k))"

subsection \<open>The two controllers\<close>

text \<open>The runner when its service cache, or its endpoints cache, is a store.\<close>

definition with_services :: "cache_store \<Rightarrow> ('c, 'q) MirrorRunner \<Rightarrow> ('c, 'q) MirrorRunner" where
  "with_services store mr = mr\<lparr>mr_serviceWatcher := (mr_serviceWatcher mr)\<lparr>w_store := Some store\<rparr>\<rparr>"

definition with_endpoints :: "cache_store \<Rightarrow> ('c, 'q) MirrorRunner \<Rightarrow> ('c, 'q) MirrorRunner" where
  "with_endpoints store mr = mr\<lparr>mr_endpointsWatcher := (mr_endpointsWatcher mr)\<lparr>w_store := Some store\<rparr>\<rparr>"

text \<open>The informer's call of a callback of the watcher, by what it reports.\<close>

definition service_callback ::
  "('c, 'q) MirrorRunner \<Rightarrow> cache_store \<Rightarrow> EventType \<Rightarrow> Service option \<Rightarrow> Service option \<Rightarrow>
   'q queue \<Rightarrow> 'q queue outcome" where
  "service_callback mr store =
     (let w = mr_serviceWatcher (with_services store mr)
      in informer_call IService (ServiceWatcher_AddFunc w) (ServiceWatcher_UpdateFunc w) (ServiceWatcher_DeleteFunc w))"

definition endpoints_callback ::
  "('c, 'q) MirrorRunner \<Rightarrow> cache_store \<Rightarrow> EventType \<Rightarrow> Endpoints option \<Rightarrow> Endpoints option \<Rightarrow>
   'q queue \<Rightarrow> 'q queue outcome" where
  "endpoints_callback mr store =
     (let w = mr_endpointsWatcher (with_endpoints store mr)
      in informer_call IEndpoints (EndpointsWatcher_AddFunc w) (EndpointsWatcher_UpdateFunc w) (EndpointsWatcher_DeleteFunc w))"

definition service_run ::
  "'q library \<Rightarrow> ('w kube_client, 'q) MirrorRunner \<Rightarrow> ('w \<Rightarrow> NamespacedName \<Rightarrow> Service option) \<Rightarrow>
   ('q, Service, 'w) controller \<Rightarrow> ('q, Service, 'w) controller \<Rightarrow> bool" where
  "service_run lib mr view =
     controller_run (lib_workqueue lib) (lib_split lib) svc_meta (service_callback mr)
       (\<lambda>store. informer_cache store as_Service IService) (\<lambda>store. reconcileService (with_services store mr))
       proper_key (spares_mirrors mr view)"

definition endpoints_run ::
  "'q library \<Rightarrow> ('w kube_client, 'q) MirrorRunner \<Rightarrow> ('w \<Rightarrow> NamespacedName \<Rightarrow> Endpoints option) \<Rightarrow>
   ('q, Endpoints, 'w) controller \<Rightarrow> ('q, Endpoints, 'w) controller \<Rightarrow> bool" where
  "endpoints_run lib mr view =
     controller_run (lib_workqueue lib) (lib_split lib) ep_meta (endpoints_callback mr)
       (\<lambda>store. informer_cache store as_Endpoints IEndpoints) (\<lambda>store. reconcileEndpoints (with_endpoints store mr))
       proper_key (spares_mirrors mr view)"

text \<open>The start: the queue as it was made, nothing in the cache yet.\<close>

definition at_start :: "'q library \<Rightarrow> 'q queue \<Rightarrow> 'w \<Rightarrow> ('q, 'o, 'w) controller" where
  "at_start lib q w = \<lparr>ctl_queue = q, ctl_store = lib_new_store lib, ctl_contents = (\<lambda>_. None),
     ctl_working = Idle, ctl_world = w\<rparr>"

subsection \<open>The contract holds\<close>

text \<open>What client-go's queues and keys promise, a new queue being empty.\<close>

definition library_contract ::
  "'q library \<Rightarrow> ('q \<Rightarrow> string multiset) \<Rightarrow> ('q \<Rightarrow> string set) \<Rightarrow> ('q \<Rightarrow> bool) \<Rightarrow> ('q \<Rightarrow> bool) \<Rightarrow> bool" where
  "library_contract lib pending processing is_down ok \<longleftrightarrow>
     workqueue_client (lib_workqueue lib) pending processing is_down ok \<and>
     key_laws (lib_keyfunc lib) (lib_split lib) \<and>
     (\<forall>name. ok (lib_newqueue lib name) \<and> \<not> is_down (lib_newqueue lib name) \<and>
        processing (lib_newqueue lib name) = {} \<and> pending (lib_newqueue lib name) = {#})"

lemma with_store_sel [simp]:
  "mr_client (with_services store mr) = mr_client mr" "mr_client (with_endpoints store mr) = mr_client mr"
  "mr_namespace (with_services store mr) = mr_namespace mr" "mr_namespace (with_endpoints store mr) = mr_namespace mr"
  "mr_prefix (with_services store mr) = mr_prefix mr" "mr_prefix (with_endpoints store mr) = mr_prefix mr"
  "w_store (mr_serviceWatcher (with_services store mr)) = Some store"
  "w_store (mr_endpointsWatcher (with_endpoints store mr)) = Some store"
  "w_eventHandler (mr_serviceWatcher (with_services store mr)) = w_eventHandler (mr_serviceWatcher mr)"
  "w_eventHandler (mr_endpointsWatcher (with_endpoints store mr)) = w_eventHandler (mr_endpointsWatcher mr)"
  "mirror_key (with_services store mr) = mirror_key mr" "mirror_key (with_endpoints store mr) = mirror_key mr"
  by (simp_all add: with_services_def with_endpoints_def mirror_key_def fun_eq_iff)

lemma proper_slash_free: "proper_key k \<Longrightarrow> slash_free k"
  by (simp add: proper_key_def)

lemma split_remote_key:
  "key_laws kf split \<Longrightarrow> slash_free k \<Longrightarrow> split (remote_key k) = Inr (nn_namespace k, nn_name k)"
  by (simp add: key_laws_def slash_free_def remote_key_def)

lemma queue_Add_remote_key:
  assumes "key_laws kf split" "slash_free k" "iface_meta obj = Some m" "meta_key m = k"
  shows "queue_Add wq kf obj q = q\<lparr>q_queue := wq_Add wq (remote_key k) (q_queue q)\<rparr>"
  using assms by (auto simp: key_laws_def slash_free_def meta_key_def remote_key_def queue_Add_def)

text \<open>Whatever the callback, the key of the object is added.\<close>

lemma informer_call_adds:
  assumes "w_eventHandler w = Some (queue_event lib to_iface)" "w_store w \<noteq> None"
    and "key_laws (lib_keyfunc lib) split" "slash_free k" "cache_change meta k et old new"
    and "\<And>obj. as_o (to_iface obj) = Some obj" "\<And>obj. iface_meta (to_iface obj) = Some (meta obj)"
  shows "informer_call to_iface (watcher_AddFunc as_o kind w) (watcher_UpdateFunc as_o kind w)
      (watcher_DeleteFunc as_o kind w) et old new q =
    Returned (q\<lparr>q_queue := wq_Add (lib_workqueue lib) (remote_key k) (q_queue q)\<rparr>)"
  using assms(1,2,5,6) queue_Add_remote_key [OF assms(3,4,7)]
  by (auto simp: cache_change_def informer_call_def watcher_AddFunc_def watcher_UpdateFunc_def
      watcher_DeleteFunc_def handleEvent_def queue_event_def Let_def split: EventType.splits option.splits)

lemma service_callback_adds:
  assumes "w_eventHandler (mr_serviceWatcher mr) = Some (mr_ServiceEventHandler lib)"
    and "key_laws (lib_keyfunc lib) split" "slash_free k" "cache_change svc_meta k et old new"
  shows "service_callback mr store et old new q =
    Returned (q\<lparr>q_queue := wq_Add (lib_workqueue lib) (remote_key k) (q_queue q)\<rparr>)"
  unfolding service_callback_def Let_def watcher_instances
  by (rule informer_call_adds [where meta = svc_meta, OF _ _ assms(2-4)]) (use assms(1) in \<open>simp_all add: mr_ServiceEventHandler_def\<close>)

lemma endpoints_callback_adds:
  assumes "w_eventHandler (mr_endpointsWatcher mr) = Some (mr_EndpointsEventHandler lib)"
    and "key_laws (lib_keyfunc lib) split" "slash_free k" "cache_change ep_meta k et old new"
  shows "endpoints_callback mr store et old new q =
    Returned (q\<lparr>q_queue := wq_Add (lib_workqueue lib) (remote_key k) (q_queue q)\<rparr>)"
  unfolding endpoints_callback_def Let_def watcher_instances
  by (rule informer_call_adds [where meta = ep_meta, OF _ _ assms(2-4)]) (use assms(1) in \<open>simp_all add: mr_EndpointsEventHandler_def\<close>)

text \<open>What a reconciliation reads: the cache's object, or that there is none.\<close>

context informer_cache begin

lemma lookup:
  "w_store w = Some store \<Longrightarrow> slash_free k \<Longrightarrow>
   watcher_Get as_o resource w (nn_name k) (nn_namespace k) =
     Returned (case contents k of
       None \<Rightarrow> Inl (NotFound resource (remote_key k)) | Some obj \<Rightarrow> Inr obj)"
  unfolding slash_free_def remote_key_def
  using watcher_Get_eq [of w "nn_namespace k" resource "nn_name k"] by simp

end

lemma service_lookup:
  assumes "informer_cache store as_Service IService contents" "slash_free k"
  shows "mr_getRemoteService (with_services store mr) (nn_name k) (nn_namespace k) =
    Returned (case contents k of
      None \<Rightarrow> Inl (NotFound ''service'' (remote_key k)) | Some svc \<Rightarrow> Inr svc)"
  unfolding mr_getRemoteService_def ServiceWatcher_Get_def
  by (rule informer_cache.lookup [OF assms(1) _ assms(2)]) simp

lemma endpoints_lookup:
  assumes "informer_cache store as_Endpoints IEndpoints contents" "slash_free k"
  shows "mr_getRemoteEndpoints (with_endpoints store mr) (nn_name k) (nn_namespace k) =
    Returned (case contents k of
      None \<Rightarrow> Inl (NotFound ''endpoints'' (remote_key k)) | Some e \<Rightarrow> Inr e)"
  unfolding mr_getRemoteEndpoints_def EndpointsWatcher_Get_def
  by (rule informer_cache.lookup [OF assms(1) _ assms(2)]) simp

text \<open>API servers that store the ports and the selector, or the subsets, they are given.\<close>

definition keeps_service :: "(Service option \<Rightarrow> Service \<Rightarrow> Service) \<Rightarrow> bool" where
  "keeps_service admit \<longleftrightarrow>
     (\<forall>old new. svc_ports (admit old new) = svc_ports new \<and> svc_selector (admit old new) = svc_selector new)"

definition keeps_endpoints :: "(Endpoints option \<Rightarrow> Endpoints \<Rightarrow> Endpoints) \<Rightarrow> bool" where
  "keeps_endpoints admit \<longleftrightarrow> (\<forall>old new. ep_subsets (admit old new) = ep_subsets new)"

lemma service_reconciled:
  assumes client: "resource_client (Services (mr_client mr)) view svc_meta admit" and keeps: "keeps_service admit"
    and reads: "informer_cache store as_Service IService contents" and k: "proper_key k"
    and run: "reconcileService (with_services store mr) (nn_name k) (nn_namespace k) w = (r, w')"
  shows "True \<and> (r = Returned None \<longrightarrow> mirrors_service (contents k) (view w' (mirror_key mr k))) \<and>
    (\<forall>k'. proper_key k' \<longrightarrow> k' \<noteq> k \<longrightarrow> view w' (mirror_key mr k') = view w (mirror_key mr k'))"
proof -
  have client': "resource_client (Services (mr_client (with_services store mr))) view svc_meta admit"
    using client by simp
  have here: "mirror_key mr k = NamespacedName (mr_namespace (with_services store mr))
      (generateMirrorName (mr_prefix (with_services store mr)) (nn_namespace k) (nn_name k))"
    by (simp add: mirror_key_def)
  note spec = reconcileService_spec [OF client' service_lookup [OF reads proper_slash_free [OF k]] refl here run]
  have "mirrors_service (contents k) (mirrored_service admit (with_services store mr) m
      (case contents k of None \<Rightarrow> Inl e | Some svc \<Rightarrow> Inr svc) old)" for m e old
    using keeps by (auto simp: keeps_service_def mirrors_service_def mirrored_service_def mirror_service_def
        split: option.split)
  with spec mirror_key_inj [OF _ k, of _ mr] show ?thesis by auto
qed

lemma endpoints_reconciled:
  assumes client: "resource_client (EndpointsOf (mr_client mr)) view ep_meta admit" and keeps: "keeps_endpoints admit"
    and reads: "informer_cache store as_Endpoints IEndpoints contents" and k: "proper_key k"
    and run: "reconcileEndpoints (with_endpoints store mr) (nn_name k) (nn_namespace k) w = (r, w')"
  shows "True \<and> (r = Returned None \<longrightarrow> mirrors_endpoints (contents k) (view w' (mirror_key mr k))) \<and>
    (\<forall>k'. proper_key k' \<longrightarrow> k' \<noteq> k \<longrightarrow> view w' (mirror_key mr k') = view w (mirror_key mr k'))"
proof -
  have client': "resource_client (EndpointsOf (mr_client (with_endpoints store mr))) view ep_meta admit"
    using client by simp
  have here: "mirror_key mr k = NamespacedName (mr_namespace (with_endpoints store mr))
      (generateMirrorName (mr_prefix (with_endpoints store mr)) (nn_namespace k) (nn_name k))"
    by (simp add: mirror_key_def)
  note spec = reconcileEndpoints_spec [OF client' endpoints_lookup [OF reads proper_slash_free [OF k]] refl here run]
  have "mirrors_endpoints (contents k) (mirrored_endpoints admit (with_endpoints store mr) m
      (case contents k of None \<Rightarrow> Inl e | Some eps \<Rightarrow> Inr eps) old)" for m e old
    using keeps by (auto simp: keeps_endpoints_def mirrors_endpoints_def mirrored_endpoints_def mirror_endpoints_def
        split: option.split)
  with spec mirror_key_inj [OF _ k, of _ mr] show ?thesis by auto
qed

lemma services_controller:
  assumes lib: "library_contract lib pending processing is_down ok"
    and client: "resource_client (Services (mr_client mr)) view svc_meta admit" "keeps_service admit"
    and handler: "w_eventHandler (mr_serviceWatcher mr) = Some (mr_ServiceEventHandler lib)"
  shows "level_controller (lib_workqueue lib) pending processing is_down ok (lib_split lib) svc_meta
    (service_callback mr) (\<lambda>store. informer_cache store as_Service IService)
    (\<lambda>store. reconcileService (with_services store mr)) proper_key (spares_mirrors mr view)
    (\<lambda>w k. view w (mirror_key mr k)) mirrors_service (\<lambda>_. True)"
proof -
  from lib have wq: "workqueue_client (lib_workqueue lib) pending processing is_down ok"
    and laws: "key_laws (lib_keyfunc lib) (lib_split lib)" by (simp_all add: library_contract_def)
  show ?thesis
  proof (intro level_controller.intro wq level_controller_axioms.intro)
    show "spares_mirrors mr view w w' \<Longrightarrow>
        True \<and> (\<forall>k. proper_key k \<longrightarrow> view w' (mirror_key mr k) = view w (mirror_key mr k))" for w w'
      by (simp add: spares_mirrors_def)
  qed (fact proper_slash_free split_remote_key [OF laws proper_slash_free]
      service_callback_adds [OF handler laws proper_slash_free] |
    rule service_reconciled [OF client], assumption+)+
qed

lemma endpoints_controller:
  assumes lib: "library_contract lib pending processing is_down ok"
    and client: "resource_client (EndpointsOf (mr_client mr)) view ep_meta admit" "keeps_endpoints admit"
    and handler: "w_eventHandler (mr_endpointsWatcher mr) = Some (mr_EndpointsEventHandler lib)"
  shows "level_controller (lib_workqueue lib) pending processing is_down ok (lib_split lib) ep_meta
    (endpoints_callback mr) (\<lambda>store. informer_cache store as_Endpoints IEndpoints)
    (\<lambda>store. reconcileEndpoints (with_endpoints store mr)) proper_key (spares_mirrors mr view)
    (\<lambda>w k. view w (mirror_key mr k)) mirrors_endpoints (\<lambda>_. True)"
proof -
  from lib have wq: "workqueue_client (lib_workqueue lib) pending processing is_down ok"
    and laws: "key_laws (lib_keyfunc lib) (lib_split lib)" by (simp_all add: library_contract_def)
  show ?thesis
  proof (intro level_controller.intro wq level_controller_axioms.intro)
    show "spares_mirrors mr view w w' \<Longrightarrow>
        True \<and> (\<forall>k. proper_key k \<longrightarrow> view w' (mirror_key mr k) = view w (mirror_key mr k))" for w w'
      by (simp add: spares_mirrors_def)
  qed (fact proper_slash_free split_remote_key [OF laws proper_slash_free]
      endpoints_callback_adds [OF handler laws proper_slash_free] |
    rule endpoints_reconciled [OF client], assumption+)+
qed

text \<open>Where requests succeed.\<close>

lemma services_settling:
  assumes lib: "library_contract lib pending processing is_down ok"
    and client: "reliable_client (Services (mr_client mr)) view svc_meta admit" "keeps_service admit"
    and handler: "w_eventHandler (mr_serviceWatcher mr) = Some (mr_ServiceEventHandler lib)"
  shows "settling_controller (lib_workqueue lib) pending processing is_down ok (lib_split lib) svc_meta
    (service_callback mr) (\<lambda>store. informer_cache store as_Service IService)
    (\<lambda>store. reconcileService (with_services store mr)) proper_key (spares_mirrors mr view)
    (\<lambda>w k. view w (mirror_key mr k)) mirrors_service (\<lambda>_. True)"
proof (intro settling_controller.intro settling_controller_axioms.intro)
  from client(1) have "resource_client (Services (mr_client mr)) view svc_meta admit"
    by (simp add: reliable_client_def)
  from services_controller [OF lib this client(2) handler]
  show "level_controller (lib_workqueue lib) pending processing is_down ok (lib_split lib) svc_meta
    (service_callback mr) (\<lambda>store. informer_cache store as_Service IService)
    (\<lambda>store. reconcileService (with_services store mr)) proper_key (spares_mirrors mr view)
    (\<lambda>w k. view w (mirror_key mr k)) mirrors_service (\<lambda>_. True)" .
next
  fix k store contents w
  assume k: "proper_key k" and reads: "informer_cache store as_Service IService contents"
  show "fst (reconcileService (with_services store mr) (nn_name k) (nn_namespace k) w) = Returned None"
    by (rule reconcileService_returns [OF _ service_lookup [OF reads proper_slash_free [OF k]]])
      (use client(1) in \<open>auto split: option.splits\<close>)
qed

lemma newMirrorRunner_controllers [simp]:
  "mr_client (newMirrorRunner lib client watchClient name ns p sel resync sync) = client"
  "w_eventHandler (mr_serviceWatcher (newMirrorRunner lib client watchClient name ns p sel resync sync)) =
     Some (mr_ServiceEventHandler lib)"
  "w_eventHandler (mr_endpointsWatcher (newMirrorRunner lib client watchClient name ns p sel resync sync)) =
     Some (mr_EndpointsEventHandler lib)"
  "mr_serviceQueue (newMirrorRunner lib client watchClient name ns p sel resync sync) =
     newQueue (name @ ''-service'') (lib_newqueue lib (name @ ''-service''))"
  "mr_endpointsQueue (newMirrorRunner lib client watchClient name ns p sel resync sync) =
     newQueue (name @ ''-endpoints'') (lib_newqueue lib (name @ ''-endpoints''))"
  by (simp_all add: newMirrorRunner_def newWatcher_def watcher_Init_def Let_def)

lemma start_ok:
  assumes lib: "library_contract lib pending processing is_down ok"
    and level: "level_controller (lib_workqueue lib) pending processing is_down ok split meta deliver reads rf occurs
      foreign mirror matches world_ok"
    and store: "reads (lib_new_store lib) (\<lambda>_. None)" and w: "world_ok w"
  shows "level_controller.inv pending processing is_down ok reads occurs world_ok
      (at_start lib (newQueue name (lib_newqueue lib name)) w)"
    and "matches None (mirror w k) \<Longrightarrow>
      level_controller.level pending mirror matches k (at_start lib (newQueue name (lib_newqueue lib name)) w)"
proof -
  show "level_controller.inv pending processing is_down ok reads occurs world_ok
      (at_start lib (newQueue name (lib_newqueue lib name)) w)"
    unfolding at_start_def
    by (rule level_controller.inv_start [OF level])
      (use lib store w in \<open>simp_all add: library_contract_def newQueue_def\<close>)
  show "matches None (mirror w k) \<Longrightarrow>
      level_controller.level pending mirror matches k (at_start lib (newQueue name (lib_newqueue lib name)) w)"
    by (simp add: level_controller.level_def [OF level] at_start_def)
qed

subsection \<open>On the in-memory library\<close>

lemma mem_contract: "library_contract mem_library mem_pending mq_processing mq_down mem_ok"
  using mem_wq.workqueue_client_axioms key_functions_laws
  by (simp add: library_contract_def mem_library_def mem_queue_empty_def mem_ok_def mem_pending_def)

lemma mem_start_store:
  "informer_cache (lib_new_store mem_library) as_Service IService (\<lambda>_. None)"
  "informer_cache (lib_new_store mem_library) as_Endpoints IEndpoints (\<lambda>_. None)"
  by (unfold_locales; simp add: mem_library_def cache_of_def cache_entries_def)+

lemma submitted_kept [simp]: "keeps_service as_submitted" "keeps_endpoints as_submitted"
  by (simp_all add: keeps_service_def keeps_endpoints_def)

abbreviation mem_mirror ::
  "string \<Rightarrow> string \<Rightarrow> string \<Rightarrow> string \<Rightarrow> int \<Rightarrow> bool \<Rightarrow> (cluster kube_client, mem_queue) MirrorRunner" where
  "mem_mirror \<equiv> newMirrorRunner mem_library mem_client mem_client"

interpretation mem_services: settling_controller "lib_workqueue mem_library" mem_pending mq_processing mq_down mem_ok
  "lib_split mem_library" svc_meta "service_callback (mem_mirror name ns p sel resync sync)"
  "\<lambda>store. informer_cache store as_Service IService"
  "\<lambda>store. reconcileService (with_services store (mem_mirror name ns p sel resync sync))" proper_key
  "spares_mirrors (mem_mirror name ns p sel resync sync) services_view"
  "\<lambda>w k. services_view w (mirror_key (mem_mirror name ns p sel resync sync) k)" mirrors_service "\<lambda>_. True"
  for name ns p sel resync sync
  by (rule services_settling [where admit = as_submitted, OF mem_contract]) (simp_all add: mem_svc.reliable_client_axioms)

interpretation mem_endpoints: level_controller "lib_workqueue mem_library" mem_pending mq_processing mq_down mem_ok
  "lib_split mem_library" ep_meta "endpoints_callback (mem_mirror name ns p sel resync sync)"
  "\<lambda>store. informer_cache store as_Endpoints IEndpoints"
  "\<lambda>store. reconcileEndpoints (with_endpoints store (mem_mirror name ns p sel resync sync))" proper_key
  "spares_mirrors (mem_mirror name ns p sel resync sync) endpoints_view"
  "\<lambda>w k. endpoints_view w (mirror_key (mem_mirror name ns p sel resync sync) k)" mirrors_endpoints "\<lambda>_. True"
  for name ns p sel resync sync
  by (rule endpoints_controller [where admit = as_submitted, OF mem_contract]) (simp_all add: mem_ep.resource_client_axioms)

text \<open>A run in which one service is added, and one in which its endpoints are.\<close>

abbreviation web :: NamespacedName where "web \<equiv> NamespacedName ''shop'' ''web''"

lemma web_proper: "proper_key web" "remote_key web = ''shop/web''"
  by (simp_all add: proper_key_def slash_free_def remote_key_def sublist_code)

definition web_added :: "'q queue \<Rightarrow> cache_store \<Rightarrow> 'o \<Rightarrow> 'w \<Rightarrow> ('q, 'o, 'w) controller" where
  "web_added q store obj w = \<lparr>ctl_queue = q, ctl_store = store, ctl_contents = [web \<mapsto> obj],
     ctl_working = Idle, ctl_world = w\<rparr>"

abbreviation one_pending :: "string \<Rightarrow> mem_queue queue" where
  "one_pending name \<equiv> newQueue name (mem_queue_empty\<lparr>mq_queue := [''shop/web''], mq_dirty := {''shop/web''}\<rparr>)"

lemma mem_added: "q\<lparr>q_queue := wq_Add mem_workqueue ''shop/web'' mem_queue_empty\<rparr> =
    q\<lparr>q_queue := mem_queue_empty\<lparr>mq_queue := [''shop/web''], mq_dirty := {''shop/web''}\<rparr>\<rparr>"
  by (simp add: mem_queue_simps mem_queue_empty_def)

lemma service_added_run:
  "service_run mem_library (mem_mirror ''b'' ''home'' ''pfx'' [] 0 True) services_view
     (at_start mem_library (mr_serviceQueue (mem_mirror ''b'' ''home'' ''pfx'' [] 0 True)) empty_cluster)
     (web_added (one_pending ''b-service'') (cache_of svc_meta IService [plain_service ''web'' ''shop''])
        (plain_service ''web'' ''shop'') empty_cluster)"
proof -
  let ?mr = "mem_mirror ''b'' ''home'' ''pfx'' [] 0 True"
  let ?s = "at_start mem_library (mr_serviceQueue ?mr) empty_cluster :: (mem_queue, Service, cluster) controller"
  have change: "cache_change svc_meta web Added None (Some (plain_service ''web'' ''shop''))"
    by (simp add: cache_change_def plain_service_def meta_key_def)
  have contents: "cache_contents svc_meta [plain_service ''web'' ''shop''] =
      (ctl_contents ?s)(web := Some (plain_service ''web'' ''shop''))"
    by (auto simp: cache_contents_def cache_entries_def plain_service_def at_start_def)
  have call: "service_callback ?mr store Added None (Some (plain_service ''web'' ''shop'')) (ctl_queue ?s) =
      Returned (one_pending ''b-service'')" for store
    by (subst service_callback_adds [where lib = mem_library and split = SplitMetaNamespaceKey, OF _ _ proper_slash_free [OF web_proper(1)] change])
      (simp_all add: at_start_def web_proper(2) mem_library_def key_functions_laws newQueue_def mem_queue_simps
        mem_queue_empty_def)
  have old: "ctl_contents ?s web = None" by (simp add: at_start_def)
  note e = controller_step.event [where reads = "\<lambda>store. informer_cache store as_Service IService" and
      deliver = "service_callback ?mr" and occurs = proper_key, OF web_proper(1) old change
      svc_cache.informer_cache_axioms [of "[plain_service ''web'' ''shop'']", unfolded contents] call]
  show ?thesis
    unfolding service_run_def
    by (rule r_into_rtranclp) (use e in \<open>simp add: at_start_def web_added_def\<close>)
qed

lemma endpoints_added_run:
  "endpoints_run mem_library (mem_mirror ''b'' ''home'' ''pfx'' [] 0 True) endpoints_view
     (at_start mem_library (mr_endpointsQueue (mem_mirror ''b'' ''home'' ''pfx'' [] 0 True)) empty_cluster)
     (web_added (one_pending ''b-endpoints'') (cache_of ep_meta IEndpoints [plain_endpoints ''web'' ''shop''])
        (plain_endpoints ''web'' ''shop'') empty_cluster)"
proof -
  let ?mr = "mem_mirror ''b'' ''home'' ''pfx'' [] 0 True"
  let ?s = "at_start mem_library (mr_endpointsQueue ?mr) empty_cluster :: (mem_queue, Endpoints, cluster) controller"
  have change: "cache_change ep_meta web Added None (Some (plain_endpoints ''web'' ''shop''))"
    by (simp add: cache_change_def plain_endpoints_def meta_key_def)
  have contents: "cache_contents ep_meta [plain_endpoints ''web'' ''shop''] =
      (ctl_contents ?s)(web := Some (plain_endpoints ''web'' ''shop''))"
    by (auto simp: cache_contents_def cache_entries_def plain_endpoints_def at_start_def)
  have call: "endpoints_callback ?mr store Added None (Some (plain_endpoints ''web'' ''shop'')) (ctl_queue ?s) =
      Returned (one_pending ''b-endpoints'')" for store
    by (subst endpoints_callback_adds [where lib = mem_library and split = SplitMetaNamespaceKey, OF _ _ proper_slash_free [OF web_proper(1)] change])
      (simp_all add: at_start_def web_proper(2) mem_library_def key_functions_laws newQueue_def mem_queue_simps
        mem_queue_empty_def)
  have old: "ctl_contents ?s web = None" by (simp add: at_start_def)
  note e = controller_step.event [where reads = "\<lambda>store. informer_cache store as_Endpoints IEndpoints" and
      deliver = "endpoints_callback ?mr" and occurs = proper_key, OF web_proper(1) old change
      ep_cache.informer_cache_axioms [of "[plain_endpoints ''web'' ''shop'']", unfolded contents] call]
  show ?thesis
    unfolding endpoints_run_def
    by (rule r_into_rtranclp) (use e in \<open>simp add: at_start_def web_added_def\<close>)
qed

lemma mem_svc_client: "resource_client (Services mem_client) services_view svc_meta as_submitted"
  and mem_ep_client: "resource_client (EndpointsOf mem_client) endpoints_view ep_meta as_submitted"
  and mem_svc_reliable: "reliable_client (Services mem_client) services_view svc_meta as_submitted"
  by (simp_all add: mem_svc.resource_client_axioms mem_ep.resource_client_axioms mem_svc.reliable_client_axioms)

lemma no_mirrors_at_start:
  "services_view empty_cluster k = None" "endpoints_view empty_cluster k = None"
  by (simp_all add: empty_cluster_def placed_def)

subsection \<open>No change is lost\<close>

text \<open>C6: at any point of any run of a mirror runner, with remote services that come, change and go, requests
  that fail, and others that change the cluster elsewhere, each service either has its key
  pending, or is being reconciled with what the cache holds, or is mirrored as the cache holds
  it, provided its mirror did not exist at the start.\<close>

theorem no_service_change_lost:
  assumes lib: "library_contract lib pending processing is_down ok"
    and store: "informer_cache (lib_new_store lib) as_Service IService (\<lambda>_. None)"
    and client: "resource_client (Services client) view svc_meta admit" "keeps_service admit"
    and mr: "mr = newMirrorRunner lib client watchClient name ns p sel resync sync"
    and run: "service_run lib mr view (at_start lib (mr_serviceQueue mr) w0) s"
    and k: "proper_key k" "view w0 (mirror_key mr k) = None"
  shows "remote_key k \<in># pending (q_queue (ctl_queue s)) \<or> ctl_working s = Taken (remote_key k) \<or>
    (\<exists>store c. ctl_working s = Reading (remote_key k) store c \<and> c k = ctl_contents s k) \<or>
    mirrors_service (ctl_contents s k) (view (ctl_world s) (mirror_key mr k))"
proof -
  have level: "level_controller (lib_workqueue lib) pending processing is_down ok (lib_split lib) svc_meta
      (service_callback mr) (\<lambda>store. informer_cache store as_Service IService)
      (\<lambda>store. reconcileService (with_services store mr)) proper_key (spares_mirrors mr view)
      (\<lambda>w k. view w (mirror_key mr k)) mirrors_service (\<lambda>_. True)"
    by (rule services_controller [OF lib _ client(2)]) (simp_all add: mr client(1))
  note start = start_ok [where name = "name @ ''-service''" and w = w0, OF lib level store TrueI]
  show ?thesis
    by (rule level_controller.level_cases [OF level level_controller.level_run [OF level _ start(1) k(1) start(2)]])
      (use run k(2) in \<open>simp_all add: service_run_def mr mirrors_service_def\<close>)
qed

theorem no_service_change_lost_witness:
  "\<exists>s. service_run mem_library (mem_mirror ''b'' ''home'' ''pfx'' [] 0 True) services_view
     (at_start mem_library (mr_serviceQueue (mem_mirror ''b'' ''home'' ''pfx'' [] 0 True)) empty_cluster) s \<and>
   ctl_contents s web \<noteq> None \<and> ''shop/web'' \<in># mem_pending (q_queue (ctl_queue s))"
proof -
  let ?s = "web_added (one_pending ''b-service'') (cache_of svc_meta IService [plain_service ''web'' ''shop''])
        (plain_service ''web'' ''shop'') empty_cluster"
  have "ctl_working ?s = Idle" "ctl_contents ?s web = Some (plain_service ''web'' ''shop'')"
    "ctl_world ?s = empty_cluster"
    by (simp_all add: web_added_def)
  moreover have "\<not> mirrors_service (Some (plain_service ''web'' ''shop'')) (services_view empty_cluster k)" for k
    by (simp add: mirrors_service_def no_mirrors_at_start)
  ultimately show ?thesis
    using service_added_run web_proper
      no_service_change_lost [OF mem_contract mem_start_store(1) mem_svc_client submitted_kept(1) refl
        service_added_run web_proper(1) no_mirrors_at_start(1)]
    by (intro exI [of _ ?s]) simp
qed

text \<open>C8: the same for endpoints.\<close>

theorem no_endpoints_change_lost:
  assumes lib: "library_contract lib pending processing is_down ok"
    and store: "informer_cache (lib_new_store lib) as_Endpoints IEndpoints (\<lambda>_. None)"
    and client: "resource_client (EndpointsOf client) view ep_meta admit" "keeps_endpoints admit"
    and mr: "mr = newMirrorRunner lib client watchClient name ns p sel resync sync"
    and run: "endpoints_run lib mr view (at_start lib (mr_endpointsQueue mr) w0) s"
    and k: "proper_key k" "view w0 (mirror_key mr k) = None"
  shows "remote_key k \<in># pending (q_queue (ctl_queue s)) \<or> ctl_working s = Taken (remote_key k) \<or>
    (\<exists>store c. ctl_working s = Reading (remote_key k) store c \<and> c k = ctl_contents s k) \<or>
    mirrors_endpoints (ctl_contents s k) (view (ctl_world s) (mirror_key mr k))"
proof -
  have level: "level_controller (lib_workqueue lib) pending processing is_down ok (lib_split lib) ep_meta
      (endpoints_callback mr) (\<lambda>store. informer_cache store as_Endpoints IEndpoints)
      (\<lambda>store. reconcileEndpoints (with_endpoints store mr)) proper_key (spares_mirrors mr view)
      (\<lambda>w k. view w (mirror_key mr k)) mirrors_endpoints (\<lambda>_. True)"
    by (rule endpoints_controller [OF lib _ client(2)]) (simp_all add: mr client(1))
  note start = start_ok [where name = "name @ ''-endpoints''" and w = w0, OF lib level store TrueI]
  show ?thesis
    by (rule level_controller.level_cases [OF level level_controller.level_run [OF level _ start(1) k(1) start(2)]])
      (use run k(2) in \<open>simp_all add: endpoints_run_def mr mirrors_endpoints_def\<close>)
qed

theorem no_endpoints_change_lost_witness:
  "\<exists>s. endpoints_run mem_library (mem_mirror ''b'' ''home'' ''pfx'' [] 0 True) endpoints_view
     (at_start mem_library (mr_endpointsQueue (mem_mirror ''b'' ''home'' ''pfx'' [] 0 True)) empty_cluster) s \<and>
   ctl_contents s web \<noteq> None \<and> ''shop/web'' \<in># mem_pending (q_queue (ctl_queue s))"
proof -
  let ?s = "web_added (one_pending ''b-endpoints'') (cache_of ep_meta IEndpoints [plain_endpoints ''web'' ''shop''])
        (plain_endpoints ''web'' ''shop'') empty_cluster"
  have "ctl_working ?s = Idle" "ctl_contents ?s web = Some (plain_endpoints ''web'' ''shop'')"
    "ctl_world ?s = empty_cluster"
    by (simp_all add: web_added_def)
  moreover have "\<not> mirrors_endpoints (Some (plain_endpoints ''web'' ''shop'')) (endpoints_view empty_cluster k)" for k
    by (simp add: mirrors_endpoints_def no_mirrors_at_start)
  ultimately show ?thesis
    using endpoints_added_run web_proper
      no_endpoints_change_lost [OF mem_contract mem_start_store(2) mem_ep_client submitted_kept(2) refl
        endpoints_added_run web_proper(1) no_mirrors_at_start(2)]
    by (intro exI [of _ ?s]) simp
qed

text \<open>C7: from any point of any such run between two items, whatever mirrors the local cluster held at
  the start, a worker left to itself on a cluster that answers requests takes each pending key, as
  often as it is pending, and then the local cluster mirrors the cache for every service the cache
  has held at any point of the run: those it holds now are mirrored, those that are gone have no
  mirror.  For a service it never held there is either no mirror, or the one of the start is left
  as it was.  No key is left pending or requeued.\<close>

theorem mirrored_services_settle:
  assumes lib: "library_contract lib pending processing is_down ok"
    and store: "informer_cache (lib_new_store lib) as_Service IService (\<lambda>_. None)"
    and client: "reliable_client (Services client) view svc_meta admit" "keeps_service admit"
    and mr: "mr = newMirrorRunner lib client watchClient name ns p sel resync sync"
    and run: "service_run lib mr view (at_start lib (mr_serviceQueue mr) w0) s" and idle: "ctl_working s = Idle"
  shows "\<exists>log q w. process_items (size (pending (q_queue (ctl_queue s)))) (lib_workqueue lib) (lib_split lib)
      (reconcileService (with_services (ctl_store s) mr)) (ctl_queue s) (ctl_world s) = (log, q, w) \<and>
    mset log = pending (q_queue (ctl_queue s)) \<and> pending (q_queue q) = {#} \<and> q_requeued q = [] \<and>
    (\<forall>k. proper_key k \<longrightarrow> mirrors_service (ctl_contents s k) (view w (mirror_key mr k)) \<or>
       ctl_contents s k = None \<and> view w (mirror_key mr k) = view w0 (mirror_key mr k)) \<and>
    (\<forall>s1 k. service_run lib mr view (at_start lib (mr_serviceQueue mr) w0) s1 \<longrightarrow> service_run lib mr view s1 s \<longrightarrow>
       proper_key k \<longrightarrow> ctl_contents s1 k \<noteq> None \<longrightarrow> mirrors_service (ctl_contents s k) (view w (mirror_key mr k)))"
proof -
  have settling: "settling_controller (lib_workqueue lib) pending processing is_down ok (lib_split lib) svc_meta
      (service_callback mr) (\<lambda>store. informer_cache store as_Service IService)
      (\<lambda>store. reconcileService (with_services store mr)) proper_key (spares_mirrors mr view)
      (\<lambda>w k. view w (mirror_key mr k)) mirrors_service (\<lambda>_. True)"
    by (rule services_settling [OF lib _ client(2)]) (simp_all add: mr client(1))
  then have level: "level_controller (lib_workqueue lib) pending processing is_down ok (lib_split lib) svc_meta
      (service_callback mr) (\<lambda>store. informer_cache store as_Service IService)
      (\<lambda>store. reconcileService (with_services store mr)) proper_key (spares_mirrors mr view)
      (\<lambda>w k. view w (mirror_key mr k)) mirrors_service (\<lambda>_. True)"
    by (simp add: settling_controller_def)
  note start = start_ok [where name = "name @ ''-service''" and w = w0, OF lib level store TrueI]
  from run have run': "controller_run (lib_workqueue lib) (lib_split lib) svc_meta (service_callback mr)
      (\<lambda>store. informer_cache store as_Service IService) (\<lambda>store. reconcileService (with_services store mr))
      proper_key (spares_mirrors mr view)
      (at_start lib (newQueue (name @ ''-service'') (lib_newqueue lib (name @ ''-service''))) w0) s"
    by (simp add: service_run_def mr)
  have untouched: "level_controller.level_or_untouched pending (\<lambda>w k. view w (mirror_key mr k)) mirrors_service k w0
      (at_start lib (newQueue (name @ ''-service'') (lib_newqueue lib (name @ ''-service''))) w0)" for k
    by (simp add: level_controller.level_or_untouched_def [OF level] at_start_def)
  from settling_controller.settles [OF settling run' start(1) idle, of w0] untouched obtain log q w where
    settled: "process_items (size (pending (q_queue (ctl_queue s)))) (lib_workqueue lib) (lib_split lib)
      (reconcileService (with_services (ctl_store s) mr)) (ctl_queue s) (ctl_world s) = (log, q, w)"
    "mset log = pending (q_queue (ctl_queue s))" "pending (q_queue q) = {#}" "q_requeued q = []"
    "\<forall>k. proper_key k \<longrightarrow> mirrors_service (ctl_contents s k) (view w (mirror_key mr k)) \<or>
       ctl_contents s k = None \<and> view w (mirror_key mr k) = view w0 (mirror_key mr k)" by blast
  have held: "mirrors_service (ctl_contents s k) (view w (mirror_key mr k))"
    if s1: "service_run lib mr view (at_start lib (mr_serviceQueue mr) w0) s1" "service_run lib mr view s1 s"
      and k: "proper_key k" "ctl_contents s1 k \<noteq> None" for s1 k
  proof -
    have r0: "controller_run (lib_workqueue lib) (lib_split lib) svc_meta (service_callback mr)
        (\<lambda>store. informer_cache store as_Service IService) (\<lambda>store. reconcileService (with_services store mr))
        proper_key (spares_mirrors mr view)
        (at_start lib (newQueue (name @ ''-service'') (lib_newqueue lib (name @ ''-service''))) w0) s1"
      using s1(1) by (simp add: service_run_def mr)
    note i1 = level_controller.inv_run [OF level r0 start(1)]
    note l1 = level_controller.held_level [OF level r0 start(1) k(1) untouched k(2)]
    from settling_controller.settles [OF settling s1(2) [unfolded service_run_def] i1 idle, of w0] settled(1) l1 k(1)
    show ?thesis by auto
  qed
  show ?thesis using settled held by blast
qed

theorem mirrored_services_settle_witness:
  "\<exists>log q w m. process_items 1 mem_workqueue SplitMetaNamespaceKey
      (reconcileService (with_services (cache_of svc_meta IService [plain_service ''web'' ''shop''])
        (mem_mirror ''b'' ''home'' ''pfx'' [] 0 True))) (one_pending ''b-service'') empty_cluster = (log, q, w) \<and>
    services_view w (NamespacedName ''home'' ''pfx-shop-73736d-web'') = Some m \<and>
    svc_ports m = svc_ports (plain_service ''web'' ''shop'')"
proof -
  let ?mr = "mem_mirror ''b'' ''home'' ''pfx'' [] 0 True"
  let ?s = "web_added (one_pending ''b-service'') (cache_of svc_meta IService [plain_service ''web'' ''shop''])
        (plain_service ''web'' ''shop'') empty_cluster"
  have s: "ctl_working ?s = Idle" "ctl_contents ?s web = Some (plain_service ''web'' ''shop'')"
    "ctl_world ?s = empty_cluster" "ctl_queue ?s = one_pending ''b-service''"
    "ctl_store ?s = cache_of svc_meta IService [plain_service ''web'' ''shop'']"
    by (simp_all add: web_added_def)
  have pend: "size (mem_pending (q_queue (one_pending ''b-service''))) = 1"
    by (simp add: newQueue_def mem_pending_def mem_queue_empty_def)
  obtain log q w where
    run: "process_items (size (mem_pending (q_queue (ctl_queue ?s)))) (lib_workqueue mem_library)
      (lib_split mem_library) (reconcileService (with_services (ctl_store ?s) ?mr)) (ctl_queue ?s) (ctl_world ?s) =
        (log, q, w)"
    and all: "\<forall>k. proper_key k \<longrightarrow> mirrors_service (ctl_contents ?s k) (services_view w (mirror_key ?mr k)) \<or>
       ctl_contents ?s k = None \<and> services_view w (mirror_key ?mr k) = services_view empty_cluster (mirror_key ?mr k)"
    using mirrored_services_settle [OF mem_contract mem_start_store(1) mem_svc_reliable submitted_kept(1) refl
        service_added_run s(1)] by blast
  have place: "mirror_key ?mr web = NamespacedName ''home'' ''pfx-shop-73736d-web''"
    by (simp add: mirror_key_def generateMirrorName_eq newMirrorRunner_def Let_def)
  from all [rule_format, OF web_proper(1)] s(2) place
  have "\<exists>m. services_view w (NamespacedName ''home'' ''pfx-shop-73736d-web'') = Some m \<and>
      svc_ports m = svc_ports (plain_service ''web'' ''shop'')"
    by (auto simp: mirrors_service_def)
  with run show ?thesis unfolding s pend by auto
qed

end
