(* ===== verification/SliceSystem.thy ===== *)
theory SliceSystem
  imports MirrorSystem SliceMirroring
begin

text \<open>
  The endpoint slices of a global runner as a controller.  The world of its worker is the runner,
  whose label map each reconciliation writes, with the local cluster.  Mirrored slices keep the
  name of the remote one behind \<open>gl-\<close>, so that the slices that occur must differ in their names,
  which is what the code relies on Kubernetes for.
\<close>

subsection \<open>The controller\<close>

definition with_slices :: "cache_store \<Rightarrow> ('c, 'q) GlobalRunner \<Rightarrow> ('c, 'q) GlobalRunner" where
  "with_slices store gr = gr\<lparr>gr_endpointSliceWatcher := (gr_endpointSliceWatcher gr)\<lparr>w_store := Some store\<rparr>\<rparr>"

definition slice_callback ::
  "('c, 'q) GlobalRunner \<Rightarrow> cache_store \<Rightarrow> EventType \<Rightarrow> EndpointSlice option \<Rightarrow> EndpointSlice option \<Rightarrow>
   'q queue \<Rightarrow> 'q queue outcome" where
  "slice_callback gr store =
     (let w = gr_endpointSliceWatcher (with_slices store gr)
      in informer_call IEndpointSlice (EndpointSliceWatcher_AddFunc w) (EndpointSliceWatcher_UpdateFunc w) (EndpointSliceWatcher_DeleteFunc w))"

definition slice_reconcile ::
  "ForZone list \<Rightarrow> cache_store \<Rightarrow> (('w kube_client, 'q) GlobalRunner \<times> 'w) queueReconcileFunc" where
  "slice_reconcile zones store name ns = (\<lambda>(gr, w). reconcileEndpointSlice zones name ns (with_slices store gr, w))"

text \<open>A cache of slices, each under its own name.\<close>

definition slice_cache :: "cache_store \<Rightarrow> (NamespacedName \<Rightarrow> EndpointSlice option) \<Rightarrow> bool" where
  "slice_cache store contents \<longleftrightarrow>
     informer_cache store as_EndpointSlice IEndpointSlice contents \<and>
     (\<forall>k s. contents k = Some s \<longrightarrow> meta_key (eps_meta s) = k)"

text \<open>The slices that occur: no two of a name.\<close>

definition slice_keys :: "NamespacedName set \<Rightarrow> bool" where
  "slice_keys K \<longleftrightarrow> inj_on nn_name K \<and> (\<forall>k \<in> K. slash_free k)"

definition slice_place :: "('c, 'q) GlobalRunner \<Rightarrow> NamespacedName \<Rightarrow> NamespacedName" where
  "slice_place gr k = NamespacedName (gr_namespace gr) (generateGlobalEndpointSliceName (nn_name k))"

text \<open>
  The mirror a remote slice should have: none where it is gone, else one with its addresses and
  ports, the hints of the runner, and the labels that tie it to the global service.
\<close>

definition mirrors_slice ::
  "ForZone list \<Rightarrow> ('c, 'q) GlobalRunner \<Rightarrow> EndpointSlice option \<Rightarrow> EndpointSlice option \<Rightarrow> bool" where
  "mirrors_slice zones gr remote mirror \<longleftrightarrow>
     (case remote of
        None \<Rightarrow> mirror = None
      | Some s \<Rightarrow> \<exists>svc m. service_label s = Some svc \<and> mirror = Some m \<and>
          obj_labels (eps_meta m) = mirror_labels gr (generateGlobalServiceName svc (eps_namespace s)) \<and>
          eps_addressType m = eps_addressType s \<and> eps_ports m = eps_ports s \<and>
          eps_endpoints m = ensureEndpointSliceZones zones gr (eps_endpoints s))"

text \<open>What stays of the runner.\<close>

definition same_runner :: "('c, 'q) GlobalRunner \<Rightarrow> ('c, 'q) GlobalRunner \<Rightarrow> bool" where
  "same_runner gr gr' \<longleftrightarrow>
     gr_client gr' = gr_client gr \<and> gr_namespace gr' = gr_namespace gr \<and> gr_local gr' = gr_local gr \<and>
     mirror_labels gr' = mirror_labels gr"

text \<open>Others may change the world, not the runner, and not the mirrors of its slices.\<close>

definition spares_slices ::
  "('w kube_client, 'q) GlobalRunner \<Rightarrow> NamespacedName set \<Rightarrow> ('w \<Rightarrow> NamespacedName \<Rightarrow> EndpointSlice option) \<Rightarrow>
   ('w kube_client, 'q) GlobalRunner \<times> 'w \<Rightarrow> ('w kube_client, 'q) GlobalRunner \<times> 'w \<Rightarrow> bool" where
  "spares_slices gr K view s s' \<longleftrightarrow> fst s' = fst s \<and>
     (\<forall>k \<in> K. view (snd s') (slice_place gr k) = view (snd s) (slice_place gr k))"

definition slice_run ::
  "'q library \<Rightarrow> ForZone list \<Rightarrow> ('w kube_client, 'q) GlobalRunner \<Rightarrow> NamespacedName set \<Rightarrow>
   ('w \<Rightarrow> NamespacedName \<Rightarrow> EndpointSlice option) \<Rightarrow>
   ('q, EndpointSlice, ('w kube_client, 'q) GlobalRunner \<times> 'w) controller \<Rightarrow>
   ('q, EndpointSlice, ('w kube_client, 'q) GlobalRunner \<times> 'w) controller \<Rightarrow> bool" where
  "slice_run lib zones gr K view =
     controller_run (lib_workqueue lib) (lib_split lib) eps_meta (slice_callback gr) slice_cache
       (slice_reconcile zones) (\<lambda>k. k \<in> K) (spares_slices gr K view)"

text \<open>API servers that store the labels, the endpoints and the ports they are given.\<close>

definition keeps_slice :: "(EndpointSlice option \<Rightarrow> EndpointSlice \<Rightarrow> EndpointSlice) \<Rightarrow> bool" where
  "keeps_slice admit \<longleftrightarrow>
     (\<forall>old new. obj_labels (eps_meta (admit old new)) = obj_labels (eps_meta new) \<and>
        eps_addressType (admit old new) = eps_addressType new \<and> eps_ports (admit old new) = eps_ports new \<and>
        eps_endpoints (admit old new) = eps_endpoints new)"

subsection \<open>The contract holds\<close>

lemma with_slices_sel [simp]:
  "gr_client (with_slices store gr) = gr_client gr" "gr_namespace (with_slices store gr) = gr_namespace gr"
  "gr_local (with_slices store gr) = gr_local gr" "mirror_labels (with_slices store gr) = mirror_labels gr"
  "w_store (gr_endpointSliceWatcher (with_slices store gr)) = Some store"
  "w_eventHandler (gr_endpointSliceWatcher (with_slices store gr)) = w_eventHandler (gr_endpointSliceWatcher gr)"
  by (simp_all add: with_slices_def mirror_labels_def fun_eq_iff)

lemma slice_place_inj: "slice_keys K \<Longrightarrow> k \<in> K \<Longrightarrow> k' \<in> K \<Longrightarrow> slice_place gr k = slice_place gr k' \<longleftrightarrow> k = k'"
  by (auto simp: slice_keys_def slice_place_def generateGlobalEndpointSliceName_def dest: inj_onD)

lemma same_runner_trans: "same_runner gr gr1 \<Longrightarrow> same_but_labels gr1 gr2 \<Longrightarrow> mirror_labels gr2 = mirror_labels gr1 \<Longrightarrow>
   same_runner gr gr2"
  unfolding same_runner_def same_but_labels_def by (metis GlobalRunner.select_convs GlobalRunner.surjective GlobalRunner.update_convs)

lemma slice_callback_adds:
  assumes "w_eventHandler (gr_endpointSliceWatcher gr) = Some (gr_EndpointSliceEventHandler lib)"
    and "key_laws (lib_keyfunc lib) split" "slash_free k" "cache_change eps_meta k et old new"
  shows "slice_callback gr store et old new q =
    Returned (q\<lparr>q_queue := wq_Add (lib_workqueue lib) (remote_key k) (q_queue q)\<rparr>)"
  unfolding slice_callback_def Let_def watcher_instances
  by (rule informer_call_adds [where meta = eps_meta, OF _ _ assms(2-4)]) (use assms(1) in \<open>simp_all add: gr_EndpointSliceEventHandler_def\<close>)

lemma slice_lookup:
  assumes "slice_cache store contents" "slash_free k"
  shows "getRemoteEndpointSlice (with_slices store gr) (nn_name k) (nn_namespace k) =
    Returned (case contents k of
      None \<Rightarrow> Inl (NotFound ''endpointslice'' (remote_key k)) | Some s \<Rightarrow> Inr s)"
  unfolding getRemoteEndpointSlice_def EndpointSliceWatcher_Get_def
  by (rule informer_cache.lookup [where to_iface = IEndpointSlice, OF _ _ assms(2)])
    (use assms(1) in \<open>simp_all add: slice_cache_def\<close>)

lemma mirrored_slice_fields:
  "obj_labels (eps_meta (mirrored_slice zones g m target s)) = mirror_labels g target"
  "eps_addressType (mirrored_slice zones g m target s) = eps_addressType s"
  "eps_ports (mirrored_slice zones g m target s) = eps_ports s"
  "gr_local g = gr_local gr \<Longrightarrow>
     eps_endpoints (mirrored_slice zones g m target s) = ensureEndpointSliceZones zones gr (eps_endpoints s)"
  by (simp_all add: mirrored_slice_def mirror_labels_def ensureEndpointSliceZones_def)

lemma slice_reconciled:
  assumes client: "resource_client (EndpointSlices (gr_client gr)) view eps_meta admit" and keeps: "keeps_slice admit"
    and K: "slice_keys K" "k \<in> K" and reads: "slice_cache store contents"
    and same: "same_runner gr (fst s)"
    and run: "slice_reconcile zones store (nn_name k) (nn_namespace k) s = (r, s')"
  shows "same_runner gr (fst s') \<and>
    (r = Returned None \<longrightarrow> mirrors_slice zones gr (contents k) (view (snd s') (slice_place gr k))) \<and>
    (\<forall>k'. k' \<in> K \<longrightarrow> k' \<noteq> k \<longrightarrow> view (snd s') (slice_place gr k') = view (snd s) (slice_place gr k'))"
proof -
  obtain g w g' w' where s: "s = (g, w)" "s' = (g', w')" by (metis prod.exhaust)
  let ?g = "with_slices store g"
  from same s have g: "gr_client ?g = gr_client gr" "gr_namespace ?g = gr_namespace gr" "gr_local ?g = gr_local gr"
    "mirror_labels ?g = mirror_labels gr" by (simp_all add: same_runner_def)
  have k: "slash_free k" using K by (simp add: slice_keys_def)
  have here: "slice_place gr k = NamespacedName (gr_namespace ?g) (generateGlobalEndpointSliceName (nn_name k))"
    using g(2) by (simp add: slice_place_def)
  from run s have run': "reconcileEndpointSlice zones (nn_name k) (nn_namespace k) (?g, w) = (r, (g', w'))"
    by (simp add: slice_reconcile_def)
  note spec = reconcileEndpointSlice_spec [OF client [folded g(1)] slice_lookup [OF reads k] refl here run']
  have "same_runner gr (fst s')"
    using same_runner_trans [of gr ?g g'] g spec reconcileEndpointSlice_labels [OF run'] s
    by (simp add: same_runner_def)
  moreover have "mirrors_slice zones gr (contents k) (view w' (slice_place gr k))" if r: "r = Returned None"
  proof (cases "contents k")
    case None
    with spec r show ?thesis by (simp add: mirrors_slice_def)
  next
    case (Some slice)
    with reads have "meta_key (eps_meta slice) = k" by (simp add: slice_cache_def)
    then have "eps_namespace slice = nn_namespace k" by (auto simp: meta_key_def eps_namespace_def)
    with Some spec r keeps g(4) mirrored_slice_fields(4) [OF g(3)] show ?thesis
      by (auto simp: mirrors_slice_def keeps_slice_def mirrored_slice_fields(1,2,3))
  qed
  moreover have "view w' (slice_place gr k') = view w (slice_place gr k')" if "k' \<in> K" "k' \<noteq> k" for k'
    using spec slice_place_inj [OF K(1) that(1) K(2), of gr] that(2) by simp
  ultimately show ?thesis by (simp add: s)
qed

lemma slices_controller:
  assumes lib: "library_contract lib pending processing is_down ok"
    and client: "resource_client (EndpointSlices (gr_client gr)) view eps_meta admit" "keeps_slice admit"
    and handler: "w_eventHandler (gr_endpointSliceWatcher gr) = Some (gr_EndpointSliceEventHandler lib)"
    and K: "slice_keys K"
  shows "level_controller (lib_workqueue lib) pending processing is_down ok (lib_split lib) eps_meta
    (slice_callback gr) slice_cache (slice_reconcile zones) (\<lambda>k. k \<in> K) (spares_slices gr K view)
    (\<lambda>s k. view (snd s) (slice_place gr k)) (mirrors_slice zones gr) (\<lambda>s. same_runner gr (fst s))"
proof -
  from lib have wq: "workqueue_client (lib_workqueue lib) pending processing is_down ok"
    and laws: "key_laws (lib_keyfunc lib) (lib_split lib)" by (simp_all add: library_contract_def)
  have free: "k \<in> K \<Longrightarrow> slash_free k" for k using K by (simp add: slice_keys_def)
  show ?thesis
  proof (intro level_controller.intro wq level_controller_axioms.intro)
    show "same_runner gr (fst w) \<Longrightarrow> spares_slices gr K view w w' \<Longrightarrow> same_runner gr (fst w') \<and>
        (\<forall>k. k \<in> K \<longrightarrow> view (snd w') (slice_place gr k) = view (snd w) (slice_place gr k))" for w w'
      by (simp add: spares_slices_def)
  qed (fact free split_remote_key [OF laws free] slice_callback_adds [OF handler laws free] |
    rule slice_reconciled [OF client K], assumption+)+
qed

subsection \<open>On the in-memory library\<close>

lemma same_runner_refl [simp]: "same_runner gr gr"
  by (simp add: same_runner_def)

lemma newGlobalRunner_slices [simp]:
  "gr_client (newGlobalRunner lib client watchClient name ns sel resync loc rsl sync) = client"
  "w_eventHandler (gr_endpointSliceWatcher (newGlobalRunner lib client watchClient name ns sel resync loc rsl sync)) =
     Some (gr_EndpointSliceEventHandler lib)"
  "gr_endpointSliceQueue (newGlobalRunner lib client watchClient name ns sel resync loc rsl sync) =
     newQueue (name @ ''-endpointslice'') (lib_newqueue lib (name @ ''-endpointslice''))"
  by (simp_all add: newGlobalRunner_def newWatcher_def watcher_Init_def Let_def)

lemma mem_slice_cache: "slice_cache (lib_new_store mem_library) (\<lambda>_. None)"
  by (simp add: slice_cache_def) (unfold_locales; simp add: mem_library_def cache_of_def cache_entries_def)

lemma submitted_keeps_slice [simp]: "keeps_slice as_submitted"
  by (simp add: keeps_slice_def)

abbreviation mem_slice_runner ::
  "string \<Rightarrow> string \<Rightarrow> string \<Rightarrow> int \<Rightarrow> bool \<Rightarrow> (go_map \<Rightarrow> bool) \<Rightarrow> bool \<Rightarrow> (cluster kube_client, mem_queue) GlobalRunner" where
  "mem_slice_runner \<equiv> newGlobalRunner mem_library mem_client mem_client"

lemma web_keys: "slice_keys {web}"
  by (simp add: slice_keys_def proper_slash_free [OF web_proper(1)])

interpretation mem_slice_controller: level_controller "lib_workqueue mem_library" mem_pending mq_processing mq_down mem_ok
  "lib_split mem_library" eps_meta "slice_callback (mem_slice_runner name ns sel resync loc rsl sync)" slice_cache
  "slice_reconcile zones" "\<lambda>k. k \<in> {web}" "spares_slices (mem_slice_runner name ns sel resync loc rsl sync) {web} slices_view"
  "\<lambda>s k. slices_view (snd s) (slice_place (mem_slice_runner name ns sel resync loc rsl sync) k)"
  "mirrors_slice zones (mem_slice_runner name ns sel resync loc rsl sync)"
  "\<lambda>s. same_runner (mem_slice_runner name ns sel resync loc rsl sync) (fst s)"
  for name ns sel resync loc rsl sync zones
  by (rule slices_controller [where admit = as_submitted, OF mem_contract _ _ _ web_keys])
    (simp_all add: mem_eps.resource_client_axioms)

lemma slice_added_run:
  defines "gr \<equiv> mem_slice_runner ''b'' ''home'' [] 0 False (\<lambda>_. False) False"
  shows "slice_run mem_library zones gr {web} slices_view
     (at_start mem_library (gr_endpointSliceQueue gr) (gr, empty_cluster))
     (web_added (one_pending ''b-endpointslice'') (cache_of eps_meta IEndpointSlice [plain_slice ''web'' ''shop'' ''web''])
        (plain_slice ''web'' ''shop'' ''web'') (gr, empty_cluster))"
proof -
  let ?slice = "plain_slice ''web'' ''shop'' ''web''"
  let ?s = "at_start mem_library (gr_endpointSliceQueue gr) (gr, empty_cluster) ::
    (mem_queue, EndpointSlice, (cluster kube_client, mem_queue) GlobalRunner \<times> cluster) controller"
  have change: "cache_change eps_meta web Added None (Some ?slice)"
    by (simp add: cache_change_def plain_slice_def meta_key_def)
  have "cache_contents eps_meta [?slice] = (ctl_contents ?s)(web := Some ?slice)"
    by (auto simp: cache_contents_def cache_entries_def plain_slice_def at_start_def)
  with eps_cache.informer_cache_axioms [of "[?slice]"]
  have reads: "slice_cache (cache_of eps_meta IEndpointSlice [?slice]) ((ctl_contents ?s)(web := Some ?slice))"
    by (simp add: slice_cache_def at_start_def) (simp add: plain_slice_def meta_key_def)
  have q: "ctl_queue ?s = newQueue ''b-endpointslice'' mem_queue_empty"
    by (simp add: at_start_def gr_def) (simp add: mem_library_def)
  have call: "slice_callback gr store Added None (Some ?slice) (ctl_queue ?s) =
      Returned (one_pending ''b-endpointslice'')" for store
    unfolding q
    by (subst slice_callback_adds [where lib = mem_library and split = SplitMetaNamespaceKey,
          OF _ _ proper_slash_free [OF web_proper(1)] change])
      (simp_all add: gr_def web_proper(2) key_functions_laws newQueue_def mem_queue_simps mem_queue_empty_def)
  have old: "ctl_contents ?s web = None" by (simp add: at_start_def)
  note e = controller_step.event [where deliver = "slice_callback gr" and reads = slice_cache and
      occurs = "\<lambda>k. k \<in> {web}", OF insertI1 old change reads call]
  show ?thesis
    unfolding slice_run_def
    by (rule r_into_rtranclp) (use e in \<open>simp add: at_start_def web_added_def\<close>)
qed

subsection \<open>No change is lost\<close>

text \<open>C9: at any point of any run of the slices of a global runner, with slices that come, change and go,
  requests that fail, and others that change the cluster elsewhere, each slice whose mirror did
  not exist at the start has its key pending, or is being reconciled with what the cache holds,
  or is mirrored as the cache holds it, provided no two slices have one name.\<close>

theorem no_slice_change_lost:
  assumes lib: "library_contract lib pending processing is_down ok"
    and store: "slice_cache (lib_new_store lib) (\<lambda>_. None)"
    and client: "resource_client (EndpointSlices client) view eps_meta admit" "keeps_slice admit"
    and gr: "gr = newGlobalRunner lib client watchClient name ns sel resync loc rsl sync"
    and K: "slice_keys K" "k \<in> K"
    and run: "slice_run lib zones gr K view (at_start lib (gr_endpointSliceQueue gr) (gr, w0)) s"
    and absent: "view w0 (slice_place gr k) = None"
  shows "remote_key k \<in># pending (q_queue (ctl_queue s)) \<or> ctl_working s = Taken (remote_key k) \<or>
    (\<exists>store c. ctl_working s = Reading (remote_key k) store c \<and> c k = ctl_contents s k) \<or>
    mirrors_slice zones gr (ctl_contents s k) (view (snd (ctl_world s)) (slice_place gr k))"
proof -
  have level: "level_controller (lib_workqueue lib) pending processing is_down ok (lib_split lib) eps_meta
      (slice_callback gr) slice_cache (slice_reconcile zones) (\<lambda>k. k \<in> K) (spares_slices gr K view)
      (\<lambda>s k. view (snd s) (slice_place gr k)) (mirrors_slice zones gr) (\<lambda>s. same_runner gr (fst s))"
    by (rule slices_controller [OF lib _ client(2) _ K(1)]) (simp_all add: gr client(1))
  have same: "same_runner gr (fst (gr, w0))" by simp
  note start = start_ok [where name = "name @ ''-endpointslice''", OF lib level store same]
  show ?thesis
    by (rule level_controller.level_cases [OF level level_controller.level_run [OF level _ start(1) K(2) start(2)]])
      (use run absent in \<open>simp_all add: slice_run_def gr mirrors_slice_def\<close>)
qed

theorem no_slice_change_lost_witness:
  "\<exists>s. slice_run mem_library [] (mem_slice_runner ''b'' ''home'' [] 0 False (\<lambda>_. False) False) {web} slices_view
     (at_start mem_library (gr_endpointSliceQueue (mem_slice_runner ''b'' ''home'' [] 0 False (\<lambda>_. False) False))
        (mem_slice_runner ''b'' ''home'' [] 0 False (\<lambda>_. False) False, empty_cluster)) s \<and>
   ctl_contents s web \<noteq> None \<and> ''shop/web'' \<in># mem_pending (q_queue (ctl_queue s))"
proof -
  let ?slice = "plain_slice ''web'' ''shop'' ''web''"
  let ?gr = "mem_slice_runner ''b'' ''home'' [] 0 False (\<lambda>_. False) False"
  let ?s = "web_added (one_pending ''b-endpointslice'') (cache_of eps_meta IEndpointSlice [?slice]) ?slice (?gr, empty_cluster)"
  have s: "ctl_working ?s = Idle" "ctl_contents ?s web = Some ?slice" "ctl_world ?s = (?gr, empty_cluster)"
    by (simp_all add: web_added_def)
  have client: "resource_client (EndpointSlices mem_client) slices_view eps_meta as_submitted"
    by (simp add: mem_eps.resource_client_axioms)
  have absent: "slices_view empty_cluster k = None" for k by (simp add: empty_cluster_def placed_def)
  then have "\<not> mirrors_slice [] ?gr (Some ?slice) (slices_view empty_cluster k)" for k
    by (simp add: mirrors_slice_def)
  then have "''shop/web'' \<in># mem_pending (q_queue (ctl_queue ?s))"
    using no_slice_change_lost [OF mem_contract mem_slice_cache client submitted_keeps_slice refl web_keys insertI1
        slice_added_run [of "[]"] absent] s by (simp add: web_proper(2))
  with slice_added_run s(2) show ?thesis by blast
qed

end
