(* ===== verification/GlobalSystem.thy ===== *)
theory GlobalSystem
  imports MirrorSystem GlobalTargets
begin

text \<open>
  The global runners at work: each is a controller with its own cache, queue and worker, and all
  share the store of global services and the local cluster.  To one runner the steps of the others
  are foreign steps.  Once all are settled the store lists exactly the clusters whose cache holds a
  service, and the local cluster has the global service of each entry.
\<close>

subsection \<open>One runner\<close>

abbreviation global_name :: "NamespacedName \<Rightarrow> string" where
  "global_name k \<equiv> generateGlobalServiceName (nn_name k) (nn_namespace k)"

lemma global_name_inj: "proper_key k \<Longrightarrow> proper_key k' \<Longrightarrow> global_name k = global_name k' \<longleftrightarrow> k = k'"
  using generateGlobalServiceName_inj [of "nn_name k" "nn_namespace k" "nn_name k'" "nn_namespace k'"]
  by (auto simp: proper_key_def intro: NamespacedName.expand)

text \<open>The runner when its service cache is a store.\<close>

definition with_global_services :: "cache_store \<Rightarrow> ('c, 'q) GlobalRunner \<Rightarrow> ('c, 'q) GlobalRunner" where
  "with_global_services store gr = gr\<lparr>gr_serviceWatcher := (gr_serviceWatcher gr)\<lparr>w_store := Some store\<rparr>\<rparr>"

definition global_callback ::
  "('c, 'q) GlobalRunner \<Rightarrow> cache_store \<Rightarrow> EventType \<Rightarrow> Service option \<Rightarrow> Service option \<Rightarrow>
   'q queue \<Rightarrow> 'q queue outcome" where
  "global_callback gr store =
     (let w = gr_serviceWatcher (with_global_services store gr)
      in informer_call IService (ServiceWatcher_AddFunc w) (ServiceWatcher_UpdateFunc w) (ServiceWatcher_DeleteFunc w))"

text \<open>A cache of services, each under its own name.\<close>

definition service_cache :: "cache_store \<Rightarrow> (NamespacedName \<Rightarrow> Service option) \<Rightarrow> bool" where
  "service_cache store contents \<longleftrightarrow>
     informer_cache store as_Service IService contents \<and>
     (\<forall>k svc. contents k = Some svc \<longrightarrow> meta_key (svc_meta svc) = k)"

text \<open>What the runner keeps: whether its cluster is among those of the entry.\<close>

definition listed :: "string \<Rightarrow> GlobalServiceStore \<times> 'w \<Rightarrow> NamespacedName \<Rightarrow> unit option" where
  "listed c s k = (if c \<in> targets (fst s) (global_name k) then Some () else None)"

definition listed_iff_there :: "'o option \<Rightarrow> unit option \<Rightarrow> bool" where
  "listed_iff_there remote l \<longleftrightarrow> (remote = None \<longleftrightarrow> l = None)"

definition spares_listing :: "string \<Rightarrow> GlobalServiceStore \<times> 'w \<Rightarrow> GlobalServiceStore \<times> 'w \<Rightarrow> bool" where
  "spares_listing c s s' \<longleftrightarrow> store_inv (fst s') \<and> (\<forall>k. proper_key k \<longrightarrow> listed c s' k = listed c s k)"

abbreviation global_step ::
  "'q library \<Rightarrow> ('w kube_client, 'q) GlobalRunner \<Rightarrow>
   (GlobalServiceStore \<times> 'w \<Rightarrow> GlobalServiceStore \<times> 'w \<Rightarrow> bool) \<Rightarrow>
   ('q, Service, GlobalServiceStore \<times> 'w) controller \<Rightarrow> ('q, Service, GlobalServiceStore \<times> 'w) controller \<Rightarrow> bool" where
  "global_step lib gr \<equiv>
     controller_step (lib_workqueue lib) (lib_split lib) svc_meta (global_callback gr) service_cache
       (\<lambda>store. reconcileGlobalService lib (with_global_services store gr)) proper_key"

lemma with_global_services_sel [simp]:
  "gr_client (with_global_services store gr) = gr_client gr"
  "gr_namespace (with_global_services store gr) = gr_namespace gr"
  "gr_name (with_global_services store gr) = gr_name gr"
  "w_store (gr_serviceWatcher (with_global_services store gr)) = Some store"
  "w_eventHandler (gr_serviceWatcher (with_global_services store gr)) = w_eventHandler (gr_serviceWatcher gr)"
  by (simp_all add: with_global_services_def)

lemma global_callback_adds:
  assumes "w_eventHandler (gr_serviceWatcher gr) = Some (gr_ServiceEventHandler lib)"
    and "key_laws (lib_keyfunc lib) split" "slash_free k" "cache_change svc_meta k et old new"
  shows "global_callback gr store et old new q =
    Returned (q\<lparr>q_queue := wq_Add (lib_workqueue lib) (remote_key k) (q_queue q)\<rparr>)"
  unfolding global_callback_def Let_def watcher_instances
  by (rule informer_call_adds [where meta = svc_meta, OF _ _ assms(2-4)]) (use assms(1) in \<open>simp_all add: gr_ServiceEventHandler_def\<close>)

lemma global_lookup:
  assumes "service_cache store contents" "slash_free k"
  shows "gr_getRemoteService (with_global_services store gr) (nn_name k) (nn_namespace k) =
    Returned (case contents k of
      None \<Rightarrow> Inl (NotFound ''service'' (remote_key k)) | Some svc \<Rightarrow> Inr svc)"
  unfolding gr_getRemoteService_def ServiceWatcher_Get_def
  by (rule informer_cache.lookup [where to_iface = IService, OF _ _ assms(2)]) (use assms(1) in \<open>simp_all add: service_cache_def\<close>)

lemma global_keyed:
  assumes "service_cache store contents" "slash_free k"
  shows "service_keyed (with_global_services store gr) (nn_name k) (nn_namespace k)"
proof (cases "contents k")
  case (Some svc)
  with assms(1) have "meta_key (svc_meta svc) = k" by (simp add: service_cache_def)
  then have "svc_name svc = nn_name k" "svc_namespace svc = nn_namespace k"
    by (auto simp: meta_key_def svc_name_def svc_namespace_def)
  with Some show ?thesis by (simp add: service_keyed_def global_lookup [OF assms])
qed (simp add: service_keyed_def global_lookup [OF assms])

text \<open>What one reconciliation does to the store, on every path.\<close>

lemma global_store_step:
  assumes inv: "store_inv gss" and reads: "service_cache store contents" and k: "slash_free k"
    and run: "reconcileGlobalService lib (with_global_services store gr) (nn_name k) (nn_namespace k) (gss, w) =
      (r, (gss', w'))"
  shows "store_inv gss'"
    and "x \<noteq> global_name k \<Longrightarrow> gss' x = gss x"
    and "c \<noteq> gr_name gr \<Longrightarrow> c \<in> targets gss' x \<longleftrightarrow> c \<in> targets gss x"
    and "r = Returned None \<Longrightarrow> gr_name gr \<in> targets gss' (global_name k) \<longleftrightarrow> contents k \<noteq> None"
proof -
  let ?gr = "with_global_services store gr"
  note lookup = global_lookup [OF reads k, of gr]
  note keyed = global_keyed [OF reads k, of gr]
  have "store_inv gss' \<and> (x \<noteq> global_name k \<longrightarrow> gss' x = gss x) \<and>
    (c \<noteq> gr_name gr \<longrightarrow> (c \<in> targets gss' x \<longleftrightarrow> c \<in> targets gss x)) \<and>
    (r = Returned None \<longrightarrow> (gr_name gr \<in> targets gss' (global_name k) \<longleftrightarrow> contents k \<noteq> None))"
  proof (cases "contents k")
    case None
    with lookup have gone: "gr_getRemoteService ?gr (nn_name k) (nn_namespace k) =
        Returned (Inl (NotFound ''service'' (remote_key k)))" by simp
    obtain gss1 r1 w1 where d: "reconcileGlobalService lib ?gr (nn_name k) (nn_namespace k) (gss, w) = (r1, (gss1, w1))"
      "store_inv gss1" "targets gss1 = (targets gss)(global_name k := targets gss (global_name k) - {gr_name ?gr})"
      "\<And>k'. k' \<noteq> global_name k \<Longrightarrow> gss1 k' = gss k'"
      by (rule store_after_gone [OF inv refl gone, of lib w]) (simp, blast)
    from d run have eq: "gss1 = gss'" by simp
    show ?thesis
      using d(2,3,4) None unfolding eq by (cases "x = global_name k") simp_all
  next
    case (Some svc)
    with lookup have found: "gr_getRemoteService ?gr (nn_name k) (nn_namespace k) = Returned (Inr svc)" by simp
    show ?thesis
    proof (cases "\<forall>g. gss (global_name k) = Some g \<longrightarrow> gs_headless g = isHeadless svc")
      case True
      obtain g r1 w1 where d: "reconcileGlobalService lib ?gr (nn_name k) (nn_namespace k) (gss, w) =
          (r1, (gss(global_name k \<mapsto> g), w1))"
        "service_inv (global_name k) g" "set (gs_clusters g) = insert (gr_name ?gr) (targets gss (global_name k))"
        by (rule store_after_found [OF inv keyed found refl True, of lib w]) blast
      from d(1) run have eq: "gss' = gss(global_name k \<mapsto> g)" by simp
      show ?thesis
        unfolding eq using store_inv_upd [OF inv d(2)] d(3) Some by (cases "x = global_name k") auto
    next
      case False
      then obtain g where g: "gss (global_name k) = Some g" "gs_headless g \<noteq> isHeadless svc" by blast
      from store_after_mismatch [where gss = gss and g = g, OF keyed found refl g, of lib w] run inv
      show ?thesis by simp
    qed
  qed
  then show "store_inv gss'" "x \<noteq> global_name k \<Longrightarrow> gss' x = gss x"
    "c \<noteq> gr_name gr \<Longrightarrow> c \<in> targets gss' x \<longleftrightarrow> c \<in> targets gss x"
    "r = Returned None \<Longrightarrow> gr_name gr \<in> targets gss' (global_name k) \<longleftrightarrow> contents k \<noteq> None"
    by blast+
qed

lemma listed_iff: "listed c s k = Some u \<longleftrightarrow> c \<in> targets (fst s) (global_name k)"
  "listed c s k = None \<longleftrightarrow> c \<notin> targets (fst s) (global_name k)"
  by (simp_all add: listed_def)

lemma global_controller:
  assumes lib: "library_contract lib pending processing is_down ok"
    and handler: "w_eventHandler (gr_serviceWatcher gr) = Some (gr_ServiceEventHandler lib)"
  shows "level_controller (lib_workqueue lib) pending processing is_down ok (lib_split lib) svc_meta
    (global_callback gr) service_cache (\<lambda>store. reconcileGlobalService lib (with_global_services store gr))
    proper_key (spares_listing (gr_name gr)) (listed (gr_name gr)) listed_iff_there (\<lambda>s. store_inv (fst s))"
proof -
  from lib have wq: "workqueue_client (lib_workqueue lib) pending processing is_down ok"
    and laws: "key_laws (lib_keyfunc lib) (lib_split lib)" by (simp_all add: library_contract_def)
  show ?thesis
  proof (intro level_controller.intro wq level_controller_axioms.intro)
    fix k store contents w r w'
    assume k: "proper_key k" and reads: "service_cache store contents" and inv: "store_inv (fst w)"
      and run: "reconcileGlobalService lib (with_global_services store gr) (nn_name k) (nn_namespace k) w = (r, w')"
    obtain gss v gss' v' where w: "w = (gss, v)" "w' = (gss', v')" by (metis prod.exhaust)
    note step = global_store_step [OF inv [unfolded w fst_conv] reads proper_slash_free [OF k] run [unfolded w]]
    have "listed (gr_name gr) w' k' = listed (gr_name gr) w k'" if "proper_key k'" "k' \<noteq> k" for k'
      using step(2) [of "global_name k'"] that k global_name_inj [of k' k]
      by (simp add: listed_def w targets_def)
    with step(1,4) show "store_inv (fst w') \<and>
        (r = Returned None \<longrightarrow> listed_iff_there (contents k) (listed (gr_name gr) w' k)) \<and>
        (\<forall>k'. proper_key k' \<longrightarrow> k' \<noteq> k \<longrightarrow> listed (gr_name gr) w' k' = listed (gr_name gr) w k')"
      by (auto simp: listed_iff_there_def listed_iff w)
  next
    show "spares_listing (gr_name gr) w w' \<Longrightarrow> store_inv (fst w') \<and>
        (\<forall>k. proper_key k \<longrightarrow> listed (gr_name gr) w' k = listed (gr_name gr) w k)" for w w'
      by (simp add: spares_listing_def)
  qed (fact proper_slash_free split_remote_key [OF laws proper_slash_free]
      global_callback_adds [OF handler laws proper_slash_free])+
qed

subsection \<open>All runners\<close>

text \<open>The runners by name, and what they share.\<close>

record ('q, 'w) global_system =
  sys_runner :: "string \<Rightarrow> ('q, Service, GlobalServiceStore \<times> 'w) controller"
  sys_shared :: "GlobalServiceStore \<times> 'w"

definition turn_of :: "string \<Rightarrow> ('q, 'w) global_system \<Rightarrow> ('q, Service, GlobalServiceStore \<times> 'w) controller" where
  "turn_of c s = (sys_runner s c)\<lparr>ctl_world := sys_shared s\<rparr>"

text \<open>
  A step is a step of one of the runners on what is shared, or of others, who do not touch the
  store (\<open>spared\<close> is what they leave alone in the world).
\<close>

inductive system_step ::
  "'q library \<Rightarrow> (string \<Rightarrow> ('w kube_client, 'q) GlobalRunner) \<Rightarrow> string set \<Rightarrow> ('w \<Rightarrow> 'w \<Rightarrow> bool) \<Rightarrow>
   ('q, 'w) global_system \<Rightarrow> ('q, 'w) global_system \<Rightarrow> bool"
  for lib gr names spared where
  turn: "c \<in> names \<Longrightarrow> global_step lib (gr c) (\<lambda>_ _. False) (turn_of c s) t \<Longrightarrow>
    system_step lib gr names spared s
      (s\<lparr>sys_runner := (sys_runner s)(c := t), sys_shared := ctl_world t\<rparr>)"
| others: "spared (snd (sys_shared s)) w \<Longrightarrow>
    system_step lib gr names spared s (s\<lparr>sys_shared := (fst (sys_shared s), w)\<rparr>)"

definition system_start ::
  "'q library \<Rightarrow> (string \<Rightarrow> ('w kube_client, 'q) GlobalRunner) \<Rightarrow> 'w \<Rightarrow> ('q, 'w) global_system" where
  "system_start lib gr w =
     \<lparr>sys_runner = (\<lambda>c. at_start lib (gr_serviceQueue (gr c)) (newGlobalServiceStore, w)),
      sys_shared = (newGlobalServiceStore, w)\<rparr>"

text \<open>More foreign steps, more steps.\<close>

lemma foreign_mono:
  "controller_step wq split meta deliver reads rf occurs (\<lambda>_ _. False) s t \<Longrightarrow>
   controller_step wq split meta deliver reads rf occurs foreign s t"
  by (induction rule: controller_step.induct) (auto intro: controller_step.intros)

text \<open>What a step of a runner does to what is shared: nothing, or one reconciliation.\<close>

lemma turn_shared:
  assumes level: "level_controller wq pending processing is_down ok split svc_meta deliver service_cache rf proper_key
      foreign mirror matches world_ok"
    and inv: "level_controller.inv pending processing is_down ok service_cache proper_key world_ok s"
    and step: "controller_step wq split svc_meta deliver service_cache rf proper_key (\<lambda>_ _. False) s t"
  shows "ctl_world t = ctl_world s \<or>
    (\<exists>k store contents r. proper_key k \<and> service_cache store contents \<and>
       ctl_working s = Reading (remote_key k) store contents \<and>
       rf store (nn_name k) (nn_namespace k) (ctl_world s) = (r, ctl_world t) \<and>
       (r \<noteq> Returned None \<longrightarrow> remote_key k \<in># pending (q_queue (ctl_queue t))))"
  using step
proof (cases rule: controller_step.cases)
  case (finish key store contents q w)
  show ?thesis
    by (rule level_controller.finish_cases [OF level inv finish(2,3)])
      (intro disjI2 exI conjI, assumption+, use finish in auto)
qed auto

subsection \<open>The local services\<close>

text \<open>API servers that store the ports, the selector and the annotations they are given.\<close>

definition keeps_global :: "(Service option \<Rightarrow> Service \<Rightarrow> Service) \<Rightarrow> bool" where
  "keeps_global admit \<longleftrightarrow>
     (\<forall>old new. svc_ports (admit old new) = svc_ports new \<and> svc_selector (admit old new) = svc_selector new \<and>
        obj_annotations (svc_meta (admit old new)) = obj_annotations (svc_meta new))"

text \<open>The local service of an entry: none where there is no entry, else with its ports and annotations.\<close>

definition reflects :: "GlobalService option \<Rightarrow> Service option \<Rightarrow> bool" where
  "reflects entry local \<longleftrightarrow>
     (case entry of
        None \<Rightarrow> local = None
      | Some g \<Rightarrow> \<exists>svc. local = Some svc \<and> svc_ports svc = gs_ports g \<and> svc_selector svc = Map.empty \<and>
          obj_annotations (svc_meta svc) = gs_annotations g)"

lemma global_view_step:
  assumes client: "resource_client (Services (gr_client gr)) view svc_meta admit" and keeps: "keeps_global admit"
    and inv: "store_inv gss" and reads: "service_cache store contents" and k: "slash_free k"
    and run: "reconcileGlobalService lib (with_global_services store gr) (nn_name k) (nn_namespace k) (gss, w) =
      (r, (gss', w'))"
  shows "x \<noteq> NamespacedName (gr_namespace gr) (global_name k) \<Longrightarrow> view w' x = view w x"
    and "r = Returned None \<Longrightarrow>
      reflects (gss' (global_name k)) (view w' (NamespacedName (gr_namespace gr) (global_name k)))"
proof -
  let ?gr = "with_global_services store gr"
  have client': "resource_client (Services (gr_client ?gr)) view svc_meta admit" using client by simp
  note keyed = global_keyed [OF reads k, of gr]
  note lookup = global_lookup [OF reads k, of gr]
  show "view w' x = view w x" if "x \<noteq> NamespacedName (gr_namespace gr) (global_name k)"
    by (rule reconcileGlobalService_frame [OF client' inv keyed run]) (use that in simp)
  have admitted: "reflects (Some g) (Some (admit old new))"
    if "svc_ports new = gs_ports g" "svc_selector new = Map.empty" "obj_annotations (svc_meta new) = gs_annotations g"
    for g old new
    using that keeps by (simp add: reflects_def keeps_global_def)
  show "reflects (gss' (global_name k)) (view w' (NamespacedName (gr_namespace gr) (global_name k)))"
    if r: "r = Returned None"
  proof (cases "contents k")
    case None
    with lookup have gone: "gr_getRemoteService ?gr (nn_name k) (nn_namespace k) =
        Returned (Inl (NotFound ''service'' (remote_key k)))" by simp
    from removes_spec [OF client' inv gone _ refl refl run [unfolded r]]
    consider "gss' (global_name k) = None" "view w' (NamespacedName (gr_namespace gr) (global_name k)) = None"
      | g old where "gss' (global_name k) = Some g"
        "view w' (NamespacedName (gr_namespace gr) (global_name k)) = Some (admit (Some old) (global_update g old))"
      by auto
    then show ?thesis
    proof cases
      case (2 g old)
      have "reflects (Some g) (Some (admit (Some old) (global_update g old)))"
        by (rule admitted) (simp_all add: global_update_def)
      with 2 show ?thesis by simp
    qed (simp add: reflects_def)
  next
    case (Some svc)
    with lookup have found: "gr_getRemoteService ?gr (nn_name k) (nn_namespace k) = Returned (Inr svc)" by simp
    from registers_spec [OF client' inv keyed found refl refl run [unfolded r]] obtain g where
      g: "gss' (global_name k) = Some g" "gs_ports g = svc_ports svc"
      "view w' (NamespacedName (gr_namespace gr) (global_name k)) =
         Some (case view w (NamespacedName (gr_namespace gr) (global_name k)) of
           None \<Rightarrow> admit None (global_service ?gr (global_name k) g svc)
         | Some old \<Rightarrow> admit (Some old) (global_update g old))" by auto
    have "reflects (Some g) (Some (admit (Some old) (global_update g old)))" for old
      by (rule admitted) (simp_all add: global_update_def)
    moreover have "reflects (Some g) (Some (admit None (global_service ?gr (global_name k) g svc)))"
      by (rule admitted) (simp_all add: global_service_def g(2))
    ultimately show ?thesis using g(1,3) by (simp split: option.split)
  qed
qed

subsection \<open>The contract of the runners\<close>

text \<open>Runners of distinct names that write to one client and one namespace.\<close>

locale global_runners =
  fixes lib :: "'q library"
    and pending :: "'q \<Rightarrow> string multiset"
    and processing :: "'q \<Rightarrow> string set"
    and is_down ok :: "'q \<Rightarrow> bool"
    and gr :: "string \<Rightarrow> ('w kube_client, 'q) GlobalRunner"
    and names :: "string set"
    and client :: "'w kube_client"
    and home :: string
    and view :: "'w \<Rightarrow> NamespacedName \<Rightarrow> Service option"
    and admit :: "Service option \<Rightarrow> Service \<Rightarrow> Service"
    and spared :: "'w \<Rightarrow> 'w \<Rightarrow> bool"
  assumes contract: "library_contract lib pending processing is_down ok"
    and empty_cache: "service_cache (lib_new_store lib) (\<lambda>_. None)"
    and requests: "resource_client (Services client) view svc_meta admit"
    and kept: "keeps_global admit"
    and runner: "c \<in> names \<Longrightarrow> gr_name (gr c) = c \<and> gr_client (gr c) = client \<and> gr_namespace (gr c) = home \<and>
      w_eventHandler (gr_serviceWatcher (gr c)) = Some (gr_ServiceEventHandler lib) \<and>
      (\<exists>name. gr_serviceQueue (gr c) = newQueue name (lib_newqueue lib name))"
    and spares: "spared w w' \<Longrightarrow> proper_key k \<Longrightarrow>
      view w' (NamespacedName home (global_name k)) = view w (NamespacedName home (global_name k))"
begin

abbreviation step where "step \<equiv> system_step lib gr names spared"

abbreviation runner_inv :: "('q, Service, GlobalServiceStore \<times> 'w) controller \<Rightarrow> bool" where
  "runner_inv \<equiv> level_controller.inv pending processing is_down ok service_cache proper_key (\<lambda>s. store_inv (fst s))"

lemma controller_of:
  "c \<in> names \<Longrightarrow>
   level_controller (lib_workqueue lib) pending processing is_down ok (lib_split lib) svc_meta
    (global_callback (gr c)) service_cache (\<lambda>store. reconcileGlobalService lib (with_global_services store (gr c)))
    proper_key (spares_listing c) (listed c) listed_iff_there (\<lambda>s. store_inv (fst s))"
  using global_controller [OF contract, of "gr c"] runner [of c] by simp

definition sys_inv :: "('q, 'w) global_system \<Rightarrow> bool" where
  "sys_inv s \<longleftrightarrow> store_inv (fst (sys_shared s)) \<and> (\<forall>x. targets (fst (sys_shared s)) x \<subseteq> names) \<and>
     (\<forall>c \<in> names. runner_inv (turn_of c s))"

text \<open>A step of one runner, to the others and to the store.\<close>

lemma turn_reconciles:
  assumes inv: "sys_inv s" and c: "c \<in> names" and step: "global_step lib (gr c) (\<lambda>_ _. False) (turn_of c s) t"
  shows "ctl_world t = sys_shared s \<or>
    (\<exists>k store contents r. proper_key k \<and> service_cache store contents \<and>
       ctl_working (sys_runner s c) = Reading (remote_key k) store contents \<and>
       reconcileGlobalService lib (with_global_services store (gr c)) (nn_name k) (nn_namespace k) (sys_shared s) =
         (r, ctl_world t) \<and>
       (r \<noteq> Returned None \<longrightarrow> remote_key k \<in># pending (q_queue (ctl_queue t))))"
  using turn_shared [OF controller_of [OF c] _ step] inv c by (simp add: sys_inv_def turn_of_def)

lemma turn_store:
  assumes inv: "sys_inv s" and c: "c \<in> names" and step: "global_step lib (gr c) (\<lambda>_ _. False) (turn_of c s) t"
  shows "store_inv (fst (ctl_world t))"
    and "c' \<noteq> c \<Longrightarrow> c' \<in> targets (fst (ctl_world t)) x \<longleftrightarrow> c' \<in> targets (fst (sys_shared s)) x"
proof -
  have "store_inv (fst (ctl_world t)) \<and>
    (c' \<noteq> c \<longrightarrow> (c' \<in> targets (fst (ctl_world t)) x \<longleftrightarrow> c' \<in> targets (fst (sys_shared s)) x))"
    using turn_reconciles [OF assms]
  proof (elim disjE exE conjE)
    fix k store contents r
    assume k: "proper_key k" and reads: "service_cache store contents"
      and run: "reconcileGlobalService lib (with_global_services store (gr c)) (nn_name k) (nn_namespace k)
        (sys_shared s) = (r, ctl_world t)"
    have inv': "store_inv (fst (sys_shared s))" using inv by (simp add: sys_inv_def)
    have run': "reconcileGlobalService lib (with_global_services store (gr c)) (nn_name k) (nn_namespace k)
        (fst (sys_shared s), snd (sys_shared s)) = (r, (fst (ctl_world t), snd (ctl_world t)))"
      using run by simp
    from global_store_step(1,3) [OF inv' reads proper_slash_free [OF k] run'] runner [OF c] show ?thesis by simp
  qed (use inv in \<open>simp add: sys_inv_def\<close>)
  then show "store_inv (fst (ctl_world t))"
    "c' \<noteq> c \<Longrightarrow> c' \<in> targets (fst (ctl_world t)) x \<longleftrightarrow> c' \<in> targets (fst (sys_shared s)) x" by blast+
qed

lemma runner_step:
  "step s t \<Longrightarrow> sys_inv s \<Longrightarrow> c \<in> names \<Longrightarrow>
   global_step lib (gr c) (spares_listing c) (turn_of c s) (turn_of c t)"
proof (induction rule: system_step.induct)
  case (turn c' s t)
  show ?case
  proof (cases "c' = c")
    case True
    with foreign_mono [OF turn.hyps(2)] show ?thesis by (simp add: turn_of_def)
  next
    case False
    from turn_store [OF turn.prems(1) turn.hyps] False
    have "spares_listing c (sys_shared s) (ctl_world t)"
      by (simp add: spares_listing_def listed_def)
    then have "global_step lib (gr c) (spares_listing c) (turn_of c s) ((turn_of c s)\<lparr>ctl_world := ctl_world t\<rparr>)"
      by (intro controller_step.foreign) (simp add: turn_of_def)
    with False show ?thesis by (simp add: turn_of_def)
  qed
next
  case (others s w)
  then have "spares_listing c (sys_shared s) (fst (sys_shared s), w)"
    by (simp add: spares_listing_def listed_def sys_inv_def)
  then have "global_step lib (gr c) (spares_listing c) (turn_of c s)
      ((turn_of c s)\<lparr>ctl_world := (fst (sys_shared s), w)\<rparr>)"
    by (intro controller_step.foreign) (simp add: turn_of_def)
  then show ?case by (simp add: turn_of_def)
qed

lemma sys_inv_step: "step s t \<Longrightarrow> sys_inv s \<Longrightarrow> sys_inv t"
proof -
  assume run: "step s t" and inv: "sys_inv s"
  have "store_inv (fst (sys_shared t)) \<and> (\<forall>x. targets (fst (sys_shared t)) x \<subseteq> names)"
    using run
  proof (cases rule: system_step.cases)
    case (turn c u)
    have "c' \<in> names" if "c' \<in> targets (fst (ctl_world u)) x" for c' x
      using turn_store(2) [OF inv turn(2,3), of c' x] that turn(2) inv by (cases "c' = c") (auto simp: sys_inv_def)
    with turn_store(1) [OF inv turn(2,3)] turn(1) show ?thesis by auto
  qed (use inv in \<open>simp add: sys_inv_def\<close>)
  moreover have "runner_inv (turn_of c t)" if "c \<in> names" for c
    using level_controller.inv_step [OF controller_of [OF that] runner_step [OF run inv that]] inv that
    by (simp add: sys_inv_def)
  ultimately show ?thesis by (simp add: sys_inv_def)
qed

lemma sys_inv_run: "step\<^sup>*\<^sup>* s0 s \<Longrightarrow> sys_inv s0 \<Longrightarrow> sys_inv s"
  by (induction rule: rtranclp_induct) (auto intro: sys_inv_step)

lemma runner_run:
  "step\<^sup>*\<^sup>* s0 s \<Longrightarrow> sys_inv s0 \<Longrightarrow> c \<in> names \<Longrightarrow>
   (global_step lib (gr c) (spares_listing c))\<^sup>*\<^sup>* (turn_of c s0) (turn_of c s)"
proof (induction rule: rtranclp_induct)
  case (step s t)
  with runner_step [OF step.hyps(2) sys_inv_run [OF step.hyps(1) step.prems(1)]] show ?case
    by (meson rtranclp.rtrancl_into_rtrancl)
qed simp

lemma start_inv: "sys_inv (system_start lib gr w)"
proof -
  have "runner_inv (turn_of c (system_start lib gr w))" if "c \<in> names" for c
  proof -
    from runner [OF that] obtain name where q: "gr_serviceQueue (gr c) = newQueue name (lib_newqueue lib name)"
      by blast
    have inv: "store_inv (fst (newGlobalServiceStore, w))" by (simp add: store_inv_new)
    from start_ok(1) [OF contract controller_of [OF that] empty_cache inv, of name]
    show ?thesis by (simp add: turn_of_def system_start_def at_start_def q)
  qed
  then show ?thesis
    by (simp add: sys_inv_def system_start_def store_inv_new) (simp add: newGlobalServiceStore_def)
qed

lemma start_level:
  assumes "c \<in> names"
  shows "level_controller.level pending (listed c) listed_iff_there k (turn_of c (system_start lib gr w))"
proof -
  have "listed_iff_there (None :: Service option) (listed c (newGlobalServiceStore, w) k)"
    by (simp add: listed_iff_there_def listed_iff newGlobalServiceStore_def)
  then show ?thesis
    by (simp add: level_controller.level_def [OF controller_of [OF assms]] turn_of_def system_start_def at_start_def)
qed

lemma nothing_lost:
  assumes run: "step\<^sup>*\<^sup>* (system_start lib gr w) s" and c: "c \<in> names" and k: "proper_key k"
  shows "remote_key k \<in># pending (q_queue (ctl_queue (sys_runner s c))) \<or>
    ctl_working (sys_runner s c) = Taken (remote_key k) \<or>
    (\<exists>store contents. ctl_working (sys_runner s c) = Reading (remote_key k) store contents \<and>
       contents k = ctl_contents (sys_runner s c) k) \<or>
    (c \<in> targets (fst (sys_shared s)) (global_name k) \<longleftrightarrow> ctl_contents (sys_runner s c) k \<noteq> None)"
proof -
  from start_inv c have inv: "runner_inv (turn_of c (system_start lib gr w))" by (simp add: sys_inv_def)
  note level = level_controller.level_run [OF controller_of [OF c] runner_run [OF run start_inv c] inv k start_level [OF c]]
  from level_controller.level_cases [OF controller_of [OF c] level] show ?thesis
    by (simp add: turn_of_def listed_iff_there_def listed_iff) (metis option.exhaust option.distinct(1))
qed

text \<open>A key some runner still has to reconcile, and the local services of the others.\<close>

definition busy :: "('q, 'w) global_system \<Rightarrow> NamespacedName \<Rightarrow> bool" where
  "busy s k \<longleftrightarrow> (\<exists>c \<in> names. remote_key k \<in># pending (q_queue (ctl_queue (sys_runner s c))) \<or>
     remote_key k \<in> working_keys (ctl_working (sys_runner s c)))"

definition local_ok :: "('q, 'w) global_system \<Rightarrow> NamespacedName \<Rightarrow> bool" where
  "local_ok s k \<longleftrightarrow> reflects (fst (sys_shared s) (global_name k))
     (view (snd (sys_shared s)) (NamespacedName home (global_name k)))"

text \<open>The keys a step of a runner takes off its queue and its worker: none, but one that it has
  reconciled without error.\<close>

lemma turn_keys:
  assumes inv: "sys_inv s" and c: "c \<in> names" and step: "global_step lib (gr c) (\<lambda>_ _. False) (turn_of c s) t"
    and k: "proper_key k"
    and had: "remote_key k \<in># pending (q_queue (ctl_queue (sys_runner s c))) \<or>
      remote_key k \<in> working_keys (ctl_working (sys_runner s c))"
  shows "remote_key k \<in># pending (q_queue (ctl_queue t)) \<or> remote_key k \<in> working_keys (ctl_working t) \<or>
    (\<exists>store contents. service_cache store contents \<and>
       reconcileGlobalService lib (with_global_services store (gr c)) (nn_name k) (nn_namespace k) (sys_shared s) =
         (Returned None, ctl_world t))"
proof -
  note level = controller_of [OF c]
  have i: "runner_inv (turn_of c s)" using inv c by (simp add: sys_inv_def)
  show ?thesis
    using step
  proof (cases rule: controller_step.cases)
    case (event k' old et new store q)
    from level_controller.event_pending(5) [OF level i event(2,4,6)] event(1) had show ?thesis
      by (auto simp: turn_of_def)
  next
    case (take key wqs)
    from contract have wq: "workqueue_client (lib_workqueue lib) pending processing is_down ok"
      by (simp add: library_contract_def)
    have "ok (q_queue (ctl_queue (turn_of c s)))" using i by (simp add: level_controller.inv_def [OF level])
    from workqueue_client.get [OF wq this take(3)] take(1,2) had show ?thesis
      by (auto simp: turn_of_def)
  next
    case (read key)
    with had show ?thesis by (auto simp: turn_of_def)
  next
    case (finish key store contents q w)
    obtain k' r where f: "proper_key k'" "key = remote_key k'" "service_cache store contents"
      "reconcileGlobalService lib (with_global_services store (gr c)) (nn_name k') (nn_namespace k')
         (ctl_world (turn_of c s)) = (r, w)"
      "set_mset (pending (q_queue (ctl_queue (turn_of c s)))) \<subseteq> set_mset (pending (q_queue q))"
      "r \<noteq> Returned None \<Longrightarrow> key \<in># pending (q_queue q)"
      by (rule level_controller.finish_cases [OF level i finish(2,3)]) blast
    show ?thesis
    proof (cases "remote_key k \<in># pending (q_queue q)")
      case True
      with finish(1) show ?thesis by simp
    next
      case False
      with f(5) had finish(2) have "remote_key k = key" by (auto simp: turn_of_def)
      with f(1,2) k have "k' = k" using level_controller.key_eq [OF level] by metis
      moreover from False f(6) \<open>remote_key k = key\<close> have "r = Returned None" by auto
      ultimately show ?thesis using f(3,4) finish(1) by (auto simp: turn_of_def)
    qed
  qed simp
qed

lemma local_ok_step:
  assumes run: "step s t" and inv: "sys_inv s" and k: "proper_key k" and before: "busy s k \<or> local_ok s k"
  shows "busy t k \<or> local_ok t k"
  using run
proof (cases rule: system_step.cases)
  case (turn c u)
  note c = turn(2)
  have store: "store_inv (fst (sys_shared s))" using inv by (simp add: sys_inv_def)
  have cl: "resource_client (Services (gr_client (gr c))) view svc_meta admit" "gr_namespace (gr c) = home"
    using runner [OF c] requests by simp_all
  have mine: "busy t k" if "remote_key k \<in># pending (q_queue (ctl_queue u)) \<or> remote_key k \<in> working_keys (ctl_working u)"
    unfolding busy_def by (rule bexI [OF _ c]) (use that turn(1) in simp)
  have reconciled: "local_ok t k" if reads: "service_cache store contents" and
      settled: "reconcileGlobalService lib (with_global_services store (gr c)) (nn_name k) (nn_namespace k) (sys_shared s) =
        (Returned None, ctl_world u)" for store contents
  proof -
    have d: "reconcileGlobalService lib (with_global_services store (gr c)) (nn_name k) (nn_namespace k)
        (fst (sys_shared s), snd (sys_shared s)) = (Returned None, (fst (ctl_world u), snd (ctl_world u)))"
      using settled by simp
    from global_view_step(2) [OF cl(1) kept store reads proper_slash_free [OF k] d refl] cl(2) turn(1)
    show ?thesis by (simp add: local_ok_def)
  qed
  show ?thesis
  proof (cases "busy s k")
    case True
    then obtain c' where c': "c' \<in> names" "remote_key k \<in># pending (q_queue (ctl_queue (sys_runner s c'))) \<or>
        remote_key k \<in> working_keys (ctl_working (sys_runner s c'))" by (auto simp: busy_def)
    show ?thesis
    proof (cases "c' = c")
      case True
      with turn_keys [OF inv c turn(3) k] c'(2) mine reconciled show ?thesis by blast
    next
      case False
      with c' turn(1) have "busy t k" unfolding busy_def by (intro bexI [of _ c']) auto
      then show ?thesis by simp
    qed
  next
    case False
    with before have ok: "local_ok s k" by simp
    from turn_reconciles [OF inv c turn(3)] show ?thesis
    proof (elim disjE exE conjE)
      assume "ctl_world u = sys_shared s"
      with ok turn(1) show ?thesis by (simp add: local_ok_def)
    next
      fix k' store contents r
      assume k': "proper_key k'" and reads: "service_cache store contents"
        and run': "reconcileGlobalService lib (with_global_services store (gr c)) (nn_name k') (nn_namespace k')
          (sys_shared s) = (r, ctl_world u)"
        and failed: "r \<noteq> Returned None \<longrightarrow> remote_key k' \<in># pending (q_queue (ctl_queue u))"
      show ?thesis
      proof (cases "k' = k")
        case True
        with failed mine run' reconciled [OF reads] show ?thesis by (cases "r = Returned None") auto
      next
        case other: False
        have run'': "reconcileGlobalService lib (with_global_services store (gr c)) (nn_name k') (nn_namespace k')
            (fst (sys_shared s), snd (sys_shared s)) = (r, (fst (ctl_world u), snd (ctl_world u)))"
          using run' by simp
        have names: "global_name k \<noteq> global_name k'" using other k k' by (simp add: global_name_inj)
        then have "NamespacedName home (global_name k) \<noteq> NamespacedName (gr_namespace (gr c)) (global_name k')" by simp
        from global_view_step(1) [OF cl(1) kept store reads proper_slash_free [OF k'] run'' this]
          global_store_step(2) [OF store reads proper_slash_free [OF k'] run'' names] ok turn(1)
        show ?thesis by (simp add: local_ok_def)
      qed
    qed
  qed
next
  case (others w)
  with before spares [OF others(2) k] show ?thesis by (simp add: busy_def local_ok_def)
qed

lemma local_ok_run:
  "step\<^sup>*\<^sup>* s0 s \<Longrightarrow> sys_inv s0 \<Longrightarrow> proper_key k \<Longrightarrow> busy s0 k \<or> local_ok s0 k \<Longrightarrow> busy s k \<or> local_ok s k"
proof (induction rule: rtranclp_induct)
  case (step s t)
  from local_ok_step [OF step.hyps(2) sys_inv_run [OF step.hyps(1) step.prems(1)] step.prems(2)]
    step.IH [OF step.prems] show ?case by blast
qed

lemma all_settled:
  assumes run: "step\<^sup>*\<^sup>* (system_start lib gr w) s"
    and quiet: "\<forall>c \<in> names. ctl_working (sys_runner s c) = Idle \<and> pending (q_queue (ctl_queue (sys_runner s c))) = {#}"
    and k: "proper_key k" and absent: "view w (NamespacedName home (global_name k)) = None"
  shows "targets (fst (sys_shared s)) (global_name k) = {c \<in> names. ctl_contents (sys_runner s c) k \<noteq> None}"
    and "store_inv (fst (sys_shared s))" and "local_ok s k"
proof -
  note inv = sys_inv_run [OF run start_inv]
  from inv show "store_inv (fst (sys_shared s))" by (simp add: sys_inv_def)
  have "c \<in> targets (fst (sys_shared s)) (global_name k) \<longleftrightarrow> ctl_contents (sys_runner s c) k \<noteq> None"
    if "c \<in> names" for c
    using nothing_lost [OF run that k] quiet that by auto
  moreover from inv have "targets (fst (sys_shared s)) (global_name k) \<subseteq> names" by (simp add: sys_inv_def)
  ultimately show "targets (fst (sys_shared s)) (global_name k) =
      {c \<in> names. ctl_contents (sys_runner s c) k \<noteq> None}" by auto
  have "local_ok (system_start lib gr w) k"
    by (simp add: local_ok_def system_start_def newGlobalServiceStore_def reflects_def absent)
  with local_ok_run [OF run start_inv k] have "busy s k \<or> local_ok s k" by blast
  with quiet show "local_ok s k" by (auto simp: busy_def)
qed

end

end
