(* ===== verification/GlobalConvergence.thy ===== *)
theory GlobalConvergence
  imports GlobalSystem
begin

text \<open>
  The runners \<open>newGlobalRunner\<close> makes, sharing one store and one local cluster: what holds at any
  point of their runs and once they have settled, and a run of one of them on the in-memory
  library, from the event to the settled state.
\<close>

subsection \<open>The global runners of a program\<close>

text \<open>Others leave the global services alone.\<close>

definition spares_globals :: "string \<Rightarrow> ('w \<Rightarrow> NamespacedName \<Rightarrow> Service option) \<Rightarrow> 'w \<Rightarrow> 'w \<Rightarrow> bool" where
  "spares_globals home view w w' \<longleftrightarrow> (\<forall>k. proper_key k \<longrightarrow>
     view w' (NamespacedName home (global_name k)) = view w (NamespacedName home (global_name k)))"

lemma new_runners:
  assumes "library_contract lib pending processing is_down ok" "service_cache (lib_new_store lib) (\<lambda>_. None)"
    and "resource_client (Services client) view svc_meta admit" "keeps_global admit"
  shows "global_runners lib pending processing is_down ok
    (\<lambda>c. newGlobalRunner lib client (watch c) c home sel resync (loc c) rsl sync) names client home view admit
    (spares_globals home view)"
  by (rule global_runners.intro, fact, fact, fact, fact)
    (simp_all add: spares_globals_def newGlobalRunner_def newWatcher_def watcher_Init_def Let_def, blast)

lemma mem_service_cache: "service_cache (lib_new_store mem_library) (\<lambda>_. None)"
  by (simp add: service_cache_def mem_start_store)

lemma submitted_keeps_global [simp]: "keeps_global as_submitted"
  by (simp add: keeps_global_def)

abbreviation mem_global :: "string \<Rightarrow> (cluster kube_client, mem_queue) GlobalRunner" where
  "mem_global \<equiv> (\<lambda>c. newGlobalRunner mem_library mem_client mem_client c ''home'' [] 0 False (\<lambda>_. False) False)"

interpretation mem_globals: global_runners mem_library mem_pending mq_processing mq_down mem_ok mem_global names mem_client
  "''home''" services_view as_submitted "spares_globals ''home'' services_view" for names
  by (rule new_runners [OF mem_contract mem_service_cache mem_svc_client submitted_keeps_global])

subsection \<open>A run of two global runners\<close>

text \<open>A service is added in the cluster \<open>a\<close>, then taken, read and reconciled; \<open>b\<close> has none.\<close>

abbreviation web_store :: cache_store where
  "web_store \<equiv> cache_of svc_meta IService [plain_service ''web'' ''shop'']"

abbreviation web_taken :: "mem_queue queue" where
  "web_taken \<equiv> newQueue ''a-global-service'' (mem_queue_empty\<lparr>mq_processing := {''shop/web''}\<rparr>)"

abbreviation mem_start :: "(mem_queue, cluster) global_system" where
  "mem_start \<equiv> system_start mem_library mem_global empty_cluster"

definition web_system ::
  "mem_queue queue \<Rightarrow> Service working \<Rightarrow> GlobalServiceStore \<times> cluster \<Rightarrow> (mem_queue, cluster) global_system" where
  "web_system q working w = mem_start\<lparr>sys_runner := (sys_runner mem_start)(''a'' :=
     \<lparr>ctl_queue = q, ctl_store = web_store, ctl_contents = [web \<mapsto> plain_service ''web'' ''shop''],
      ctl_working = working, ctl_world = w\<rparr>), sys_shared := w\<rparr>"

abbreviation mem_step where
  "mem_step \<equiv> system_step mem_library mem_global {''a'', ''b''} (spares_globals ''home'' services_view)"

lemma web_service_cache: "service_cache web_store [web \<mapsto> plain_service ''web'' ''shop'']"
proof -
  have "cache_contents svc_meta [plain_service ''web'' ''shop''] = [web \<mapsto> plain_service ''web'' ''shop'']"
    by (auto simp: cache_contents_def cache_entries_def plain_service_def)
  with svc_cache.informer_cache_axioms [of "[plain_service ''web'' ''shop'']"] show ?thesis
    by (simp add: service_cache_def) (simp add: plain_service_def meta_key_def)
qed

lemma web_turn [simp]:
  "turn_of ''a'' (web_system q working w) =
     \<lparr>ctl_queue = q, ctl_store = web_store, ctl_contents = [web \<mapsto> plain_service ''web'' ''shop''],
      ctl_working = working, ctl_world = w\<rparr>"
  by (simp add: turn_of_def web_system_def)

lemma web_steps:
  assumes "global_step mem_library (mem_global ''a'') (\<lambda>_ _. False) (turn_of ''a'' (web_system q working w))
    \<lparr>ctl_queue = q', ctl_store = web_store, ctl_contents = [web \<mapsto> plain_service ''web'' ''shop''],
      ctl_working = working', ctl_world = w'\<rparr>"
  shows "mem_step (web_system q working w) (web_system q' working' w')"
  using system_step.turn [where names = "{''a'', ''b''}" and gr = mem_global and c = "''a''", OF _ assms]
  by (simp add: web_system_def)

lemma web_event:
  "mem_step mem_start (web_system (one_pending ''a-global-service'') Idle (newGlobalServiceStore, empty_cluster))"
proof -
  let ?s = "turn_of ''a'' mem_start"
  have s: "ctl_contents ?s = (\<lambda>_. None)" "ctl_queue ?s = newQueue ''a-global-service'' mem_queue_empty"
    "ctl_working ?s = Idle" "ctl_world ?s = (newGlobalServiceStore, empty_cluster)"
    by (simp_all add: turn_of_def system_start_def at_start_def newGlobalRunner_def mem_library_def Let_def)
  have change: "cache_change svc_meta web Added None (Some (plain_service ''web'' ''shop''))"
    by (simp add: cache_change_def plain_service_def meta_key_def)
  have call: "global_callback (mem_global ''a'') web_store Added None (Some (plain_service ''web'' ''shop''))
      (ctl_queue ?s) = Returned (one_pending ''a-global-service'')"
    unfolding s
    by (subst global_callback_adds [where lib = mem_library and split = SplitMetaNamespaceKey,
          OF _ _ proper_slash_free [OF web_proper(1)] change])
      (simp_all add: web_proper(2) key_functions_laws newQueue_def mem_queue_simps mem_queue_empty_def
        newGlobalRunner_def newWatcher_def watcher_Init_def Let_def)
  have old: "ctl_contents ?s web = None" and
    reads: "service_cache web_store ((ctl_contents ?s)(web := Some (plain_service ''web'' ''shop'')))"
    using web_service_cache by (simp_all add: s)
  note e = controller_step.event [where deliver = "global_callback (mem_global ''a'')" and occurs = proper_key and
      reads = service_cache and foreign = "\<lambda>_ _. False", OF web_proper(1) old change reads call]
  have t: "?s\<lparr>ctl_queue := one_pending ''a-global-service'', ctl_store := web_store,
      ctl_contents := (ctl_contents ?s)(web := Some (plain_service ''web'' ''shop''))\<rparr> =
    \<lparr>ctl_queue = one_pending ''a-global-service'', ctl_store = web_store,
     ctl_contents = [web \<mapsto> plain_service ''web'' ''shop''], ctl_working = Idle,
     ctl_world = (newGlobalServiceStore, empty_cluster)\<rparr>"
    using s(3,4) by (simp add: s(1))
  have "mem_step mem_start (mem_start\<lparr>sys_runner := (sys_runner mem_start)(''a'' :=
      \<lparr>ctl_queue = one_pending ''a-global-service'', ctl_store = web_store,
       ctl_contents = [web \<mapsto> plain_service ''web'' ''shop''], ctl_working = Idle,
       ctl_world = (newGlobalServiceStore, empty_cluster)\<rparr>), sys_shared := (newGlobalServiceStore, empty_cluster)\<rparr>)"
    using system_step.turn [where names = "{''a'', ''b''}" and gr = mem_global and c = "''a''", OF _ e [unfolded t]] by simp
  then show ?thesis by (simp add: web_system_def)
qed

lemma web_take:
  "mem_step (web_system (one_pending ''a-global-service'') Idle w) (web_system web_taken (Taken ''shop/web'') w)"
proof -
  have "wq_Get mem_workqueue (q_queue (one_pending ''a-global-service'')) =
      Some ((''shop/web'', False), q_queue web_taken)"
    by (simp add: newQueue_def mem_queue_simps mem_queue_empty_def)
  then show ?thesis
    by (intro web_steps) (use controller_step.take [where wq = mem_workqueue and key = "''shop/web''" and
        s = "turn_of ''a'' (web_system (one_pending ''a-global-service'') Idle w)" and wqs = "q_queue web_taken"]
        in \<open>simp add: newQueue_def\<close>)
qed

abbreviation web_reading :: "Service working" where
  "web_reading \<equiv> Reading ''shop/web'' web_store [web \<mapsto> plain_service ''web'' ''shop'']"

lemma web_read: "mem_step (web_system web_taken (Taken ''shop/web'') w) (web_system web_taken web_reading w)"
  by (rule web_steps) (use controller_step.read [where key = "''shop/web''" and
      s = "turn_of ''a'' (web_system web_taken (Taken ''shop/web'') w)"] in simp)

lemma web_finish:
  "\<exists>w. mem_step (web_system web_taken web_reading (newGlobalServiceStore, empty_cluster))
     (web_system (newQueue ''a-global-service'' mem_queue_empty) Idle w)"
proof -
  let ?gr = "with_global_services web_store (mem_global ''a'')"
  have client: "reliable_client (Services (gr_client ?gr)) services_view svc_meta as_submitted"
    by (simp add: newGlobalRunner_def Let_def mem_svc.reliable_client_axioms)
  have found: "gr_getRemoteService ?gr ''web'' ''shop'' = Returned (Inr (plain_service ''web'' ''shop''))"
    using global_lookup [OF web_service_cache proper_slash_free [OF web_proper(1)]] by simp
  have keyed: "service_keyed ?gr ''web'' ''shop''"
    using global_keyed [OF web_service_cache proper_slash_free [OF web_proper(1)]] by simp
  obtain gss w where run: "reconcileGlobalService mem_library ?gr ''web'' ''shop'' (newGlobalServiceStore, empty_cluster) =
      (Returned None, (gss, w))"
    using present_returns [OF client store_inv_new keyed found, of mem_library empty_cluster]
    by (auto simp: newGlobalServiceStore_def)
  have split: "SplitMetaNamespaceKey ''shop/web'' = Inr (''shop'', ''web'')"
    using split_remote_key [OF key_functions_laws proper_slash_free [OF web_proper(1)]] web_proper(2) by simp
  let ?s = "turn_of ''a'' (web_system web_taken web_reading (newGlobalServiceStore, empty_cluster))"
  let ?rf = "\<lambda>store. reconcileGlobalService mem_library (with_global_services store (mem_global ''a''))"
  have working: "ctl_working ?s = web_reading" by simp
  have fin: "finish_item mem_workqueue SplitMetaNamespaceKey (?rf web_store) ''shop/web'' (ctl_queue ?s) (ctl_world ?s) =
    (Returned True, newQueue ''a-global-service'' mem_queue_empty, (gss, w))"
    by (simp add: finish_item_def split run forget_def removeRequeued_def newQueue_def mem_queue_simps
        mem_queue_empty_def Let_def)
  note step = controller_step.finish [where rf = ?rf, OF working fin]
  show ?thesis
    by (rule exI [of _ "(gss, w)"], rule web_steps) (use step in simp)
qed

lemma web_run_pending:
  "mem_step\<^sup>*\<^sup>* mem_start (web_system (one_pending ''a-global-service'') Idle (newGlobalServiceStore, empty_cluster))"
  by (rule r_into_rtranclp [where r = mem_step, OF web_event])

lemma web_run_settled:
  "\<exists>w. mem_step\<^sup>*\<^sup>* mem_start (web_system (newQueue ''a-global-service'' mem_queue_empty) Idle w)"
proof -
  from web_finish obtain w where
    "mem_step (web_system web_taken web_reading (newGlobalServiceStore, empty_cluster))
      (web_system (newQueue ''a-global-service'' mem_queue_empty) Idle w)" by blast
  with web_run_pending web_take web_read show ?thesis by (meson rtranclp.rtrancl_into_rtrancl)
qed

lemma web_runner [simp]:
  "sys_runner (web_system q working w) ''a'' =
     \<lparr>ctl_queue = q, ctl_store = web_store, ctl_contents = [web \<mapsto> plain_service ''web'' ''shop''],
      ctl_working = working, ctl_world = w\<rparr>"
  "sys_shared (web_system q working w) = w"
  "ctl_working (sys_runner (web_system q working w) ''b'') = Idle"
  "ctl_contents (sys_runner (web_system q working w) ''b'') = (\<lambda>_. None)"
  "ctl_queue (sys_runner (web_system q working w) ''b'') = newQueue ''b-global-service'' mem_queue_empty"
  by (simp_all add: web_system_def system_start_def at_start_def newGlobalRunner_def Let_def mem_library_def)

lemma web_quiet:
  "\<forall>c \<in> {''a'', ''b''}.
     ctl_working (sys_runner (web_system (newQueue ''a-global-service'' mem_queue_empty) Idle w) c) = Idle \<and>
     mem_pending (q_queue (ctl_queue (sys_runner
       (web_system (newQueue ''a-global-service'' mem_queue_empty) Idle w) c))) = {#}"
  by (simp add: newQueue_def mem_queue_empty_def mem_pending_def)

lemma web_name: "global_name web = ''gl-shop-73736d-web''"
  by (simp add: generateGlobalServiceName_eq)

lemma web_there:
  "{c \<in> {''a'', ''b''}. ctl_contents (sys_runner (web_system q working w) c) web \<noteq> None} = {''a''}"
  by auto

lemma web_registered:
  "\<exists>s. mem_step\<^sup>*\<^sup>* mem_start s \<and> targets (fst (sys_shared s)) ''gl-shop-73736d-web'' = {''a''}"
proof -
  obtain w where run: "mem_step\<^sup>*\<^sup>* mem_start (web_system (newQueue ''a-global-service'' mem_queue_empty) Idle w)"
    using web_run_settled by blast
  from mem_globals.all_settled(1) [OF run web_quiet web_proper(1) no_mirrors_at_start(1), unfolded web_there web_name] run
  show ?thesis by blast
qed

subsection \<open>What the runners keep\<close>

text \<open>C4: at any point of any run of any number of global runners that share the store, with services that
  come, change and go in every cluster and requests that fail, each runner and service satisfy
  one of these: the key is pending; it is being reconciled with what the cache holds; or the
  store lists the runner's cluster for the service exactly if the cache holds it.\<close>

theorem no_global_change_lost:
  assumes lib: "library_contract lib pending processing is_down ok"
    and store: "service_cache (lib_new_store lib) (\<lambda>_. None)"
    and client: "resource_client (Services client) view svc_meta admit" "keeps_global admit"
    and gr: "gr = (\<lambda>c. newGlobalRunner lib client (watch c) c home sel resync (loc c) rsl sync)"
    and run: "(system_step lib gr names (spares_globals home view))\<^sup>*\<^sup>* (system_start lib gr w0) s"
    and k: "c \<in> names" "proper_key k"
  shows "remote_key k \<in># pending (q_queue (ctl_queue (sys_runner s c))) \<or>
    ctl_working (sys_runner s c) = Taken (remote_key k) \<or>
    (\<exists>store contents. ctl_working (sys_runner s c) = Reading (remote_key k) store contents \<and>
       contents k = ctl_contents (sys_runner s c) k) \<or>
    (c \<in> targets (fst (sys_shared s)) (global_name k) \<longleftrightarrow> ctl_contents (sys_runner s c) k \<noteq> None)"
  by (rule global_runners.nothing_lost [OF new_runners [OF lib store client] run [unfolded gr] k])

theorem no_global_change_lost_witness:
  "\<exists>s. mem_step\<^sup>*\<^sup>* mem_start s \<and> ctl_contents (sys_runner s ''a'') web \<noteq> None \<and>
     ''shop/web'' \<in># mem_pending (q_queue (ctl_queue (sys_runner s ''a'')))"
proof -
  let ?s = "web_system (one_pending ''a-global-service'') Idle (newGlobalServiceStore, empty_cluster)"
  have "''a'' \<notin> targets (newGlobalServiceStore :: GlobalServiceStore) k" for k
    by (simp add: newGlobalServiceStore_def)
  then show ?thesis
    using web_run_pending web_proper(2)
      no_global_change_lost [where c = "''a''", OF mem_contract mem_service_cache mem_svc_client submitted_keeps_global
        refl web_run_pending insertI1 web_proper(1)]
    by (intro exI [of _ ?s]) simp
qed

text \<open>C5: when all runners have settled, with nothing pending and no worker busy, the clusters a service is
  listed for are exactly those whose caches hold it, and the local cluster has the service's
  global service exactly if there is one: without a selector, with the ports and annotations of
  the entry, the annotation of the clusters naming those clusters, each once.\<close>

theorem global_services_settle:
  assumes lib: "library_contract lib pending processing is_down ok"
    and store: "service_cache (lib_new_store lib) (\<lambda>_. None)"
    and client: "resource_client (Services client) view svc_meta admit" "keeps_global admit"
    and gr: "gr = (\<lambda>c. newGlobalRunner lib client (watch c) c home sel resync (loc c) rsl sync)"
    and run: "(system_step lib gr names (spares_globals home view))\<^sup>*\<^sup>* (system_start lib gr w0) s"
    and quiet: "\<forall>c \<in> names. ctl_working (sys_runner s c) = Idle \<and> pending (q_queue (ctl_queue (sys_runner s c))) = {#}"
    and k: "proper_key k" "view w0 (NamespacedName home (global_name k)) = None"
    and there: "there = {c \<in> names. ctl_contents (sys_runner s c) k \<noteq> None}"
    and local: "local = view (snd (sys_shared s)) (NamespacedName home (global_name k))"
  shows "targets (fst (sys_shared s)) (global_name k) = there \<and>
    (if there = {} then local = None
     else \<exists>svc g. local = Some svc \<and> fst (sys_shared s) (global_name k) = Some g \<and>
       svc_selector svc = Map.empty \<and> svc_ports svc = gs_ports g \<and>
       obj_annotations (svc_meta svc) = gs_annotations g \<and>
       gs_annotations g globalSvcClustersAnno = Some (join '','' (gs_clusters g)) \<and>
       distinct (gs_clusters g) \<and> set (gs_clusters g) = there)"
proof -
  have runners: "global_runners lib pending processing is_down ok gr names client home view admit (spares_globals home view)"
    unfolding gr by (rule new_runners [OF lib store client])
  note settled = global_runners.all_settled [OF runners run quiet k]
  note t = settled(1) [folded there]
  from settled(3) have ok: "reflects (fst (sys_shared s) (global_name k)) local"
    by (simp add: global_runners.local_ok_def [OF runners] local)
  show ?thesis
  proof (cases "fst (sys_shared s) (global_name k)")
    case None
    with t ok show ?thesis by (simp add: reflects_def)
  next
    case (Some g)
    with settled(2) have "service_inv (global_name k) g" by (rule store_inv_entry)
    with t ok Some show ?thesis by (auto simp: reflects_def service_inv_def targets_Some)
  qed
qed

theorem global_services_settle_witness:
  "\<exists>s svc. mem_step\<^sup>*\<^sup>* mem_start s \<and> targets (fst (sys_shared s)) ''gl-shop-73736d-web'' = {''a''} \<and>
     services_view (snd (sys_shared s)) (NamespacedName ''home'' ''gl-shop-73736d-web'') = Some svc \<and>
     svc_selector svc = Map.empty"
proof -
  obtain w where run: "mem_step\<^sup>*\<^sup>* mem_start (web_system (newQueue ''a-global-service'' mem_queue_empty) Idle w)"
    using web_run_settled by blast
  note settled = global_services_settle [OF mem_contract mem_service_cache mem_svc_client submitted_keeps_global refl
      run web_quiet web_proper(1) no_mirrors_at_start(1) web_there [symmetric] refl, unfolded web_name]
  from settled obtain svc where
    "services_view (snd (sys_shared (web_system (newQueue ''a-global-service'' mem_queue_empty) Idle w)))
       (NamespacedName ''home'' ''gl-shop-73736d-web'') = Some svc" "svc_selector svc = Map.empty"
    by (metis insert_not_empty)
  with run settled show ?thesis by blast
qed

end
