(* ===== verification/GlobalSafety.thy ===== *)
theory GlobalSafety
  imports GlobalConvergence
begin

text \<open>
  Global runners whose requests are answered.  Then every entry of the store has its local global
  service at any time, and with it the one case in which reconciling panics cannot arise: it needs
  a request that failed before, or others that delete a global service.
\<close>

lemma targets_empty: "targets gss x \<noteq> {} \<Longrightarrow> gss x \<noteq> None"
  by (auto simp: targets_def)

text \<open>The only error left: the clusters do not agree whether the service is headless.\<close>

definition headless_mismatch :: "GlobalService option \<Rightarrow> Service option \<Rightarrow> bool" where
  "headless_mismatch entry svc \<longleftrightarrow>
     (case (entry, svc) of (Some g, Some svc) \<Rightarrow> gs_headless g \<noteq> isHeadless svc | _ \<Rightarrow> False)"

abbreviation mismatch_error :: error where
  "mismatch_error \<equiv> ErrorOf ''failed to create/update service''
     (ErrorString ''Mismatch between existing headless service and requested'')"

locale answering_runners = global_runners +
  assumes answers: "reliable_client (Services client) view svc_meta admit"
begin

text \<open>Every entry has its local service.\<close>

definition backed :: "GlobalServiceStore \<times> 'b \<Rightarrow> bool" where
  "backed s \<longleftrightarrow> (\<forall>k. proper_key k \<longrightarrow> fst s (global_name k) \<noteq> None \<longrightarrow>
     view (snd s) (NamespacedName home (global_name k)) \<noteq> None)"

lemma reconcile_answers:
  assumes inv: "store_inv (fst s)" and backed: "backed s" and c: "c \<in> names" and k: "proper_key k"
    and reads: "service_cache store contents"
  shows "if headless_mismatch (fst s (global_name k)) (contents k)
    then reconcileGlobalService lib (with_global_services store (gr c)) (nn_name k) (nn_namespace k) s =
      (Returned (Some mismatch_error), s)
    else fst (reconcileGlobalService lib (with_global_services store (gr c)) (nn_name k) (nn_namespace k) s) =
      Returned None"
proof -
  let ?gr = "with_global_services store (gr c)"
  obtain gss w where s: "s = (gss, w)" by (cases s)
  have client: "reliable_client (Services (gr_client ?gr)) view svc_meta admit"
    using runner [OF c] answers by simp
  note inv' = inv [unfolded s fst_conv]
  note lookup = global_lookup [OF reads proper_slash_free [OF k], of "gr c"]
  note keyed = global_keyed [OF reads proper_slash_free [OF k], of "gr c"]
  show ?thesis
  proof (cases "contents k")
    case None
    with lookup have gone: "gr_getRemoteService ?gr (nn_name k) (nn_namespace k) =
        Returned (Inl (NotFound ''service'' (remote_key k)))" by simp
    have calm: "\<not> (targets gss (global_name k) - {gr_name ?gr} \<noteq> {} \<and>
        view w (NamespacedName (gr_namespace ?gr) (global_name k)) = None)"
      using backed k runner [OF c] targets_empty [of gss "global_name k"] by (auto simp: backed_def s)
    have "IsNotFound (NotFound ''service'' (remote_key k))" by simp
    from gone_returns [OF client inv' refl gone this, of w lib, unfolded if_not_P [OF calm]]
    have "fst (reconcileGlobalService lib ?gr (nn_name k) (nn_namespace k) (gss, w)) = Returned None"
      by auto
    with None show ?thesis by (simp add: headless_mismatch_def s split: option.split)
  next
    case (Some svc)
    with lookup have found: "gr_getRemoteService ?gr (nn_name k) (nn_namespace k) = Returned (Inr svc)" by simp
    show ?thesis
    proof (cases "headless_mismatch (gss (global_name k)) (contents k)")
      case True
      with Some obtain g where g: "gss (global_name k) = Some g" "gs_headless g \<noteq> isHeadless svc"
        by (auto simp: headless_mismatch_def split: option.splits)
      from store_after_mismatch [where gss = gss and g = g, OF keyed found refl g, of lib w] True show ?thesis
        by (simp add: s)
    next
      case False
      with Some have "\<forall>g. gss (global_name k) = Some g \<longrightarrow> gs_headless g = isHeadless svc"
        by (auto simp: headless_mismatch_def)
      from present_returns [OF client inv' keyed found this, of lib w] False show ?thesis by (auto simp: s)
    qed
  qed
qed

lemma backed_step:
  assumes run: "step s t" and inv: "sys_inv s" and backed: "backed (sys_shared s)"
  shows "backed (sys_shared t)"
  using run
proof (cases rule: system_step.cases)
  case (turn c u)
  note c = turn(2)
  have store: "store_inv (fst (sys_shared s))" using inv by (simp add: sys_inv_def)
  have cl: "resource_client (Services (gr_client (gr c))) view svc_meta admit" "gr_namespace (gr c) = home"
    using runner [OF c] requests by simp_all
  have "backed (ctl_world u)"
    using turn_reconciles [OF inv c turn(3)]
  proof (elim disjE exE conjE)
    fix k store contents r
    assume k: "proper_key k" and reads: "service_cache store contents"
      and run: "reconcileGlobalService lib (with_global_services store (gr c)) (nn_name k) (nn_namespace k)
        (sys_shared s) = (r, ctl_world u)"
    have run': "reconcileGlobalService lib (with_global_services store (gr c)) (nn_name k) (nn_namespace k)
        (fst (sys_shared s), snd (sys_shared s)) = (r, (fst (ctl_world u), snd (ctl_world u)))"
      using run by simp
    note answer = reconcile_answers [OF store backed c k reads]
    show "backed (ctl_world u)"
    proof (cases "headless_mismatch (fst (sys_shared s) (global_name k)) (contents k)")
      case True
      with answer run backed show ?thesis by simp
    next
      case False
      with answer run have r: "r = Returned None" by simp
      have "view (snd (ctl_world u)) (NamespacedName home (global_name k')) \<noteq> None"
        if k': "proper_key k'" "fst (ctl_world u) (global_name k') \<noteq> None" for k'
      proof (cases "k' = k")
        case True
        with global_view_step(2) [OF cl(1) kept store reads proper_slash_free [OF k] run' r] k'(2) cl(2)
        show ?thesis by (auto simp: reflects_def split: option.splits)
      next
        case other: False
        then have names: "global_name k' \<noteq> global_name k" using k k'(1) by (simp add: global_name_inj)
        then have "NamespacedName home (global_name k') \<noteq> NamespacedName (gr_namespace (gr c)) (global_name k)" by simp
        from global_view_step(1) [OF cl(1) kept store reads proper_slash_free [OF k] run' this]
          global_store_step(2) [OF store reads proper_slash_free [OF k] run' names] backed k'
        show ?thesis by (simp add: backed_def)
      qed
      then show ?thesis by (simp add: backed_def)
    qed
  qed (use backed in simp)
  with turn(1) show ?thesis by simp
next
  case (others w)
  with backed spares [OF others(2)] show ?thesis by (simp add: backed_def)
qed

lemma backed_run: "step\<^sup>*\<^sup>* (system_start lib gr w) s \<Longrightarrow> backed (sys_shared s)"
proof (induction rule: rtranclp_induct)
  case base
  show ?case by (simp add: backed_def system_start_def newGlobalServiceStore_def)
next
  case (step s t)
  from backed_step [OF step.hyps(2) sys_inv_run [OF step.hyps(1) start_inv] step.IH] show ?case .
qed

lemma always_answers:
  assumes run: "step\<^sup>*\<^sup>* (system_start lib gr w) s" and c: "c \<in> names" and k: "proper_key k"
    and reads: "service_cache store contents"
  shows "if headless_mismatch (fst (sys_shared s) (global_name k)) (contents k)
    then reconcileGlobalService lib (with_global_services store (gr c)) (nn_name k) (nn_namespace k) (sys_shared s) =
      (Returned (Some mismatch_error), sys_shared s)
    else fst (reconcileGlobalService lib (with_global_services store (gr c)) (nn_name k) (nn_namespace k) (sys_shared s)) =
      Returned None"
proof -
  from sys_inv_run [OF run start_inv] have "store_inv (fst (sys_shared s))" by (simp add: sys_inv_def)
  from reconcile_answers [OF this backed_run [OF run] c k reads] show ?thesis .
qed

end

interpretation mem_answers: answering_runners mem_library mem_pending mq_processing mq_down mem_ok mem_global names
  mem_client "''home''" services_view as_submitted "spares_globals ''home'' services_view" for names
  by (intro answering_runners.intro mem_globals.global_runners_axioms answering_runners_axioms.intro mem_svc_reliable)

text \<open>C11: where the API server answers requests and nobody else changes the global services, no
  reconciliation of a global service panics or fails in any state that any number of global
  runners reach, whichever runner, service and cache, but for one error: the cluster's service
  is headless and the entry's is not, or the other way round, which changes nothing.\<close>

theorem global_runners_never_panic:
  assumes lib: "library_contract lib pending processing is_down ok"
    and store: "service_cache (lib_new_store lib) (\<lambda>_. None)"
    and client: "reliable_client (Services client) view svc_meta admit" "keeps_global admit"
    and gr: "gr = (\<lambda>c. newGlobalRunner lib client (watch c) c home sel resync (loc c) rsl sync)"
    and run: "(system_step lib gr names (spares_globals home view))\<^sup>*\<^sup>* (system_start lib gr w0) s"
    and turn: "c \<in> names" "proper_key k" "service_cache cache contents"
  shows "if headless_mismatch (fst (sys_shared s) (global_name k)) (contents k)
    then reconcileGlobalService lib (with_global_services cache (gr c)) (nn_name k) (nn_namespace k) (sys_shared s) =
      (Returned (Some mismatch_error), sys_shared s)
    else fst (reconcileGlobalService lib (with_global_services cache (gr c)) (nn_name k) (nn_namespace k) (sys_shared s)) =
      Returned None"
proof -
  have "resource_client (Services client) view svc_meta admit" using client(1) by (simp add: reliable_client_def)
  note runners = new_runners [OF lib store this client(2), where watch = watch and home = home and sel = sel and
      resync = resync and loc = loc and rsl = rsl and sync = sync and names = names, folded gr]
  have "answering_runners lib pending processing is_down ok gr names client home view admit (spares_globals home view)"
    by (intro answering_runners.intro runners answering_runners_axioms.intro client(1))
  from answering_runners.always_answers [OF this run turn] show ?thesis .
qed

text \<open>With the service registered by the runner of \<open>a\<close>, that of \<open>b\<close> finds it gone.\<close>

theorem global_runners_never_panic_witness:
  "\<exists>s. mem_step\<^sup>*\<^sup>* mem_start s \<and> targets (fst (sys_shared s)) ''gl-shop-73736d-web'' = {''a''} \<and>
     fst (reconcileGlobalService mem_library
       (with_global_services (lib_new_store mem_library) (mem_global ''b'')) ''web'' ''shop'' (sys_shared s)) = Returned None"
proof -
  obtain s where s: "mem_step\<^sup>*\<^sup>* mem_start s" "targets (fst (sys_shared s)) ''gl-shop-73736d-web'' = {''a''}"
    using web_registered by blast
  have b: "''b'' \<in> {''a'', ''b''}" by simp
  from global_runners_never_panic [OF mem_contract mem_service_cache mem_svc_reliable submitted_keeps_global refl s(1) b
      web_proper(1) mem_service_cache] s show ?thesis
    by (intro exI [of _ s]) (simp add: headless_mismatch_def split: option.splits)
qed

end
