(* ===== verification/Config.thy ===== *)
theory Config
  imports Prelude
begin

text \<open>
  \<open>config.go\<close>: the configuration, its checks, and the JSON forms of a duration.  What
  \<open>encoding/json\<close> decodes and \<open>time.ParseDuration\<close> parses are arguments: \<open>unmarshal\<close> gives
  the \<open>Config\<close> the decoder fills (absent fields empty), the remote clusters as pointers, which a
  JSON \<open>null\<close> leaves nil.
\<close>

record globalConfig =
  GlobalSvcLabelSelector :: string
  GlobalSvcRoutingStrategyLabel :: string
  MirrorSvcLabelSelector :: string
  MirrorNamespace :: string
  cfg_ServiceSync :: bool
  cfg_EndpointSliceSync :: bool

record localClusterConfig =
  lc_Name :: string
  lc_KubeConfigPath :: string
  lc_Zones :: "string list"

text \<open>A \<open>Duration\<close> wraps the nanoseconds of a \<open>time.Duration\<close>.\<close>

datatype Duration = Duration (nanoseconds: int)

record remoteClusterConfig =
  rc_Name :: string
  rc_KubeConfigPath :: string
  rc_RemoteAPIURL :: string
  rc_RemoteCAURL :: string
  rc_RemoteSATokenPath :: string
  rc_ResyncPeriod :: Duration
  rc_ServicePrefix :: string

record Config =
  cfg_Global :: globalConfig
  cfg_LocalCluster :: localClusterConfig
  cfg_RemoteClusters :: "remoteClusterConfig option list"

subsection \<open>Durations\<close>

text \<open>The values \<open>json.Unmarshal\<close> stores in an \<open>interface{}\<close>; \<open>'f\<close> are the \<open>float64\<close> numbers.\<close>

datatype 'f json_value =
    JNull
  | JBool bool
  | JNumber 'f
  | JString string
  | JArray "'f json_value list"
  | JObject "(string \<times> 'f json_value) list"

definition MarshalJSON :: "(string \<Rightarrow> error + string) \<Rightarrow> (int \<Rightarrow> string) \<Rightarrow> Duration \<Rightarrow> error + string" where
  "MarshalJSON json_string duration_string d = json_string (duration_string (nanoseconds d))"

definition UnmarshalJSON ::
  "(string \<Rightarrow> error + 'f json_value) \<Rightarrow> ('f \<Rightarrow> int) \<Rightarrow> (string \<Rightarrow> error + int) \<Rightarrow> string \<Rightarrow>
   Duration \<Rightarrow> error option \<times> Duration" where
  "UnmarshalJSON json_decode to_int64 ParseDuration b d =
     (case json_decode b of
        Inl err \<Rightarrow> (Some err, d)
      | Inr v \<Rightarrow>
          (case v of
             JNumber x \<Rightarrow> (None, Duration (to_int64 x))
           | JString s \<Rightarrow>
               (case ParseDuration s of
                  Inl err \<Rightarrow> (Some err, d)
                | Inr tmp \<Rightarrow> (None, Duration tmp))
           | _ \<Rightarrow> (Some (ErrorString ''Invalid duration of type''), d)))"

subsection \<open>Parsing\<close>

text \<open>The errors, by what they report.\<close>

definition no_remote_name :: error where
  "no_remote_name = ErrorString ''Configuration is missing remote cluster name''"

definition insufficient_remote :: error where
  "insufficient_remote = ErrorString ''Insufficient configuration to create remote cluster client. Set kubeConfigPath or remoteAPIURL and remoteCAURL and remoteSATokenPath''"

definition no_service_prefix :: error where
  "no_service_prefix = ErrorString ''Configuration is missing a service prefix for services mirrored from the remote''"

definition no_mirror_selector :: error where
  "no_mirror_selector = ErrorString ''Label selector for service mirroring should be specified either via global json config, env vars or flag''"

definition no_global_selector :: error where
  "no_global_selector = ErrorString ''Label selector for global services should be specified either via global json config, env vars or flag''"

definition no_routing_label :: error where
  "no_routing_label = ErrorString ''Label to enable topology aware hints for global services should be specified either via global json config, env vars or flag''"

definition no_mirror_namespace :: error where
  "no_mirror_namespace = ErrorString ''Local mirroring namespace should be specified either via global json config, env vars or flag''"

definition no_local_name :: error where
  "no_local_name = ErrorString ''Configuration is missing local cluster name''"

definition no_remotes :: error where
  "no_remotes = ErrorString ''No remote cluster configuration defined''"

text \<open>The loop over the remote clusters: the first error, or a nil dereference.\<close>

fun check_remotes :: "remoteClusterConfig option list \<Rightarrow> error option outcome" where
  "check_remotes [] = Returned None"
| "check_remotes (None # rs) = Panicked"
| "check_remotes (Some r # rs) =
     (if rc_Name r = '''' then
        Returned (Some no_remote_name)
      else if (rc_RemoteAPIURL r = '''' \<or> rc_RemoteCAURL r = '''' \<or> rc_RemoteSATokenPath r = '''') \<and>
          rc_KubeConfigPath r = '''' then
        Returned (Some insufficient_remote)
      else if rc_ServicePrefix r = '''' then
        Returned (Some no_service_prefix)
      else check_remotes rs)"

definition parseConfig ::
  "(string \<Rightarrow> error + Config) \<Rightarrow> string \<Rightarrow> string \<Rightarrow> string \<Rightarrow> string \<Rightarrow> string \<Rightarrow> (error + Config) outcome" where
  "parseConfig unmarshal rawConfig flagGlobalSvcLabelSelector flagGlobalSvcRoutingStrategyLabel
      flagMirrorSvcLabelSelector flagMirrorNamespace =
     (case unmarshal rawConfig of
        Inl err \<Rightarrow> Returned (Inl (ErrorOf ''error unmarshalling config'' err))
      | Inr conf \<Rightarrow>
          let g = cfg_Global conf;
              g = (if flagMirrorSvcLabelSelector \<noteq> ''''
                   then g\<lparr>MirrorSvcLabelSelector := flagMirrorSvcLabelSelector\<rparr> else g)
          in if MirrorSvcLabelSelector g = '''' then
               Returned (Inl no_mirror_selector)
             else
          let g = (if flagGlobalSvcLabelSelector \<noteq> ''''
                   then g\<lparr>GlobalSvcLabelSelector := flagGlobalSvcLabelSelector\<rparr> else g)
          in if GlobalSvcLabelSelector g = '''' then
               Returned (Inl no_global_selector)
             else
          let g = (if flagGlobalSvcRoutingStrategyLabel \<noteq> ''''
                   then g\<lparr>GlobalSvcRoutingStrategyLabel := flagGlobalSvcRoutingStrategyLabel\<rparr> else g)
          in if GlobalSvcRoutingStrategyLabel g = '''' then
               Returned (Inl no_routing_label)
             else
          let g = (if flagMirrorNamespace \<noteq> '''' then g\<lparr>MirrorNamespace := flagMirrorNamespace\<rparr> else g)
          in if MirrorNamespace g = '''' then
               Returned (Inl no_mirror_namespace)
             else if lc_Name (cfg_LocalCluster conf) = '''' then
               Returned (Inl no_local_name)
             else
          let conf = conf\<lparr>cfg_Global := g\<rparr>;
              conf = (if length (lc_Zones (cfg_LocalCluster conf)) = 0
                then conf\<lparr>cfg_LocalCluster := (cfg_LocalCluster conf)\<lparr>lc_Zones := [''local'']\<rparr>\<rparr> else conf)
          in if length (cfg_RemoteClusters conf) < 1 then
               Returned (Inl no_remotes)
             else bind_outcome (check_remotes (cfg_RemoteClusters conf)) (\<lambda>err.
               Returned (case err of Some e \<Rightarrow> Inl e | None \<Rightarrow> Inr conf)))"

subsection \<open>What a configuration that is accepted holds\<close>

definition remote_ok :: "remoteClusterConfig option \<Rightarrow> bool" where
  "remote_ok r \<longleftrightarrow> (case r of None \<Rightarrow> False | Some r \<Rightarrow>
     rc_Name r \<noteq> '''' \<and> rc_ServicePrefix r \<noteq> '''' \<and>
     (rc_KubeConfigPath r \<noteq> '''' \<or>
      rc_RemoteAPIURL r \<noteq> '''' \<and> rc_RemoteCAURL r \<noteq> '''' \<and> rc_RemoteSATokenPath r \<noteq> ''''))"

lemma check_remotes_ok: "check_remotes rs = Returned None \<longleftrightarrow> list_all remote_ok rs"
  by (induction rs rule: check_remotes.induct) (auto simp: remote_ok_def)

lemma check_remotes_panics:
  "check_remotes rs = Panicked \<longleftrightarrow> (\<exists>good rest. rs = good @ None # rest \<and> list_all remote_ok good)"
proof (induction rs)
  case (Cons r rs)
  show ?case
  proof (cases r)
    case None
    then show ?thesis by (auto intro: exI [of _ "[]"])
  next
    case (Some c)
    have step: "check_remotes (Some c # rs) = Panicked \<longleftrightarrow> remote_ok (Some c) \<and> check_remotes rs = Panicked"
      by (auto simp: remote_ok_def)
    show ?thesis
      unfolding Some step Cons.IH
    proof
      assume "remote_ok (Some c) \<and> (\<exists>good rest. rs = good @ None # rest \<and> list_all remote_ok good)"
      then obtain good rest where "remote_ok (Some c)" "rs = good @ None # rest" "list_all remote_ok good"
        by blast
      then show "\<exists>good rest. Some c # rs = good @ None # rest \<and> list_all remote_ok good"
        by (intro exI [of _ "Some c # good"] exI [of _ rest]) simp
    qed (auto simp: Cons_eq_append_conv)
  qed
qed simp

text \<open>A flag that is set, else the value configured.\<close>

abbreviation over :: "string \<Rightarrow> string \<Rightarrow> string" where
  "over flag conf \<equiv> (if flag \<noteq> '''' then flag else conf)"

definition effective :: "string \<Rightarrow> string \<Rightarrow> string \<Rightarrow> string \<Rightarrow> Config \<Rightarrow> Config" where
  "effective fg fr fm fn conf = conf\<lparr>
     cfg_Global := (cfg_Global conf)\<lparr>
       GlobalSvcLabelSelector := over fg (GlobalSvcLabelSelector (cfg_Global conf)),
       GlobalSvcRoutingStrategyLabel := over fr (GlobalSvcRoutingStrategyLabel (cfg_Global conf)),
       MirrorSvcLabelSelector := over fm (MirrorSvcLabelSelector (cfg_Global conf)),
       MirrorNamespace := over fn (MirrorNamespace (cfg_Global conf))\<rparr>,
     cfg_LocalCluster := (cfg_LocalCluster conf)\<lparr>
       lc_Zones := (if lc_Zones (cfg_LocalCluster conf) = [] then [''local''] else lc_Zones (cfg_LocalCluster conf))\<rparr>\<rparr>"

definition globals_ok :: "Config \<Rightarrow> bool" where
  "globals_ok conf \<longleftrightarrow>
     GlobalSvcLabelSelector (cfg_Global conf) \<noteq> '''' \<and> GlobalSvcRoutingStrategyLabel (cfg_Global conf) \<noteq> '''' \<and>
     MirrorSvcLabelSelector (cfg_Global conf) \<noteq> '''' \<and> MirrorNamespace (cfg_Global conf) \<noteq> '''' \<and>
     lc_Name (cfg_LocalCluster conf) \<noteq> '''' \<and> lc_Zones (cfg_LocalCluster conf) \<noteq> []"

definition config_ok :: "Config \<Rightarrow> bool" where
  "config_ok conf \<longleftrightarrow> globals_ok conf \<and>
     cfg_RemoteClusters conf \<noteq> [] \<and> list_all remote_ok (cfg_RemoteClusters conf)"

text \<open>The checks in their order, on the effective configuration.\<close>

lemma parseConfig_eq:
  assumes "unmarshal raw = Inr c" and e: "e = effective fg fr fm fn c"
  shows "parseConfig unmarshal raw fg fr fm fn =
    (if MirrorSvcLabelSelector (cfg_Global e) = '''' then Returned (Inl no_mirror_selector)
     else if GlobalSvcLabelSelector (cfg_Global e) = '''' then Returned (Inl no_global_selector)
     else if GlobalSvcRoutingStrategyLabel (cfg_Global e) = '''' then Returned (Inl no_routing_label)
     else if MirrorNamespace (cfg_Global e) = '''' then Returned (Inl no_mirror_namespace)
     else if lc_Name (cfg_LocalCluster e) = '''' then Returned (Inl no_local_name)
     else if cfg_RemoteClusters e = [] then Returned (Inl no_remotes)
     else bind_outcome (check_remotes (cfg_RemoteClusters e)) (\<lambda>err.
       Returned (case err of Some x \<Rightarrow> Inl x | None \<Rightarrow> Inr e)))"
proof -
  obtain g l rs where c: "c = \<lparr>cfg_Global = g, cfg_LocalCluster = l, cfg_RemoteClusters = rs\<rparr>"
    by (cases c)
  obtain gs gr gm gn ss es where g: "g = \<lparr>GlobalSvcLabelSelector = gs, GlobalSvcRoutingStrategyLabel = gr,
      MirrorSvcLabelSelector = gm, MirrorNamespace = gn, cfg_ServiceSync = ss, cfg_EndpointSliceSync = es\<rparr>"
    by (cases g)
  obtain ln lk lz where l: "l = \<lparr>lc_Name = ln, lc_KubeConfigPath = lk, lc_Zones = lz\<rparr>" by (cases l)
  have rs: "length rs < 1 \<longleftrightarrow> rs = []" "length rs < Suc 0 \<longleftrightarrow> rs = []" by (cases rs; simp)+
  show ?thesis
    unfolding e
    by (cases "fg = []"; cases "fr = []"; cases "fm = []"; cases "fn = []"; cases "lz = []")
      (simp_all add: parseConfig_def assms(1) c g l effective_def Let_def rs cong: option.case_cong)
qed

lemma parseConfig_accepts:
  "parseConfig unmarshal raw fg fr fm fn = Returned (Inr conf) \<longleftrightarrow>
     (\<exists>c. unmarshal raw = Inr c \<and> conf = effective fg fr fm fn c \<and> config_ok conf)"
proof (cases "unmarshal raw")
  case (Inr c)
  define e where "e = effective fg fr fm fn c"
  have zones: "lc_Zones (cfg_LocalCluster e) \<noteq> []" by (simp add: e_def effective_def)
  have "bind_outcome (check_remotes rs) (\<lambda>err. Returned (case err of Some x \<Rightarrow> Inl x | None \<Rightarrow> Inr e)) =
      Returned (Inr conf) \<longleftrightarrow> list_all remote_ok rs \<and> conf = e" for rs
    unfolding check_remotes_ok [symmetric] by (auto simp: bind_outcome_Returned_iff split: option.splits)
  then have "parseConfig unmarshal raw fg fr fm fn = Returned (Inr conf) \<longleftrightarrow> conf = e \<and> config_ok e"
    unfolding parseConfig_eq [where unmarshal = unmarshal and raw = raw, OF Inr e_def] config_ok_def globals_ok_def using zones by auto
  then show ?thesis using Inr by (auto simp: e_def)
qed (simp add: parseConfig_def)

text \<open>C28: a configuration is accepted exactly when, with the flags that are set taking precedence and the
  zones defaulted, every mandatory field is set, there is a remote cluster and each has a name, a
  prefix and a way to reach it; what is returned is that configuration, nothing else changed.\<close>

theorem parseConfig_spec:
  "parseConfig unmarshal raw fg fr fm fn = Returned (Inr conf) \<longleftrightarrow>
     (\<exists>c. unmarshal raw = Inr c \<and> conf = effective fg fr fm fn c \<and> config_ok conf)"
  by (rule parseConfig_accepts)

text \<open>C29: parsing panics exactly when everything before is in order and a remote cluster is \<open>null\<close>,
  those before it being in order.\<close>

theorem parseConfig_panics_iff:
  "parseConfig unmarshal raw fg fr fm fn = Panicked \<longleftrightarrow>
     (\<exists>c good rest. unmarshal raw = Inr c \<and> globals_ok (effective fg fr fm fn c) \<and>
        cfg_RemoteClusters c = good @ None # rest \<and> list_all remote_ok good)"
proof (cases "unmarshal raw")
  case (Inr c)
  define e where "e = effective fg fr fm fn c"
  have e: "lc_Zones (cfg_LocalCluster e) \<noteq> []" "cfg_RemoteClusters e = cfg_RemoteClusters c"
    by (simp_all add: e_def effective_def)
  have "bind_outcome (check_remotes rs) (\<lambda>err. Returned (case err of Some x \<Rightarrow> Inl x | None \<Rightarrow> Inr e)) = Panicked \<longleftrightarrow>
      (\<exists>good rest. rs = good @ None # rest \<and> list_all remote_ok good)" for rs
    unfolding check_remotes_panics [symmetric] by (simp add: bind_outcome_def split: outcome.splits)
  then have "parseConfig unmarshal raw fg fr fm fn = Panicked \<longleftrightarrow> globals_ok e \<and>
      (\<exists>good rest. cfg_RemoteClusters c = good @ None # rest \<and> list_all remote_ok good)"
    unfolding parseConfig_eq [where unmarshal = unmarshal and raw = raw, OF Inr e_def] globals_ok_def
    using e by auto
  then show ?thesis using Inr by (auto simp: e_def)
qed (simp add: parseConfig_def)

end
