(* ===== verification/Durations.thy ===== *)
theory Durations
  imports Config
begin

text \<open>
  The JSON form of a configured duration, with what it uses of Go's package \<open>time\<close>:
  \<open>Duration.String\<close> and \<open>ParseDuration\<close>, digit by digit.  The one step in floating point, the
  fraction times its unit, is the argument \<open>frac\<close>.  Durations are nanoseconds; their magnitude is
  a natural number kept within the 64 bits Go keeps it in.
\<close>

subsection \<open>Printing\<close>

text \<open>The functions fill a buffer from its end; here they put characters in front of \<open>buf\<close>.\<close>

definition digit_char :: "nat \<Rightarrow> char" where
  "digit_char d = char_of (48 + d)"

fun fmt_digits :: "nat \<Rightarrow> string \<Rightarrow> string" where
  "fmt_digits v buf = (if v = 0 then buf else fmt_digits (v div 10) (digit_char (v mod 10) # buf))"

declare fmt_digits.simps [simp del]

definition fmtInt :: "nat \<Rightarrow> string \<Rightarrow> string" where
  "fmtInt v buf = (if v = 0 then CHR ''0'' # buf else fmt_digits v buf)"

fun frac_loop :: "nat \<Rightarrow> bool \<Rightarrow> nat \<Rightarrow> string \<Rightarrow> bool \<times> nat \<times> string" where
  "frac_loop 0 print v buf = (print, v, buf)"
| "frac_loop (Suc i) print v buf =
     (let digit = v mod 10;
          print = (print \<or> digit \<noteq> 0)
      in frac_loop i print (v div 10) (if print then digit_char digit # buf else buf))"

definition fmtFrac :: "nat \<Rightarrow> nat \<Rightarrow> string \<Rightarrow> nat \<times> string" where
  "fmtFrac prec v buf =
     (case frac_loop prec False v buf of (print, v, buf) \<Rightarrow> (v, if print then CHR ''.'' # buf else buf))"

text \<open>The micro sign, in UTF-8.\<close>

definition micro :: string where "micro = [CHR 0xC2, CHR 0xB5]"

definition Duration_String :: "int \<Rightarrow> string" where
  "Duration_String d =
     (let u = nat \<bar>d\<bar>;
          buf =
            (if u < 1000000000 then
               (if u = 0 then ''0s''
                else if u < 1000 then fmtInt u ''ns''
                else if u < 1000000 then (case fmtFrac 3 u (micro @ ''s'') of (u, buf) \<Rightarrow> fmtInt u buf)
                else (case fmtFrac 6 u ''ms'' of (u, buf) \<Rightarrow> fmtInt u buf))
             else
               (case fmtFrac 9 u ''s'' of (u, buf) \<Rightarrow>
                  let buf = fmtInt (u mod 60) buf; u = u div 60
                  in if u > 0
                     then (let buf = fmtInt (u mod 60) (CHR ''m'' # buf); u = u div 60
                           in if u > 0 then fmtInt u (CHR ''h'' # buf) else buf)
                     else buf))
      in if d < 0 then CHR ''-'' # buf else buf)"

subsection \<open>Parsing\<close>

definition digit_value :: "char \<Rightarrow> nat" where
  "digit_value c = of_char c - 48"

definition is_digit :: "char \<Rightarrow> bool" where
  "is_digit c \<longleftrightarrow> (let n = (of_char c :: nat) in 48 \<le> n \<and> n \<le> 57)"

fun leadingInt :: "string \<Rightarrow> nat \<Rightarrow> (nat \<times> string) option" where
  "leadingInt [] x = Some (x, [])"
| "leadingInt (c # s) x =
     (if \<not> is_digit c then Some (x, c # s)
      else if x > 2 ^ 63 div 10 then None
      else let x = x * 10 + digit_value c
           in if x > 2 ^ 63 then None else leadingInt s x)"

fun leadingFraction :: "string \<Rightarrow> nat \<Rightarrow> nat \<Rightarrow> bool \<Rightarrow> nat \<times> nat \<times> string" where
  "leadingFraction [] x scale overflow = (x, scale, [])"
| "leadingFraction (c # s) x scale overflow =
     (if \<not> is_digit c then (x, scale, c # s)
      else if overflow then leadingFraction s x scale True
      else if x > (2 ^ 63 - 1) div 10 then leadingFraction s x scale True
      else let y = x * 10 + digit_value c
           in if y > 2 ^ 63 then leadingFraction s x scale True
              else leadingFraction s y (scale * 10) False)"

definition unitMap :: "string \<Rightarrow> nat option" where
  "unitMap u =
     (if u = ''ns'' then Some 1
      else if u = ''us'' \<or> u = micro @ ''s'' \<or> u = [CHR 0xCE, CHR 0xBC, CHR ''s''] then Some 1000
      else if u = ''ms'' then Some 1000000
      else if u = ''s'' then Some 1000000000
      else if u = ''m'' then Some 60000000000
      else if u = ''h'' then Some 3600000000000
      else None)"

definition invalid :: error where "invalid = Failure ''time: invalid duration''"

definition unit_char :: "char \<Rightarrow> bool" where
  "unit_char c \<longleftrightarrow> c \<noteq> CHR ''.'' \<and> \<not> is_digit c"

lemma leadingInt_shorter: "leadingInt s x = Some (v, s') \<Longrightarrow> length s' \<le> length s"
proof (induction s x rule: leadingInt.induct)
  case (2 c s x)
  then show ?case by (fastforce simp: Let_def split: if_splits)
qed simp

lemma leadingFraction_shorter: "leadingFraction s x sc ov = (f, sc', s') \<Longrightarrow> length s' \<le> length s"
proof (induction s x sc ov rule: leadingFraction.induct)
  case (2 c s x sc ov)
  then show ?case by (fastforce simp: Let_def split: if_splits)
qed simp

lemma after_unit_shorter: "takeWhile P s \<noteq> [] \<Longrightarrow> length (dropWhile P s) < length s"
  by (cases s) (auto simp: le_imp_less_Suc length_dropWhile_le split: if_splits)

text \<open>What stands between two units: the number before and after the point, its scale, whether there
  is one at all, and the rest.\<close>

definition parse_number :: "string \<Rightarrow> (nat \<times> nat \<times> nat \<times> bool \<times> string) option" where
  "parse_number s =
     (case leadingInt s 0 of
        None \<Rightarrow> None
      | Some (v, s1) \<Rightarrow>
          let pre = (length s1 \<noteq> length s)
          in if s1 \<noteq> [] \<and> hd s1 = CHR ''.''
             then (case leadingFraction (tl s1) 0 1 False of (f, scale, s2) \<Rightarrow>
                     Some (v, f, scale, pre \<or> length s2 \<noteq> length (tl s1), s2))
             else Some (v, 0, 1, pre, s1))"

lemma parse_number_shorter: "parse_number s = Some (v, f, sc, n, s') \<Longrightarrow> length s' \<le> length s"
  using leadingInt_shorter [of s 0] leadingFraction_shorter
  by (fastforce simp: parse_number_def Let_def split: option.splits prod.splits if_splits)

function parse_units :: "(nat \<Rightarrow> nat \<Rightarrow> nat \<Rightarrow> nat) \<Rightarrow> nat \<Rightarrow> string \<Rightarrow> nat option" where
  "parse_units frac d s =
     (if s = [] then Some d
      else if \<not> (hd s = CHR ''.'' \<or> is_digit (hd s)) then None
      else case parse_number s of
             None \<Rightarrow> None
           | Some (v, f, scale, number, s') \<Rightarrow>
               if \<not> number then None
               else if takeWhile unit_char s' = [] then None
               else case unitMap (takeWhile unit_char s') of
                      None \<Rightarrow> None
                    | Some unit \<Rightarrow>
                        if v > 2 ^ 63 div unit then None
                        else let v = v * unit;
                                 v' = (if f > 0 then v + frac f unit scale else v)
                             in if f > 0 \<and> v' > 2 ^ 63 then None
                                else let d = (d + v') mod 2 ^ 64
                                     in if d > 2 ^ 63 then None
                                        else parse_units frac d (dropWhile unit_char s'))"
  by pat_completeness auto
termination
proof (relation "measure (\<lambda>(frac, d, s). length s)")
  fix frac :: "nat \<Rightarrow> nat \<Rightarrow> nat \<Rightarrow> nat" and d s p v p2 f p3 sc p4 n s' unit x v' d'
  assume "parse_number s = Some p" "(v, p2) = p" "(f, p3) = p2" "(sc, p4) = p3" "(n, s') = p4"
    "takeWhile unit_char s' \<noteq> []"
  then have "length s' \<le> length s" using parse_number_shorter [of s v f sc n s'] by auto
  with after_unit_shorter [OF \<open>takeWhile unit_char s' \<noteq> []\<close>]
  show "((frac, d', dropWhile unit_char s'), frac, d, s) \<in> measure (\<lambda>(frac, d, s). length s)" by simp
qed simp

declare parse_units.simps [simp del]

definition ParseDuration :: "(nat \<Rightarrow> nat \<Rightarrow> nat \<Rightarrow> nat) \<Rightarrow> string \<Rightarrow> error + int" where
  "ParseDuration frac s =
     (let signed = (s \<noteq> [] \<and> (hd s = CHR ''-'' \<or> hd s = CHR ''+''));
          neg = (s \<noteq> [] \<and> hd s = CHR ''-'');
          s = (if signed then tl s else s)
      in if s = ''0'' then Inr 0
         else if s = [] then Inl invalid
         else case parse_units frac 0 s of
                None \<Rightarrow> Inl invalid
              | Some d \<Rightarrow>
                  if neg then Inr (- int d)
                  else if d > 2 ^ 63 - 1 then Inl invalid
                  else Inr (int d))"

subsection \<open>Numbers in digits\<close>

definition digits_value :: "nat \<Rightarrow> string \<Rightarrow> nat" where
  "digits_value x ds = foldl (\<lambda>x c. x * 10 + digit_value c) x ds"

lemma digits_value_simps [simp]:
  "digits_value x [] = x"
  "digits_value x (c # ds) = digits_value (x * 10 + digit_value c) ds"
  by (simp_all add: digits_value_def)

lemma digit_char_simps [simp]:
  "d < 10 \<Longrightarrow> is_digit (digit_char d)" "d < 10 \<Longrightarrow> digit_value (digit_char d) = d"
  by (simp_all add: digit_char_def is_digit_def digit_value_def Let_def)

lemma digits_value_zeros: "digits_value x ds = x * 10 ^ length ds + digits_value 0 ds"
proof (induction ds arbitrary: x)
  case (Cons c ds)
  from Cons [of "x * 10 + digit_value c"] Cons [of "digit_value c"] show ?case
    by (simp add: algebra_simps)
qed simp

lemma digits_value_less: "list_all is_digit ds \<Longrightarrow> digits_value 0 ds < 10 ^ length ds"
proof (induction ds)
  case (Cons c ds)
  then have "digit_value c \<le> 9" by (auto simp: is_digit_def digit_value_def Let_def)
  then have a: "digit_value c * 10 ^ length ds \<le> 9 * 10 ^ length ds" by (rule mult_le_mono1)
  have b: "digits_value 0 ds < 10 ^ length ds" using Cons by simp
  have "digits_value 0 (c # ds) = digit_value c * 10 ^ length ds + digits_value 0 ds"
    using digits_value_zeros [of "digit_value c" ds] by simp
  also have "\<dots> < 9 * 10 ^ length ds + 10 ^ length ds" using a b by (rule add_le_less_mono)
  finally show ?case by simp
qed simp

lemma digits_value_ge: "x \<le> digits_value x ds"
  using digits_value_zeros [of x ds] by (simp add: trans_le_add1)

text \<open>The printed number is in front of the buffer.\<close>

lemma fmt_digits_spec:
  "\<exists>ds. fmt_digits v buf = ds @ buf \<and> list_all is_digit ds \<and> digits_value 0 ds = v \<and> (v \<noteq> 0 \<longrightarrow> ds \<noteq> [])"
proof (induction v buf rule: fmt_digits.induct)
  case (1 v buf)
  show ?case
  proof (cases "v = 0")
    case True
    then show ?thesis by (simp add: fmt_digits.simps [of 0])
  next
    case False
    with 1 obtain ds where ds: "fmt_digits (v div 10) (digit_char (v mod 10) # buf) = ds @ digit_char (v mod 10) # buf"
      "list_all is_digit ds" "digits_value 0 ds = v div 10" by blast
    have "digits_value 0 (ds @ [digit_char (v mod 10)]) = v"
      using ds(3) by (simp add: digits_value_def)
    with ds False show ?thesis
      by (intro exI [of _ "ds @ [digit_char (v mod 10)]"]) (simp add: fmt_digits.simps [of v])
  qed
qed

lemma fmtInt_spec:
  obtains ds where "fmtInt v buf = ds @ buf" "list_all is_digit ds" "digits_value 0 ds = v" "ds \<noteq> []"
proof (cases "v = 0")
  case True
  then show ?thesis
    using that [of "[CHR ''0'']"] by (simp add: fmtInt_def is_digit_def digit_value_def)
next
  case False
  with fmt_digits_spec [of v buf] that show ?thesis by (auto simp: fmtInt_def)
qed

text \<open>The printed fraction: its digits, the zeros at its end left out, and nothing for zero.\<close>

lemma frac_loop_spec:
  "\<exists>ds. frac_loop n p v buf = (p \<or> v mod 10 ^ n \<noteq> 0, v div 10 ^ n, ds @ buf) \<and> list_all is_digit ds \<and>
     length ds \<le> n \<and> (p \<longrightarrow> length ds = n) \<and> (\<not> p \<and> v mod 10 ^ n = 0 \<longrightarrow> ds = []) \<and>
     digits_value 0 ds * 10 ^ (n - length ds) = v mod 10 ^ n"
proof (induction n arbitrary: p v buf)
  case (Suc n)
  define digit where "digit = v mod 10"
  define p' where "p' \<longleftrightarrow> p \<or> digit \<noteq> 0"
  have parts: "v mod 10 ^ Suc n = v div 10 mod 10 ^ n * 10 + digit" "v div 10 ^ Suc n = v div 10 div 10 ^ n"
    by (simp_all add: digit_def mod_mult2_eq div_mult2_eq)
  obtain ds where ds: "frac_loop n p' (v div 10) (if p' then digit_char digit # buf else buf) =
      (p' \<or> v div 10 mod 10 ^ n \<noteq> 0, v div 10 div 10 ^ n, ds @ (if p' then digit_char digit # buf else buf))"
    "list_all is_digit ds" "length ds \<le> n" "p' \<longrightarrow> length ds = n"
    "\<not> p' \<and> v div 10 mod 10 ^ n = 0 \<longrightarrow> ds = []" "digits_value 0 ds * 10 ^ (n - length ds) = v div 10 mod 10 ^ n"
    using Suc.IH by blast
  have run: "frac_loop (Suc n) p v buf =
      frac_loop n p' (v div 10) (if p' then digit_char digit # buf else buf)"
    by (simp add: Let_def digit_def p'_def)
  have d: "digit < 10" by (simp add: digit_def)
  show ?case
  proof (cases p')
    case True
    have "digits_value 0 (ds @ [digit_char digit]) = digits_value 0 ds * 10 + digit"
      using d by (simp add: digits_value_def)
    with ds True d parts run show ?thesis
      by (intro exI [of _ "ds @ [digit_char digit]"]) (auto simp: p'_def)
  next
    case False
    then have z: "digit = 0" "\<not> p" by (simp_all add: p'_def)
    with ds False parts run show ?thesis
      by (intro exI [of _ ds]) (auto simp: Suc_diff_le)
  qed
qed simp

lemma fmtFrac_spec:
  obtains (whole) "v mod 10 ^ prec = 0" "fmtFrac prec v buf = (v div 10 ^ prec, buf)"
  | (fraction) ds where "v mod 10 ^ prec \<noteq> 0" "fmtFrac prec v buf = (v div 10 ^ prec, CHR ''.'' # ds @ buf)"
      "list_all is_digit ds" "ds \<noteq> []" "length ds \<le> prec"
      "digits_value 0 ds * 10 ^ (prec - length ds) = v mod 10 ^ prec"
proof -
  obtain ds where ds: "frac_loop prec False v buf = (v mod 10 ^ prec \<noteq> 0, v div 10 ^ prec, ds @ buf)"
    "list_all is_digit ds" "length ds \<le> prec" "v mod 10 ^ prec = 0 \<longrightarrow> ds = []"
    "digits_value 0 ds * 10 ^ (prec - length ds) = v mod 10 ^ prec"
    using frac_loop_spec [of prec False v buf] by auto
  show thesis
  proof (cases "v mod 10 ^ prec = 0")
    case True
    with ds whole show ?thesis by (simp add: fmtFrac_def)
  next
    case False
    with ds(5) have "ds \<noteq> []" by auto
    with False ds fraction show ?thesis by (simp add: fmtFrac_def)
  qed
qed

subsection \<open>Reading them back\<close>

lemma leadingInt_digits:
  "list_all is_digit ds \<Longrightarrow> (rest = [] \<or> \<not> is_digit (hd rest)) \<Longrightarrow> digits_value x ds \<le> 2 ^ 63 \<Longrightarrow>
   leadingInt (ds @ rest) x = Some (digits_value x ds, rest)"
proof (induction ds arbitrary: x)
  case Nil
  then show ?case by (cases rest) auto
next
  case (Cons c ds)
  from digits_value_ge [of "x * 10 + digit_value c" ds] Cons.prems(3)
  have "x * 10 + digit_value c \<le> 2 ^ 63" by simp
  with Cons show ?case by (simp add: Let_def)
qed

lemma leadingFraction_digits:
  "list_all is_digit ds \<Longrightarrow> (rest = [] \<or> \<not> is_digit (hd rest)) \<Longrightarrow> digits_value x ds < 10 ^ 9 \<Longrightarrow>
   leadingFraction (ds @ rest) x scale False = (digits_value x ds, scale * 10 ^ length ds, rest)"
proof (induction ds arbitrary: x scale)
  case Nil
  then show ?case by (cases rest) auto
next
  case (Cons c ds)
  from digits_value_ge [of "x * 10 + digit_value c" ds] Cons.prems(3)
  have "x * 10 + digit_value c < 10 ^ 9" by simp
  with Cons show ?case by (simp add: Let_def mult.assoc)
qed

text \<open>A number in front of a unit.\<close>

definition unit_start :: "string \<Rightarrow> bool" where
  "unit_start s \<longleftrightarrow> s \<noteq> [] \<and> unit_char (hd s)"

lemma parse_whole:
  assumes "list_all is_digit ds" "ds \<noteq> []" "digits_value 0 ds \<le> 2 ^ 63" "unit_start rest"
  shows "parse_number (ds @ rest) = Some (digits_value 0 ds, 0, 1, True, rest)"
  using assms leadingInt_digits [of ds rest 0]
  by (auto simp: parse_number_def unit_start_def unit_char_def Let_def)

lemma parse_fraction:
  assumes "list_all is_digit ds" "ds \<noteq> []" "digits_value 0 ds \<le> 2 ^ 63" "unit_start rest"
    and "list_all is_digit fs" "length fs \<le> 9"
  shows "parse_number (ds @ CHR ''.'' # fs @ rest) =
    Some (digits_value 0 ds, digits_value 0 fs, 10 ^ length fs, True, rest)"
proof -
  have "(10::nat) ^ length fs \<le> 10 ^ 9" using assms(6) by (rule power_increasing) simp
  with digits_value_less [OF assms(5)] have "digits_value 0 fs < 10 ^ 9" by simp
  with assms leadingFraction_digits [of fs rest 0 1] leadingInt_digits [of ds "CHR ''.'' # fs @ rest" 0]
  show ?thesis by (auto simp: parse_number_def unit_start_def unit_char_def is_digit_def Let_def)
qed

text \<open>The fraction of a unit that its scale divides is exact.\<close>

definition exact_fractions :: "(nat \<Rightarrow> nat \<Rightarrow> nat \<Rightarrow> nat) \<Rightarrow> bool" where
  "exact_fractions frac \<longleftrightarrow>
     (\<forall>f unit scale. scale dvd unit \<longrightarrow> f < scale \<longrightarrow> frac f unit scale = f * (unit div scale))"

text \<open>\<open>u\<close> is a unit of \<open>unit\<close> nanoseconds, and what follows it starts a number.\<close>

definition unit_then :: "string \<Rightarrow> nat \<Rightarrow> string \<Rightarrow> bool" where
  "unit_then u unit rest \<longleftrightarrow>
     unitMap u = Some unit \<and> u \<noteq> [] \<and> list_all unit_char u \<and> 0 < unit \<and> (rest = [] \<or> is_digit (hd rest))"

lemma unit_then_parts:
  assumes "unit_then u unit rest"
  shows "takeWhile unit_char (u @ rest) = u" "dropWhile unit_char (u @ rest) = rest" "unit_start (u @ rest)"
proof -
  have "takeWhile unit_char rest = []" "dropWhile unit_char rest = rest"
    using assms by (cases rest; auto simp: unit_then_def unit_char_def)+
  with assms show "takeWhile unit_char (u @ rest) = u" "dropWhile unit_char (u @ rest) = rest"
    by (auto simp: unit_then_def list_all_iff)
  from assms show "unit_start (u @ rest)" by (cases u) (auto simp: unit_then_def unit_start_def)
qed

lemma parse_units_step:
  assumes s: "s \<noteq> []" "is_digit (hd s)" and n: "parse_number s = Some (v, f, scale, True, u @ rest)"
    and u: "unit_then u unit rest" and w: "w = (if f > 0 then v * unit + frac f unit scale else v * unit)"
    and fits: "v * unit \<le> 2 ^ 63" "d + w \<le> 2 ^ 63"
  shows "parse_units frac d s = parse_units frac (d + w) rest"
proof -
  have g: "unitMap u = Some unit" "u \<noteq> []" "0 < unit" using u by (simp_all add: unit_then_def)
  have v: "\<not> v > 2 ^ 63 div unit" using fits(1) g(3) by (simp add: less_eq_div_iff_mult_less_eq not_less)
  have m: "(d + w) mod 2 ^ 64 = d + w" "\<not> w > 2 ^ 63" "\<not> d + w > 2 ^ 63" using fits(2) by simp_all
  have "parse_units frac d s =
    (if f > 0 \<and> w > 2 ^ 63 then None
     else let d = (d + w) mod 2 ^ 64 in if d > 2 ^ 63 then None else parse_units frac d rest)"
    unfolding w by (subst parse_units.simps) (use s n g v unit_then_parts [OF u] in \<open>simp add: Let_def\<close>)
  also have "\<dots> = parse_units frac (d + w) rest"
    by (simp only: m Let_def if_False simp_thms)
  finally show ?thesis .
qed

lemma factor_le:
  assumes "0 < unit" "d + (v * unit + r) \<le> (b :: nat)"
  shows "v \<le> b"
proof -
  have "v * 1 \<le> v * unit" using assms(1) by (intro mult_le_mono) simp_all
  with assms(2) show ?thesis by linarith
qed

lemma parse_units_whole:
  assumes ds: "list_all is_digit ds" "ds \<noteq> []" and u: "unit_then u unit rest"
    and fits: "d + digits_value 0 ds * unit \<le> 2 ^ 63"
  shows "parse_units frac d (ds @ u @ rest) = parse_units frac (d + digits_value 0 ds * unit) rest"
proof (rule parse_units_step [OF _ _ _ u])
  from u fits have "digits_value 0 ds \<le> 2 ^ 63"
    using factor_le [of unit d _ 0] by (simp add: unit_then_def)
  from parse_whole [OF ds this unit_then_parts(3) [OF u]]
  show "parse_number (ds @ u @ rest) = Some (digits_value 0 ds, 0, 1, True, u @ rest)" .
qed (use ds fits in \<open>(cases ds; simp)+\<close>)

lemma parse_units_fraction:
  assumes ds: "list_all is_digit ds" "ds \<noteq> []" and u: "unit_then u unit rest"
    and fs: "list_all is_digit fs" "length fs \<le> 9" "10 ^ length fs dvd unit" and frac: "exact_fractions frac"
    and fits: "d + (digits_value 0 ds * unit + digits_value 0 fs * (unit div 10 ^ length fs)) \<le> 2 ^ 63"
  shows "parse_units frac d (ds @ CHR ''.'' # fs @ u @ rest) =
    parse_units frac (d + (digits_value 0 ds * unit + digits_value 0 fs * (unit div 10 ^ length fs))) rest"
proof (rule parse_units_step [OF _ _ _ u])
  from u have "digits_value 0 ds \<le> 2 ^ 63"
    by (intro factor_le [OF _ fits]) (simp add: unit_then_def)
  from parse_fraction [OF ds this unit_then_parts(3) [OF u] fs(1,2)]
  show "parse_number (ds @ CHR ''.'' # fs @ u @ rest) =
      Some (digits_value 0 ds, digits_value 0 fs, 10 ^ length fs, True, u @ rest)" .
  show "digits_value 0 ds * unit + digits_value 0 fs * (unit div 10 ^ length fs) =
      (if 0 < digits_value 0 fs then digits_value 0 ds * unit + frac (digits_value 0 fs) unit (10 ^ length fs)
       else digits_value 0 ds * unit)"
    using frac fs(3) digits_value_less [OF fs(1)] by (auto simp: exact_fractions_def)
qed (use ds fits in \<open>(cases ds; simp)+\<close>)

subsection \<open>The round trip\<close>

lemma fmtInt_start: "fmtInt v buf \<noteq> []" "is_digit (hd (fmtInt v buf))"
proof -
  obtain ds where ds: "fmtInt v buf = ds @ buf" "list_all is_digit ds" "ds \<noteq> []" by (rule fmtInt_spec)
  then show "fmtInt v buf \<noteq> []" "is_digit (hd (fmtInt v buf))" by (cases ds; simp)+
qed

lemma parse_fmtInt:
  assumes u: "unit_then u unit rest" and fits: "d + v * unit \<le> 2 ^ 63"
  shows "parse_units frac d (fmtInt v (u @ rest)) = parse_units frac (d + v * unit) rest"
proof -
  obtain ds where ds: "fmtInt v (u @ rest) = ds @ u @ rest" "list_all is_digit ds" "digits_value 0 ds = v" "ds \<noteq> []"
    by (rule fmtInt_spec)
  from parse_units_whole [OF ds(2,4) u, of d frac] fits show ?thesis by (simp add: ds(1,3))
qed

lemma parse_fmtFrac:
  assumes u: "unit_then u (10 ^ prec) rest" and prec: "prec \<le> 9" and frac: "exact_fractions frac"
    and buf: "fmtFrac prec n (u @ rest) = (q, buf)" and fits: "d + (v * 10 ^ prec + n mod 10 ^ prec) \<le> 2 ^ 63"
  shows "parse_units frac d (fmtInt v buf) = parse_units frac (d + (v * 10 ^ prec + n mod 10 ^ prec)) rest"
    and "q = n div 10 ^ prec"
proof -
  show "parse_units frac d (fmtInt v buf) = parse_units frac (d + (v * 10 ^ prec + n mod 10 ^ prec)) rest"
  proof (rule fmtFrac_spec [of n prec "u @ rest"])
    assume "n mod 10 ^ prec = 0" "fmtFrac prec n (u @ rest) = (n div 10 ^ prec, u @ rest)"
    with parse_fmtInt [OF u, of d v frac] fits buf show ?thesis by simp
  next
    fix fs
    assume fs: "fmtFrac prec n (u @ rest) = (n div 10 ^ prec, CHR ''.'' # fs @ u @ rest)"
      "list_all is_digit fs" "length fs \<le> prec" "digits_value 0 fs * 10 ^ (prec - length fs) = n mod 10 ^ prec"
    obtain ds where ds: "fmtInt v buf = ds @ buf" "list_all is_digit ds" "digits_value 0 ds = v" "ds \<noteq> []"
      by (rule fmtInt_spec)
    have "(10::nat) ^ prec div 10 ^ length fs = 10 ^ (prec - length fs)"
      using fs(3) by (simp add: power_diff)
    with fs(4) have F: "digits_value 0 fs * (10 ^ prec div 10 ^ length fs) = n mod 10 ^ prec" by simp
    have "length fs \<le> 9" "(10::nat) ^ length fs dvd 10 ^ prec"
      using fs(3) prec by (simp_all add: le_imp_power_dvd)
    from parse_units_fraction [OF ds(2,4) u fs(2) this frac, of d] F ds fs(1) buf fits show ?thesis by simp
  qed
  show "q = n div 10 ^ prec"
    by (rule fmtFrac_spec [of n prec "u @ rest"]) (use buf in simp_all)
qed

lemma units [simp]:
  "unit_then ''ns'' 1 []" "unit_then (micro @ ''s'') (10 ^ 3) []" "unit_then ''ms'' (10 ^ 6) []"
  "unit_then ''s'' (10 ^ 9) []"
  "rest = [] \<or> is_digit (hd rest) \<Longrightarrow> unit_then ''m'' 60000000000 rest"
  "rest = [] \<or> is_digit (hd rest) \<Longrightarrow> unit_then ''h'' 3600000000000 rest"
  by (simp_all add: unit_then_def unitMap_def unit_char_def is_digit_def micro_def Let_def)

text \<open>The seconds and what stands in front of them.\<close>

definition seconds_String :: "nat \<Rightarrow> string" where
  "seconds_String u =
     (case fmtFrac 9 u ''s'' of (u, buf) \<Rightarrow>
        let buf = fmtInt (u mod 60) buf; u = u div 60
        in if u > 0
           then (let buf = fmtInt (u mod 60) (CHR ''m'' # buf); u = u div 60
                 in if u > 0 then fmtInt u (CHR ''h'' # buf) else buf)
           else buf)"

lemma parse_seconds:
  assumes frac: "exact_fractions frac" and n: "n \<le> 2 ^ 63"
  shows "parse_units frac 0 (seconds_String n) = Some n"
    and "seconds_String n \<noteq> [] \<and> is_digit (hd (seconds_String n))"
proof -
  obtain q buf where f: "fmtFrac 9 n ''s'' = (q, buf)" by force
  note sec = parse_fmtFrac [where u = "''s''" and rest = "[]" and prec = 9 and frac = frac and n = n and q = q and
      buf = buf, simplified append_Nil2, OF units(4) order.refl frac f]
  have q: "q = n div 10 ^ 9"
    by (rule fmtFrac_spec [of n 9 "''s''"]) (use f in simp_all)
  define secs where "secs = fmtInt (q mod 60) buf"
  define mins where "mins = fmtInt (q div 60 mod 60) (CHR ''m'' # secs)"
  have start: "is_digit (hd secs)" "is_digit (hd mins)" "secs \<noteq> []" "mins \<noteq> []"
    by (simp_all add: secs_def mins_def fmtInt_start)
  have q3: "q = q div 60 * 60 + q mod 60" "q div 60 = q div 60 div 60 * 60 + q div 60 mod 60"
    by simp_all
  have total: "n = q div 60 div 60 * 3600000000000 + q div 60 mod 60 * 60000000000 + (q mod 60 * 10 ^ 9 + n mod 10 ^ 9)"
  proof -
    have sums: "n = (h * 3600 + m * 60 + s) * 1000000000 + r \<Longrightarrow>
        n = h * 3600000000000 + m * 60000000000 + (s * 1000000000 + r)" for h m s r :: nat
      by (simp add: algebra_simps)
    have "n = q * 1000000000 + n mod 10 ^ 9" unfolding q by simp
    moreover have "q = q div 60 div 60 * 3600 + q div 60 mod 60 * 60 + q mod 60" using q3 by linarith
    ultimately have "n = (q div 60 div 60 * 3600 + q div 60 mod 60 * 60 + q mod 60) * 1000000000 + n mod 10 ^ 9"
      by argo
    from sums [OF this] show ?thesis by simp
  qed
  have shape: "seconds_String n =
      (if q div 60 > 0 then if q div 60 div 60 > 0 then fmtInt (q div 60 div 60) (CHR ''h'' # mins) else mins else secs)"
    by (simp add: seconds_String_def f secs_def mins_def Let_def)
  have p1: "parse_units frac d secs = Some (d + (q mod 60 * 10 ^ 9 + n mod 10 ^ 9))"
    if "d + (q mod 60 * 10 ^ 9 + n mod 10 ^ 9) \<le> 2 ^ 63" for d
    unfolding secs_def using sec(1) [OF that] by (simp add: parse_units.simps [of frac _ "[]"])
  have p2: "parse_units frac d mins = parse_units frac (d + q div 60 mod 60 * 60000000000) secs"
    if "d + q div 60 mod 60 * 60000000000 \<le> 2 ^ 63" for d
    unfolding mins_def using parse_fmtInt [of "''m''" _ secs, OF units(5) that] start by simp
  have p3: "parse_units frac 0 (fmtInt (q div 60 div 60) (CHR ''h'' # mins)) =
      parse_units frac (q div 60 div 60 * 3600000000000) mins"
    using parse_fmtInt [of "''h''" _ mins 0 "q div 60 div 60", OF units(6)] start n total by simp
  show "parse_units frac 0 (seconds_String n) = Some n"
  proof (cases "q div 60 > 0")
    case False
    then have "q div 60 = 0" by simp
    with total have "q mod 60 * 10 ^ 9 + n mod 10 ^ 9 = n" by simp
    with p1 [of 0] n False show ?thesis by (simp add: shape)
  next
    case True
    have b1: "q div 60 div 60 * 3600000000000 + q div 60 mod 60 * 60000000000 \<le> 2 ^ 63"
      and b2: "q div 60 div 60 * 3600000000000 + q div 60 mod 60 * 60000000000 +
        (q mod 60 * 10 ^ 9 + n mod 10 ^ 9) \<le> 2 ^ 63"
      using n total by linarith+
    have all: "parse_units frac (q div 60 div 60 * 3600000000000) mins = Some n"
      unfolding p2 [OF b1] p1 [OF b2] using total by simp
    show ?thesis
    proof (cases "q div 60 div 60 > 0")
      case hours: True
      with True p3 all show ?thesis by (simp add: shape)
    next
      case False
      then have z: "q div 60 div 60 = 0" by simp
      with all True False show ?thesis by (simp add: shape z)
    qed
  qed
  show "seconds_String n \<noteq> [] \<and> is_digit (hd (seconds_String n))"
    using start by (simp add: shape fmtInt_start)
qed

definition magnitude_String :: "nat \<Rightarrow> string" where
  "magnitude_String u =
     (if u < 1000000000 then
        (if u = 0 then ''0s''
         else if u < 1000 then fmtInt u ''ns''
         else if u < 1000000 then (case fmtFrac 3 u (micro @ ''s'') of (u, buf) \<Rightarrow> fmtInt u buf)
         else (case fmtFrac 6 u ''ms'' of (u, buf) \<Rightarrow> fmtInt u buf))
      else seconds_String u)"

lemma Duration_String_magnitude:
  "Duration_String d =
     (if d < 0 then CHR ''-'' # magnitude_String (nat \<bar>d\<bar>) else magnitude_String (nat \<bar>d\<bar>))"
  unfolding Duration_String_def magnitude_String_def seconds_String_def Let_def ..

lemma parse_small:
  assumes "exact_fractions frac" "unit_then u (10 ^ prec) []" "prec \<le> 9" "fmtFrac prec n u = (q, buf)" "n \<le> 2 ^ 63"
  shows "parse_units frac 0 (fmtInt q buf) = Some n"
proof -
  have q: "q = n div 10 ^ prec"
    by (rule fmtFrac_spec [of n prec u]) (use assms(4) in simp_all)
  have n: "q * 10 ^ prec + n mod 10 ^ prec = n" unfolding q by (rule div_mult_mod_eq)
  from parse_fmtFrac(1) [where rest = "[]", simplified append_Nil2, OF assms(2,3,1,4), of 0 q] n assms(5)
  show ?thesis by (simp add: parse_units.simps [of frac _ "[]"])
qed

lemma parse_magnitude:
  assumes frac: "exact_fractions frac" and n: "n \<le> 2 ^ 63"
  shows "parse_units frac 0 (magnitude_String n) = Some n"
    and "magnitude_String n \<noteq> [] \<and> is_digit (hd (magnitude_String n))"
proof -
  consider "n = 0" | "0 < n" "n < 1000" | "1000 \<le> n" "n < 1000000" | "1000000 \<le> n" "n < 1000000000"
    | "1000000000 \<le> n" by linarith
  then have "parse_units frac 0 (magnitude_String n) = Some n \<and>
      magnitude_String n \<noteq> [] \<and> is_digit (hd (magnitude_String n))"
  proof cases
    case 1
    have "parse_units frac 0 (fmtInt 0 (''s'' @ [])) = Some 0"
      using parse_fmtInt [OF units(4), of 0 0 frac] by (simp add: parse_units.simps [of frac _ "[]"])
    with 1 show ?thesis by (simp add: magnitude_String_def fmtInt_def is_digit_def)
  next
    case 2
    have "parse_units frac 0 (fmtInt n (''ns'' @ [])) = Some n"
      using parse_fmtInt [OF units(1), of 0 n frac] n by (simp add: parse_units.simps [of frac _ "[]"])
    with 2 show ?thesis by (simp add: magnitude_String_def fmtInt_start)
  next
    case 3
    obtain q buf where f: "fmtFrac 3 n (micro @ ''s'') = (q, buf)" by force
    from parse_small [OF frac units(2) _ f n] 3 f show ?thesis
      by (simp add: magnitude_String_def fmtInt_start)
  next
    case 4
    obtain q buf where f: "fmtFrac 6 n ''ms'' = (q, buf)" by force
    from parse_small [OF frac units(3) _ f n] 4 f show ?thesis
      by (simp add: magnitude_String_def fmtInt_start)
  next
    case 5
    with parse_seconds [OF frac n] show ?thesis by (simp add: magnitude_String_def)
  qed
  then show "parse_units frac 0 (magnitude_String n) = Some n"
    "magnitude_String n \<noteq> [] \<and> is_digit (hd (magnitude_String n))" by blast+
qed

lemma parse_zero: "parse_units frac 0 ''0'' = None"
  by (simp add: parse_units.simps parse_number_def is_digit_def digit_value_def Let_def)

lemma ParseDuration_String:
  assumes frac: "exact_fractions frac" and d: "- (2 ^ 63) \<le> d" "d < 2 ^ 63"
  shows "ParseDuration frac (Duration_String d) = Inr d"
proof -
  define m where "m = magnitude_String (nat \<bar>d\<bar>)"
  have "nat \<bar>d\<bar> \<le> 2 ^ 63" using d by (simp add: nat_le_iff abs_le_iff)
  note p = parse_magnitude [OF frac this, folded m_def]
  have D: "Duration_String d = (if d < 0 then CHR ''-'' # m else m)"
    unfolding m_def by (rule Duration_String_magnitude)
  have not0: "m \<noteq> ''0''" using p(1) parse_zero [of frac] by auto
  have sign: "hd m \<noteq> CHR ''-''" "hd m \<noteq> CHR ''+''" using p(2) by (auto simp: is_digit_def)
  show ?thesis
  proof (cases "d < 0")
    case True
    with p not0 show ?thesis by (simp add: D ParseDuration_def Let_def)
  next
    case False
    with d(2) have "\<not> nat \<bar>d\<bar> > 2 ^ 63 - 1" by (simp add: nat_le_iff)
    with False p not0 sign show ?thesis
      by (simp add: D ParseDuration_def Let_def)
  qed
qed

text \<open>C32: a duration that is marshalled, as Go prints it, and unmarshalled again is the same duration, for
  every value of 64 bits; the JSON strings and the floating-point step, whose result is a whole
  number there, are the only hypotheses.\<close>

theorem duration_roundtrip:
  assumes json: "\<And>s b. json_string s = Inr b \<Longrightarrow> json_decode b = Inr (JString s)"
    and frac: "\<And>f unit scale. scale dvd unit \<Longrightarrow> f < scale \<Longrightarrow> frac f unit scale = f * (unit div scale)"
    and range: "- (2 ^ 63) \<le> nanoseconds d" "nanoseconds d < 2 ^ 63"
    and b: "MarshalJSON json_string Duration_String d = Inr b"
  shows "UnmarshalJSON json_decode to_int64 (ParseDuration frac) b d0 = (None, d)"
proof -
  have "exact_fractions frac" using frac by (simp add: exact_fractions_def)
  from ParseDuration_String [OF this range] json [OF b [unfolded MarshalJSON_def]]
  show ?thesis by (simp add: UnmarshalJSON_def)
qed

lemma frac_loop_rec:
  "frac_loop n print v buf =
     (if n = 0 then (print, v, buf)
      else frac_loop (n - 1) (print \<or> v mod 10 \<noteq> 0) (v div 10)
        (if print \<or> v mod 10 \<noteq> 0 then digit_char (v mod 10) # buf else buf))"
  by (cases n) (simp_all add: Let_def)

theorem duration_roundtrip_witness:
  "MarshalJSON (\<lambda>s. Inr (CHR 0x22 # s @ [CHR 0x22])) Duration_String (Duration 90061500000) =
     Inr (CHR 0x22 # ''1m30.0615s'' @ [CHR 0x22]) \<and>
   UnmarshalJSON (\<lambda>b. Inr (JString (butlast (tl b))) :: error + nat json_value) int
     (ParseDuration (\<lambda>f unit scale. f * (unit div scale))) (CHR 0x22 # ''1m30.0615s'' @ [CHR 0x22]) (Duration 0) =
     (None, Duration 90061500000)"
proof -
  have b: "MarshalJSON (\<lambda>s. Inr (CHR 0x22 # s @ [CHR 0x22])) Duration_String (Duration 90061500000) =
     Inr (CHR 0x22 # ''1m30.0615s'' @ [CHR 0x22])"
    by (simp add: MarshalJSON_def Duration_String_def fmtFrac_def fmtInt_def frac_loop_rec fmt_digits.simps
        digit_char_def char_of_def bit_0)
  have "UnmarshalJSON (\<lambda>b. Inr (JString (butlast (tl b))) :: error + nat json_value) int
      (ParseDuration (\<lambda>f unit scale. f * (unit div scale))) (CHR 0x22 # ''1m30.0615s'' @ [CHR 0x22]) (Duration 0) =
      (None, Duration 90061500000)"
    by (rule duration_roundtrip [OF _ _ _ _ b]) auto
  with b show ?thesis by blast
qed

end
