(* ===== verification/Backoff.thy ===== *)
theory Backoff
  imports Prelude "HOL-Library.Word" "HOL-Library.Log_Nat"
begin

text \<open>
  \<open>backoff/backoff.go\<close> and \<open>backoff/retry.go\<close>: the waits between attempts and the retry loop.
  The \<open>float64\<close> arithmetic of the machine is a parameter (\<open>float64\<close>), so that the bounds below
  hold however it rounds, overflows or treats a NaN; \<open>whole64\<close> is the instance on whole numbers,
  rounded and overflowing as IEEE 754 has it.  Durations are
  nanoseconds; the program only compares them.  The attempt counter is a 64 bit word.
\<close>

record 'f float64 =
  f_of_int :: "int \<Rightarrow> 'f"
  f_of_uint64 :: "64 word \<Rightarrow> 'f"
  f_mul :: "'f \<Rightarrow> 'f \<Rightarrow> 'f"
  f_add :: "'f \<Rightarrow> 'f \<Rightarrow> 'f"
  f_sub :: "'f \<Rightarrow> 'f \<Rightarrow> 'f"
  f_pow :: "'f \<Rightarrow> 'f \<Rightarrow> 'f"
  f_less :: "'f \<Rightarrow> 'f \<Rightarrow> bool"
  f_le :: "'f \<Rightarrow> 'f \<Rightarrow> bool"
  f_to_int64 :: "'f \<Rightarrow> int"

record 'f Backoff =
  b_attempt :: "64 word"
  b_Factor :: 'f
  b_Jitter :: bool
  b_Min :: int
  b_Max :: int

definition Millisecond :: int where "Millisecond = 1000000"
definition Second :: int where "Second = 1000 * Millisecond"
definition Minute :: int where "Minute = 60 * Second"

definition maxInt64 :: "'f float64 \<Rightarrow> 'f" where
  "maxInt64 fl = f_of_int fl (9223372036854775807 - 512)"

text \<open>\<open>rnd\<close> is what \<open>rand.Float64\<close> returns in the call.\<close>

definition ForAttempt :: "'f float64 \<Rightarrow> 'f \<Rightarrow> 'f Backoff \<Rightarrow> 'f \<Rightarrow> int" where
  "ForAttempt fl rnd b attempt =
     (let min = (if b_Min b \<le> 0 then 100 * Millisecond else b_Min b);
          max = (if b_Max b \<le> 0 then 10 * Second else b_Max b)
      in if min \<ge> max then max
         else
           let factor = (if f_le fl (b_Factor b) (f_of_int fl 0) then f_of_int fl 2 else b_Factor b);
               minf = f_of_int fl min;
               durf = f_mul fl minf (f_pow fl factor attempt);
               durf = (if b_Jitter b then f_add fl (f_mul fl rnd (f_sub fl durf minf)) minf else durf)
           in if f_less fl (maxInt64 fl) durf then max
              else
                let dur = f_to_int64 fl durf
                in if dur < min then min else if dur > max then max else dur)"

definition b_Duration :: "'f float64 \<Rightarrow> 'f \<Rightarrow> 'f Backoff \<Rightarrow> int \<times> 'f Backoff" where
  "b_Duration fl rnd b =
     (let n = b_attempt b + 1
      in (ForAttempt fl rnd b (f_of_uint64 fl (n - 1)), b\<lparr>b_attempt := n\<rparr>))"

definition Reset :: "'f Backoff \<Rightarrow> 'f Backoff" where
  "Reset b = b\<lparr>b_attempt := 0\<rparr>"

definition Attempt :: "'f float64 \<Rightarrow> 'f Backoff \<Rightarrow> 'f" where
  "Attempt fl b = f_of_uint64 fl (b_attempt b)"

definition Copy :: "'f Backoff \<Rightarrow> 'f Backoff" where
  "Copy b = \<lparr>b_attempt = 0, b_Factor = b_Factor b, b_Jitter = b_Jitter b, b_Min = b_Min b, b_Max = b_Max b\<rparr>"

text \<open>
  The loop: \<open>None\<close> when it does not return.  It collects the durations it sleeps; \<open>rnds n\<close> is
  what \<open>rand.Float64\<close> returns after the \<open>n\<close>-th failure.  \<open>op\<close> may panic.
\<close>

partial_function (option) retry_loop ::
  "'f float64 \<Rightarrow> (nat \<Rightarrow> 'f) \<Rightarrow> ('w, error option) go \<Rightarrow> nat \<Rightarrow> 'f Backoff \<Rightarrow> 'w \<Rightarrow> int list \<Rightarrow>
   (unit outcome \<times> 'f Backoff \<times> 'w \<times> int list) option" where
  "retry_loop fl rnds op n b w slept =
     (case op w of (r, w') \<Rightarrow>
       (case r of
          Panicked \<Rightarrow> Some (Panicked, b, w', slept)
        | Returned err \<Rightarrow>
            (case err of
               None \<Rightarrow> Some (Returned (), b, w', slept)
             | Some e \<Rightarrow>
                 (case b_Duration fl (rnds n) b of (d, b') \<Rightarrow>
                    retry_loop fl rnds op (Suc n) b' w' (slept @ [d])))))"

definition RetryWithBackoff ::
  "'f float64 \<Rightarrow> (nat \<Rightarrow> 'f) \<Rightarrow> ('w, error option) go \<Rightarrow> 'f Backoff \<Rightarrow> 'w \<Rightarrow>
   (unit outcome \<times> 'f Backoff \<times> 'w \<times> int list) option" where
  "RetryWithBackoff fl rnds op b w = retry_loop fl rnds op 0 (Reset b) w []"

definition defaultBackoffJitter :: bool where "defaultBackoffJitter = True"
definition defaultBackoffMin :: int where "defaultBackoffMin = 2 * Second"
definition defaultBackoffMax :: int where "defaultBackoffMax = 1 * Minute"

definition Retry ::
  "'f float64 \<Rightarrow> (nat \<Rightarrow> 'f) \<Rightarrow> ('w, error option) go \<Rightarrow> 'w \<Rightarrow>
   (unit outcome \<times> 'f Backoff \<times> 'w \<times> int list) option" where
  "Retry fl rnds op w =
     RetryWithBackoff fl rnds op
       \<lparr>b_attempt = 0, b_Factor = f_of_int fl 0, b_Jitter = defaultBackoffJitter,
        b_Min = defaultBackoffMin, b_Max = defaultBackoffMax\<rparr> w"

subsection \<open>The waits\<close>

definition lower :: "'f Backoff \<Rightarrow> int" where
  "lower b = (if b_Min b \<le> 0 then 100 * Millisecond else b_Min b)"

definition upper :: "'f Backoff \<Rightarrow> int" where
  "upper b = (if b_Max b \<le> 0 then 10 * Second else b_Max b)"

lemma ForAttempt_range: "min (lower b) (upper b) \<le> ForAttempt fl rnd b a \<and> ForAttempt fl rnd b a \<le> upper b"
  unfolding ForAttempt_def Let_def lower_def [symmetric] upper_def [symmetric] by auto

lemma b_Duration_fields [simp]:
  "b_Min (snd (b_Duration fl rnd b)) = b_Min b" "b_Max (snd (b_Duration fl rnd b)) = b_Max b"
  "b_attempt (snd (b_Duration fl rnd b)) = b_attempt b + 1"
  "lower (snd (b_Duration fl rnd b)) = lower b" "upper (snd (b_Duration fl rnd b)) = upper b"
  "fst (b_Duration fl rnd b) = ForAttempt fl rnd b (f_of_uint64 fl (b_attempt b))"
  by (simp_all add: b_Duration_def lower_def upper_def)

lemma Reset_fields [simp]:
  "b_attempt (Reset b) = 0" "lower (Reset b) = lower b" "upper (Reset b) = upper b"
  by (simp_all add: Reset_def lower_def upper_def)

text \<open>C35: whatever the arithmetic and the random number, a wait is positive and at most the maximum, and
  at least the minimum unless that is not below the maximum, defaults put in for values that are
  not positive.\<close>

theorem ForAttempt_bounds:
  "0 < ForAttempt fl rnd b a \<and> ForAttempt fl rnd b a \<le> upper b \<and>
   (lower b < upper b \<longrightarrow> lower b \<le> ForAttempt fl rnd b a) \<and>
   (upper b \<le> lower b \<longrightarrow> ForAttempt fl rnd b a = upper b)"
proof -
  have "0 < lower b" "0 < upper b"
    by (simp_all add: lower_def upper_def Millisecond_def Second_def)
  moreover have "upper b \<le> lower b \<Longrightarrow> ForAttempt fl rnd b a = upper b"
    by (simp add: ForAttempt_def lower_def upper_def Let_def)
  ultimately show ?thesis using ForAttempt_range [of b fl rnd a] by auto
qed

subsection \<open>Whole numbers as the machine has them\<close>

text \<open>
  The non-negative whole numbers among the \<open>float64\<close> values, with one infinity: results are rounded
  to 53 significant bits, to the nearest and to even, and overflow from \<open>2 ^ 1024\<close> on.
\<close>

datatype whole = Whole int | Infinite

definition excess_bits :: "int \<Rightarrow> nat" where
  "excess_bits a = floorlog 2 (nat \<bar>a\<bar>) - 53"

definition nearest53 :: "int \<Rightarrow> int" where
  "nearest53 a =
     (let ulp = 2 ^ excess_bits a; q = a div ulp; r = a mod ulp
      in (if 2 * r < ulp \<or> 2 * r = ulp \<and> even q then q else q + 1) * ulp)"

definition rounded :: "int \<Rightarrow> whole" where
  "rounded a = (if \<bar>nearest53 a\<bar> < 2 ^ 1024 then Whole (nearest53 a) else Infinite)"

fun whole_op :: "(int \<Rightarrow> int \<Rightarrow> int) \<Rightarrow> whole \<Rightarrow> whole \<Rightarrow> whole" where
  "whole_op f (Whole a) (Whole b) = rounded (f a b)"
| "whole_op f _ _ = Infinite"

fun whole_pow :: "whole \<Rightarrow> whole \<Rightarrow> whole" where
  "whole_pow (Whole a) (Whole n) = rounded (a ^ nat n)"
| "whole_pow _ _ = Infinite"

fun whole_less :: "whole \<Rightarrow> whole \<Rightarrow> bool" where
  "whole_less (Whole a) (Whole b) \<longleftrightarrow> a < b"
| "whole_less (Whole a) Infinite \<longleftrightarrow> True"
| "whole_less Infinite _ \<longleftrightarrow> False"

definition whole64 :: "whole float64" where
  "whole64 = \<lparr>f_of_int = rounded, f_of_uint64 = (\<lambda>n. rounded (uint n)),
     f_mul = whole_op (*), f_add = whole_op (+), f_sub = whole_op (-), f_pow = whole_pow,
     f_less = whole_less, f_le = (\<lambda>x y. \<not> whole_less y x),
     f_to_int64 = (\<lambda>x. case x of Whole a \<Rightarrow> a | Infinite \<Rightarrow> 0)\<rparr>"

theorem ForAttempt_bounds_witness:
  "2 \<le> ForAttempt whole64 Infinite \<lparr>b_attempt = 0, b_Factor = Whole 0, b_Jitter = True, b_Min = 2, b_Max = 60\<rparr> (Whole 3)"
  using ForAttempt_bounds [of whole64 Infinite
    "\<lparr>b_attempt = 0, b_Factor = Whole 0, b_Jitter = True, b_Min = 2, b_Max = 60\<rparr>" "Whole 3"]
  by (simp add: lower_def upper_def)

text \<open>A number of 53 bits times a power of two is not rounded.\<close>

lemma nearest53_dvd: "2 ^ excess_bits a dvd a \<Longrightarrow> nearest53 a = a"
  by (simp add: nearest53_def Let_def)

lemma nearest53_scaled:
  assumes "0 < m" "m \<le> 2 ^ 53"
  shows "nearest53 (m * 2 ^ j) = m * 2 ^ j"
proof (rule nearest53_dvd)
  have bits: "floorlog 2 (nat \<bar>m * 2 ^ j\<bar>) = floorlog 2 (nat m) + j"
    using assms(1) by (simp add: nat_mult_distrib nat_power_eq abs_mult)
  show "2 ^ excess_bits (m * 2 ^ j) dvd m * 2 ^ j"
  proof (cases "m = 2 ^ 53")
    case True
    have "floorlog 2 (nat m) \<le> 54"
      by (rule floorlog_leI) (simp_all add: True)
    then have "excess_bits (m * 2 ^ j) \<le> 53 + j" unfolding excess_bits_def bits by simp
    then have "(2::int) ^ excess_bits (m * 2 ^ j) dvd 2 ^ (53 + j)" by (rule le_imp_power_dvd)
    then show ?thesis by (simp add: True power_add)
  next
    case False
    with assms have "nat m < 2 ^ 53" by (simp add: nat_less_iff)
    then have "floorlog 2 (nat m) \<le> 53" by (intro floorlog_leI) simp_all
    then have "excess_bits (m * 2 ^ j) \<le> j" unfolding excess_bits_def bits by simp
    then show ?thesis by (intro dvd_mult le_imp_power_dvd)
  qed
qed

lemma nearest53_small: "0 \<le> a \<Longrightarrow> a \<le> 2 ^ 53 \<Longrightarrow> nearest53 a = a"
  using nearest53_scaled [of a 0] by (cases "a = 0") (simp_all add: nearest53_def excess_bits_def floorlog_def)

lemma rounded_exact:
  assumes "nearest53 a = a" "0 \<le> a"
  shows "a < 2 ^ 1024 \<Longrightarrow> rounded a = Whole a" and "2 ^ 1024 \<le> a \<Longrightarrow> rounded a = Infinite"
  using assms by (simp_all add: rounded_def)

lemma nearest53_large:
  assumes "2 ^ 53 \<le> a"
  shows "2 ^ 53 \<le> nearest53 a"
proof -
  let ?k = "excess_bits a"
  have pos: "0 < nat \<bar>a\<bar>" and a: "int (nat \<bar>a\<bar>) = a" using assms by auto
  have "2 ^ 53 \<le> nat \<bar>a\<bar>" using assms by (simp add: le_nat_iff)
  then have bits: "54 \<le> floorlog 2 (nat \<bar>a\<bar>)" by (intro floorlog_geI) simp_all
  then have k: "1 \<le> ?k" "floorlog 2 (nat \<bar>a\<bar>) - 1 = 52 + ?k" by (simp_all add: excess_bits_def)
  from floorlog_bounds [OF pos, of 2] k(2) have "2 ^ (52 + ?k) \<le> nat \<bar>a\<bar>" by simp
  then have "2 ^ (52 + ?k) \<le> a" using a by (metis of_nat_le_iff of_nat_numeral of_nat_power)
  then have "2 ^ 52 * 2 ^ ?k \<le> a" by (simp add: power_add)
  then have "(2 ^ 52 * 2 ^ ?k) div 2 ^ ?k \<le> a div 2 ^ ?k" by (rule zdiv_mono1) simp
  then have q: "2 ^ 52 \<le> a div 2 ^ ?k" by simp
  have "2 ^ 52 * 2 ^ ?k \<le> nearest53 a"
    unfolding nearest53_def Let_def by (rule mult_right_mono) (use q in \<open>auto split: if_split\<close>)
  moreover have "(2::int) ^ 1 \<le> 2 ^ ?k" using k(1) by (rule power_increasing) simp
  ultimately show ?thesis by simp
qed

lemma maxInt64_whole64: "maxInt64 whole64 = Whole (9223372036854775808 - 1024)"
proof -
  have "floorlog 2 (9223372036854775295::nat) \<le> 63" by (rule floorlog_leI) simp_all
  moreover have "63 \<le> floorlog 2 (9223372036854775295::nat)" by (rule floorlog_geI) simp_all
  ultimately have "excess_bits 9223372036854775295 = 10" by (simp add: excess_bits_def)
  then show ?thesis by (simp add: maxInt64_def whole64_def rounded_def nearest53_def Let_def)
qed

text \<open>What lies above the largest \<open>float64\<close> below \<open>2 ^ 63\<close> is \<open>2 ^ 63\<close> at least.\<close>

lemma scaled_gap:
  assumes "0 < m" "m \<le> 2 ^ 53" "9223372036854775808 - 1024 < m * 2 ^ j"
  shows "(9223372036854775808::int) \<le> m * 2 ^ j"
proof (cases "j < 10")
  case True
  then have "(2::int) ^ j \<le> 2 ^ 9" by (intro power_increasing) simp_all
  with assms(1,2) have "m * 2 ^ j \<le> 2 ^ 53 * 2 ^ 9" by (intro mult_mono) simp_all
  with assms(3) show ?thesis by simp
next
  case False
  then obtain i where "j = 10 + i" using le_Suc_ex [of 10 j] by auto
  then have j: "m * 2 ^ j = (m * 2 ^ i) * 1024" by (simp add: power_add)
  with assms(3) have "9007199254740992 \<le> m * 2 ^ i" by linarith
  with j show ?thesis by linarith
qed

lemma doubled:
  assumes "0 < m" "m \<le> 2 ^ 53" "d = m * 2 ^ unat n"
  defines "durf \<equiv> f_mul whole64 (f_of_int whole64 m) (f_pow whole64 (f_of_int whole64 2) (f_of_uint64 whole64 n))"
  shows "durf = Whole d \<or> durf = Infinite \<and> 9223372036854775808 \<le> d"
proof -
  have m: "rounded m = Whole m" using assms(1,2) by (simp add: rounded_def nearest53_small)
  have two: "rounded 2 = Whole 2" by (simp add: rounded_def nearest53_small)
  have n: "nat (uint n) = unat n" "0 \<le> uint n" by simp_all
  have big: "9223372036854775808 \<le> d" if "1024 \<le> unat n"
  proof -
    have "(2::int) ^ 63 \<le> 2 ^ unat n" using that by (intro power_increasing) simp_all
    also have "\<dots> \<le> d" using assms(1,3) by simp
    finally show ?thesis by simp
  qed
  have durf: "durf = whole_op (*) (Whole m) (whole_pow (Whole 2) (rounded (uint n)))"
    by (simp add: durf_def whole64_def m two)
  show ?thesis
  proof (cases "uint n \<le> 2 ^ 53")
    case True
    then have "rounded (uint n) = Whole (uint n)" by (simp add: rounded_def nearest53_small)
    then have pow: "whole_pow (Whole 2) (rounded (uint n)) = rounded (2 ^ unat n)" by (simp add: n)
    have exact: "nearest53 (2 ^ unat n) = 2 ^ unat n" "nearest53 (m * 2 ^ unat n) = m * 2 ^ unat n"
      using nearest53_scaled [of 1 "unat n"] nearest53_scaled [OF assms(1,2)] by simp_all
    show ?thesis
    proof (cases "unat n < 1024")
      case True
      then have "(2::int) ^ unat n < 2 ^ 1024" by (intro power_strict_increasing) simp_all
      then have p: "whole_pow (Whole 2) (rounded (uint n)) = Whole (2 ^ unat n)"
        unfolding pow by (intro rounded_exact exact) simp_all
      show ?thesis
      proof (cases "d < 2 ^ 1024")
        case True
        have "rounded d = Whole d" by (rule rounded_exact(1) [OF _ _ True]) (use assms(1,3) exact(2) in simp_all)
        then show ?thesis unfolding durf p using assms(3) by simp
      next
        case False
        then have "2 ^ 1024 \<le> d" by simp
        then have "rounded d = Infinite" by (intro rounded_exact) (use assms(1,3) exact(2) in simp_all)
        then have "durf = Infinite" unfolding durf p using assms(3) by simp
        moreover from False have "9223372036854775808 \<le> d" by (simp add: not_less)
        ultimately show ?thesis by simp
      qed
    next
      case False
      then have "(2::int) ^ 1024 \<le> 2 ^ unat n" by (intro power_increasing) simp_all
      then have "rounded (2 ^ unat n) = Infinite" by (intro rounded_exact exact) simp_all
      then have "durf = Infinite" unfolding durf pow by simp
      with big False show ?thesis by simp
    qed
  next
    case False
    then have large: "2 ^ 53 \<le> nearest53 (uint n)" by (intro nearest53_large) simp
    have "whole_pow (Whole 2) (rounded (uint n)) = Infinite"
    proof (cases "rounded (uint n)")
      case (Whole a)
      with large have "2 ^ 53 \<le> a" by (simp add: rounded_def split: if_splits)
      then have "1024 \<le> nat a" by simp
      then have "(2::int) ^ 1024 \<le> 2 ^ nat a" by (intro power_increasing) simp_all
      moreover have "nearest53 (2 ^ nat a) = 2 ^ nat a" using nearest53_scaled [of 1 "nat a"] by simp
      ultimately have "rounded (2 ^ nat a) = Infinite" by (intro rounded_exact) simp_all
      then show ?thesis by (simp add: Whole)
    qed simp
    then have "durf = Infinite" by (simp add: durf)
    moreover have "(1024::int) \<le> uint n" using False by simp
    then have "1024 \<le> nat (uint n)" by linarith
    then have "1024 \<le> unat n" by (simp only: n(1))
    ultimately show ?thesis using big by simp
  qed
qed

text \<open>C36: without jitter and with the default factor the waits double from the minimum up to the
  maximum, where they stay: the wait after the attempt \<open>n\<close> is the minimum times \<open>2 ^ n\<close>, capped, for
  every maximum and all 64 bit attempts, in \<open>float64\<close> arithmetic, with its rounding and overflow;
  for minima up to \<open>2 ^ 53\<close> nanoseconds (104 days), above which the minimum itself is rounded.\<close>

theorem ForAttempt_doubles:
  assumes "0 < b_Min b" "b_Min b \<le> 2 ^ 53" "b_Min b < b_Max b" "b_Max b < 2 ^ 63"
    and "b_Factor b = f_of_int whole64 0" "\<not> b_Jitter b"
  shows "ForAttempt whole64 rnd b (f_of_uint64 whole64 n) = min (b_Max b) (b_Min b * 2 ^ unat n)"
proof -
  define d where "d = b_Min b * 2 ^ unat n"
  have "b_Min b \<le> d" using assms(1) by (simp add: d_def)
  have factor: "f_le whole64 (b_Factor b) (f_of_int whole64 0)"
    by (simp add: assms(5) whole64_def) (cases "rounded 0"; simp)
  define durf where "durf = f_mul whole64 (f_of_int whole64 (b_Min b))
    (f_pow whole64 (f_of_int whole64 2) (f_of_uint64 whole64 n))"
  have fa: "ForAttempt whole64 rnd b (f_of_uint64 whole64 n) =
      (if f_less whole64 (maxInt64 whole64) durf then b_Max b
       else let dur = f_to_int64 whole64 durf in if dur < b_Min b then b_Min b else if dur > b_Max b then b_Max b else dur)"
    using assms(1,3,6) factor by (simp add: ForAttempt_def Let_def durf_def)
  from doubled [OF assms(1,2) d_def] consider "durf = Whole d" | "durf = Infinite" "9223372036854775808 \<le> d"
    unfolding durf_def by blast
  then show ?thesis
  proof cases
    case 1
    have "9223372036854775808 - 1024 < d \<Longrightarrow> 9223372036854775808 \<le> d"
      unfolding d_def by (rule scaled_gap [OF assms(1,2)])
    with 1 \<open>b_Min b \<le> d\<close> assms(4) show ?thesis
      unfolding fa maxInt64_whole64 d_def [symmetric] by (auto simp: whole64_def)
  next
    case 2
    with assms(4) show ?thesis unfolding fa maxInt64_whole64 d_def [symmetric] by (simp add: whole64_def)
  qed
qed

theorem ForAttempt_doubles_witness:
  "ForAttempt whole64 Infinite \<lparr>b_attempt = 0, b_Factor = f_of_int whole64 0, b_Jitter = False, b_Min = 2, b_Max = 60\<rparr>
     (f_of_uint64 whole64 3) = 16"
  by (subst ForAttempt_doubles) simp_all

subsection \<open>The retry loop\<close>

text \<open>\<open>op\<close> fails \<open>n\<close> times from the world \<open>w\<close> and then succeeds, leaving \<open>w'\<close>.\<close>

inductive succeeds_after :: "('w, error option) go \<Rightarrow> 'w \<Rightarrow> nat \<Rightarrow> 'w \<Rightarrow> bool" for op where
  now: "op w = (Returned None, w') \<Longrightarrow> succeeds_after op w 0 w'"
| later: "op w = (Returned (Some e), w1) \<Longrightarrow> succeeds_after op w1 n w' \<Longrightarrow> succeeds_after op w (Suc n) w'"

inductive_cases succeeds_after_Suc: "succeeds_after op w (Suc n) w'"

lemma retry_loop_returns:
  assumes "succeeds_after op w n w'"
  shows "\<exists>b' ds. retry_loop fl rnds op i b w slept = Some (Returned (), b', w', slept @ ds) \<and>
    length ds = n \<and> b_attempt b' = b_attempt b + of_nat n \<and>
    (\<forall>d \<in> set ds. min (lower b) (upper b) \<le> d \<and> d \<le> upper b)"
  using assms
proof (induction arbitrary: i b slept rule: succeeds_after.induct)
  case (now w w')
  then show ?case by (simp add: retry_loop.simps)
next
  case (later w e w1 n w')
  obtain d b1 where d: "b_Duration fl (rnds i) b = (d, b1)" by force
  then have "d = ForAttempt fl (rnds i) b (f_of_uint64 fl (b_attempt b))" "b_attempt b1 = b_attempt b + 1"
    "lower b1 = lower b" "upper b1 = upper b"
    by (metis b_Duration_fields fst_conv snd_conv)+
  moreover obtain b' ds where
    "retry_loop fl rnds op (Suc i) b1 w1 (slept @ [d]) = Some (Returned (), b', w', (slept @ [d]) @ ds)"
    "length ds = n" "b_attempt b' = b_attempt b1 + of_nat n"
    "\<forall>d \<in> set ds. min (lower b1) (upper b1) \<le> d \<and> d \<le> upper b1"
    using later.IH by blast
  ultimately show ?case
    using later.hyps(1) d ForAttempt_range [of b fl "rnds i" "f_of_uint64 fl (b_attempt b)"]
    by (intro exI [of _ b'] exI [of _ "d # ds"]) (simp add: retry_loop.simps [of fl rnds op i b])
qed

text \<open>C33: if the operation succeeds after \<open>n\<close> failures, \<open>Retry\<close> returns right then, having slept \<open>n\<close>
  times, each time between the default 2 seconds and 1 minute.\<close>

theorem Retry_returns:
  assumes "succeeds_after op w n w'"
  shows "\<exists>b slept. Retry fl rnds op w = Some (Returned (), b, w', slept) \<and>
    length slept = n \<and> b_attempt b = of_nat n \<and> (\<forall>d \<in> set slept. 2 * Second \<le> d \<and> d \<le> 60 * Second)"
proof -
  let ?b = "\<lparr>b_attempt = 0, b_Factor = f_of_int fl 0, b_Jitter = defaultBackoffJitter,
    b_Min = defaultBackoffMin, b_Max = defaultBackoffMax\<rparr>"
  have "lower (Reset ?b) = 2 * Second" "upper (Reset ?b) = 60 * Second"
    by (simp_all add: lower_def upper_def Reset_def defaultBackoffMin_def defaultBackoffMax_def
        Minute_def Second_def Millisecond_def)
  with retry_loop_returns [OF assms, of fl rnds 0 "Reset ?b" "[]"] show ?thesis
    by (auto simp: Retry_def RetryWithBackoff_def Second_def Millisecond_def)
qed

text \<open>An operation that counts down and succeeds at zero.\<close>

definition countdown :: "(nat, error option) go" where
  "countdown w = (if w = 0 then (Returned None, 0) else (Returned (Some (Failure [])), w - 1))"

theorem Retry_returns_witness:
  "\<exists>b slept. Retry whole64 (\<lambda>_. Infinite) countdown 2 = Some (Returned (), b, 0, slept) \<and> length slept = 2"
proof -
  have "succeeds_after countdown 0 0 0" by (rule succeeds_after.now) (simp add: countdown_def)
  then have "succeeds_after countdown 1 (Suc 0) 0"
    by (rule succeeds_after.later [rotated]) (simp add: countdown_def)
  then have "succeeds_after countdown 2 (Suc (Suc 0)) 0"
    by (rule succeeds_after.later [rotated]) (simp add: countdown_def)
  from Retry_returns [OF this, of whole64 "\<lambda>_. Infinite"] show ?thesis by auto
qed

lemma retry_loop_result:
  assumes run: "retry_loop fl rnds op n b w slept = Some y"
  shows "\<exists>w. \<forall>e w'. op w \<noteq> (Returned (Some e), w')"
proof (rule retry_loop.raw_induct
    [where P = "\<lambda>fl rnds op n b w slept y. \<exists>w. \<forall>e w'. op w \<noteq> (Returned (Some e), w')", OF _ run])
  fix rec :: "'a float64 \<Rightarrow> (nat \<Rightarrow> 'a) \<Rightarrow> ('b, error option) go \<Rightarrow> nat \<Rightarrow> 'a Backoff \<Rightarrow> 'b \<Rightarrow> int list \<Rightarrow>
      (unit outcome \<times> 'a Backoff \<times> 'b \<times> int list) option"
  fix fl rnds n b slept y
  fix op :: "('b, error option) go" and w
  assume IH: "\<And>fl rnds op n b w slept y. rec fl rnds op n b w slept = Some y \<Longrightarrow>
      \<exists>w. \<forall>e w'. op w \<noteq> (Returned (Some e), w')"
    and body: "(case op w of
        (Returned None, w') \<Rightarrow> Some (Returned (), b, w', slept)
      | (Returned (Some e), w') \<Rightarrow>
          (case b_Duration fl (rnds n) b of (d, b') \<Rightarrow> rec fl rnds op (Suc n) b' w' (slept @ [d]))
      | (Panicked, w') \<Rightarrow> Some (Panicked, b, w', slept)) = Some y"
  show "\<exists>w. \<forall>e w'. op w \<noteq> (Returned (Some e), w')"
  proof (rule ccontr)
    assume never: "\<not> ?thesis"
    then obtain e w' where op: "op w = (Returned (Some e), w')" by blast
    obtain d b' where "b_Duration fl (rnds n) b = (d, b')" by force
    with body op have "rec fl rnds op (Suc n) b' w' (slept @ [d]) = Some y" by simp
    from IH [OF this] never show False by blast
  qed
qed

text \<open>C34: an operation that never succeeds and never panics is retried for ever.\<close>

theorem Retry_forever:
  assumes "\<And>w. \<exists>e w'. op w = (Returned (Some e), w')"
  shows "Retry fl rnds op w = None"
proof (rule ccontr)
  assume "Retry fl rnds op w \<noteq> None"
  then obtain y where "Retry fl rnds op w = Some y" by blast
  then obtain v where "\<forall>e w'. op v \<noteq> (Returned (Some e), w')"
    unfolding Retry_def RetryWithBackoff_def using retry_loop_result by metis
  with assms [of v] show False by blast
qed

theorem Retry_forever_witness:
  "Retry whole64 (\<lambda>_. Infinite) (\<lambda>w. (Returned (Some (Failure [])), Suc w)) 0 = None"
  by (rule Retry_forever) simp

end
