(* ===== verification/MainApp.thy ===== *)
theory MainApp
  imports Config Backoff SliceMirroring Mirroring
begin

text \<open>
  \<open>main.go\<close>, \<open>runner.go\<close> and \<open>kube/client.go\<close>: from flags and configuration to the clients
  and the runners, the health check and the shutdown.  Files, the environment, the decoders, the
  TLS library and client-go are arguments.  A \<open>usage()\<close> or \<open>os.Exit\<close> is a value of the result.
\<close>

definition getEnv :: "(string \<Rightarrow> string) \<Rightarrow> string \<Rightarrow> string \<Rightarrow> string" where
  "getEnv Getenv key defaultValue =
     (let value = Getenv key in if length value = 0 then defaultValue else value)"

subsection \<open>Clients\<close>

text \<open>
  \<open>bearerRe\<close> is \<open>[A-Z|a-z0-9\-\._~\+\/]+=*\<close>.  \<open>bearer_full\<close> matches a whole string, and
  \<open>MatchString\<close>, the expression having no anchors, looks for a substring that matches.
\<close>

definition bearer_char :: "char \<Rightarrow> bool" where
  "bearer_char c \<longleftrightarrow>
     (let n = (of_char c :: nat)
      in 65 \<le> n \<and> n \<le> 90 \<or> 97 \<le> n \<and> n \<le> 122 \<or> 48 \<le> n \<and> n \<le> 57) \<or>
     c \<in> {CHR ''|'', CHR ''-'', CHR ''.'', CHR ''_'', CHR ''~'', CHR ''+'', CHR ''/''}"

definition bearer_full :: "string \<Rightarrow> bool" where
  "bearer_full s \<longleftrightarrow>
     takeWhile bearer_char s \<noteq> [] \<and> list_all (\<lambda>c. c = CHR ''='') (dropWhile bearer_char s)"

definition MatchString :: "string \<Rightarrow> bool" where
  "MatchString s \<longleftrightarrow> list_ex bearer_full (concat (map prefixes (suffixes s)))"

text \<open>
  \<open>strings.TrimSpace\<close> on bytes: the characters with the White Space property, in UTF-8, are cut off
  at both ends.
\<close>

definition white_spaces :: "string list" where
  "white_spaces =
     [[CHR 9], [CHR 10], [CHR 11], [CHR 12], [CHR 13], [CHR 32], [CHR 0xC2, CHR 0x85], [CHR 0xC2, CHR 0xA0],
      [CHR 0xE1, CHR 0x9A, CHR 0x80], [CHR 0xE2, CHR 0x80, CHR 0x80], [CHR 0xE2, CHR 0x80, CHR 0x81],
      [CHR 0xE2, CHR 0x80, CHR 0x82], [CHR 0xE2, CHR 0x80, CHR 0x83], [CHR 0xE2, CHR 0x80, CHR 0x84],
      [CHR 0xE2, CHR 0x80, CHR 0x85], [CHR 0xE2, CHR 0x80, CHR 0x86], [CHR 0xE2, CHR 0x80, CHR 0x87],
      [CHR 0xE2, CHR 0x80, CHR 0x88], [CHR 0xE2, CHR 0x80, CHR 0x89], [CHR 0xE2, CHR 0x80, CHR 0x8A],
      [CHR 0xE2, CHR 0x80, CHR 0xA8], [CHR 0xE2, CHR 0x80, CHR 0xA9], [CHR 0xE2, CHR 0x80, CHR 0xAF],
      [CHR 0xE2, CHR 0x81, CHR 0x9F], [CHR 0xE3, CHR 0x80, CHR 0x80]]"

text \<open>Cutting any of \<open>ps\<close> off the front, as long as there is one; the fuel is the length.\<close>

fun cut_front :: "nat \<Rightarrow> string list \<Rightarrow> string \<Rightarrow> string" where
  "cut_front 0 ps s = s"
| "cut_front (Suc n) ps s =
     (case find (\<lambda>p. prefix p s) ps of None \<Rightarrow> s | Some p \<Rightarrow> cut_front n ps (drop (length p) s))"

definition TrimSpace :: "string \<Rightarrow> string" where
  "TrimSpace s =
     (let front = cut_front (length s) white_spaces s
      in rev (cut_front (length front) (map rev white_spaces) (rev front)))"

text \<open>A client configuration: what client-go builds, or the one \<open>Client\<close> crafts.\<close>

record rest_Config =
  rest_Host :: string
  rest_InsecureSkipVerify :: bool
  rest_VerifyWith :: string
  rest_BearerToken :: string

datatype 'k client_config = Built 'k | Crafted rest_Config

definition Client ::
  "('k client_config \<Rightarrow> error + 'c) \<Rightarrow> string \<Rightarrow> string \<Rightarrow> string \<Rightarrow> error + 'c" where
  "Client NewForConfig token apiURL caURL =
     NewForConfig (Crafted \<lparr>rest_Host = apiURL, rest_InsecureSkipVerify = True,
       rest_VerifyWith = caURL, rest_BearerToken = token\<rparr>)"

definition getClientConfig :: "(string \<Rightarrow> error + 'k) \<Rightarrow> (error + 'k) \<Rightarrow> string \<Rightarrow> error + 'k" where
  "getClientConfig BuildConfigFromFlags InClusterConfig path =
     (if path \<noteq> '''' then BuildConfigFromFlags path else InClusterConfig)"

definition ClientFromConfig ::
  "('k client_config \<Rightarrow> error + 'c) \<Rightarrow> (string \<Rightarrow> error + 'k) \<Rightarrow> (error + 'k) \<Rightarrow> string \<Rightarrow> error + 'c" where
  "ClientFromConfig NewForConfig BuildConfigFromFlags InClusterConfig path =
     (case getClientConfig BuildConfigFromFlags InClusterConfig path of
        Inl err \<Rightarrow> Inl (ErrorOf ''failed to get Kubernetes client config'' err)
      | Inr conf \<Rightarrow> NewForConfig (Built conf))"

text \<open>
  \<open>verifyConn\<close>, the check that stands in for the one \<open>InsecureSkipVerify\<close> turns off: \<open>http_get\<close>
  gives the status and the body, or the error reading it, of the CA's address; the peer's first
  certificate is verified for the server name against the certificates of the body.
\<close>

definition verifyConn ::
  "(string \<Rightarrow> error + int \<times> (error + string)) \<Rightarrow> (string \<Rightarrow> 'roots option) \<Rightarrow>
   ('cert \<Rightarrow> string \<Rightarrow> 'roots \<Rightarrow> error option) \<Rightarrow> string \<Rightarrow> string \<Rightarrow> 'cert list \<Rightarrow> error option outcome" where
  "verifyConn http_get AppendCertsFromPEM Verify caURL serverName peerCertificates =
     (case http_get caURL of
        Inl err \<Rightarrow> Returned (Some (ErrorOf (''error getting remote CA from '' @ caURL) err))
      | Inr (statusCode, read) \<Rightarrow>
          if statusCode \<noteq> 200
          then Returned (Some (ErrorString (''expected 200 response from '' @ caURL)))
          else (case read of
             Inl err \<Rightarrow> Returned (Some (ErrorOf (''error reading response body from '' @ caURL) err))
           | Inr body \<Rightarrow>
               (case AppendCertsFromPEM body of
                  None \<Rightarrow> Returned (Some (ErrorString (''failed to parse root certificate from '' @ caURL)))
                | Some roots \<Rightarrow>
                    (case peerCertificates of
                       [] \<Rightarrow> Panicked
                     | cert # _ \<Rightarrow> Returned (Verify cert serverName roots)))))"

text \<open>The functions outside the repository the program is set up with.\<close>

record ('c, 'q, 'k) platform =
  ReadFile :: "string \<Rightarrow> error + string"
  Unmarshal :: "string \<Rightarrow> error + Config"
  ParseLabels :: "string \<Rightarrow> error + (go_map \<Rightarrow> bool)"
  NewForConfig :: "'k client_config \<Rightarrow> error + 'c"
  BuildConfigFromFlags :: "string \<Rightarrow> error + 'k"
  InClusterConfig :: "error + 'k"
  Library :: "'q library"

definition makeRemoteKubeClientFromConfig :: "('c, 'q, 'k) platform \<Rightarrow> remoteClusterConfig \<Rightarrow> error + 'c" where
  "makeRemoteKubeClientFromConfig pf remote =
     (if rc_KubeConfigPath remote \<noteq> ''''
      then ClientFromConfig (NewForConfig pf) (BuildConfigFromFlags pf) (InClusterConfig pf)
             (rc_KubeConfigPath remote)
      else (case ReadFile pf (rc_RemoteSATokenPath remote) of
          Inl err \<Rightarrow> Inl (ErrorOf (''Cannot read file: '' @ rc_RemoteSATokenPath remote) err)
        | Inr saToken \<Rightarrow>
            let client = (\<lambda>t. Client (NewForConfig pf) t (rc_RemoteAPIURL remote) (rc_RemoteCAURL remote))
            in if saToken \<noteq> ''''
               then (let saToken = TrimSpace saToken
                     in if \<not> MatchString saToken
                        then Inl (ErrorString ''The provided token does not match regex'')
                        else client saToken)
               else client saToken))"

subsection \<open>Runners\<close>

definition makeMirrorRunner ::
  "'q library \<Rightarrow> 'c \<Rightarrow> 'c \<Rightarrow> remoteClusterConfig \<Rightarrow> globalConfig \<Rightarrow> ('c, 'q) MirrorRunner" where
  "makeMirrorRunner lib homeClient remoteClient remote global =
     newMirrorRunner lib homeClient remoteClient (rc_Name remote) (MirrorNamespace global)
       (rc_ServicePrefix remote) (MirrorSvcLabelSelector global) (nanoseconds (rc_ResyncPeriod remote))
       (cfg_ServiceSync global)"

definition makeGlobalRunner ::
  "'q library \<Rightarrow> 'c \<Rightarrow> 'c \<Rightarrow> string \<Rightarrow> globalConfig \<Rightarrow> bool \<Rightarrow> (go_map \<Rightarrow> bool) \<Rightarrow> ('c, 'q) GlobalRunner" where
  "makeGlobalRunner lib homeClient remoteClient name global localCluster routingStrategyLabel =
     newGlobalRunner lib homeClient remoteClient name (MirrorNamespace global) (GlobalSvcLabelSelector global)
       0 localCluster routingStrategyLabel (cfg_EndpointSliceSync global)"

text \<open>The interface \<open>Runner\<close> and its two implementations.\<close>

datatype ('c, 'q) Runner = RMirror "('c, 'q) MirrorRunner" | RGlobal "('c, 'q) GlobalRunner"

fun Runner_Stop :: "'q library \<Rightarrow> ('c, 'q) Runner \<Rightarrow> ('c, 'q) Runner outcome" where
  "Runner_Stop lib (RMirror mr) = bind_outcome (mr_Stop lib mr) (\<lambda>mr. Returned (RMirror mr))"
| "Runner_Stop lib (RGlobal gr) = bind_outcome (gr_Stop lib gr) (\<lambda>gr. Returned (RGlobal gr))"

fun Runner_Initialised :: "('c, 'q) Runner \<Rightarrow> bool" where
  "Runner_Initialised (RMirror mr) = mr_Initialised mr"
| "Runner_Initialised (RGlobal gr) = gr_Initialised gr"

text \<open>The runner as \<open>Run\<close> leaves it.\<close>

fun Runner_Run ::
  "(string \<Rightarrow> bool option) \<Rightarrow> ('w kube_client, 'q) Runner \<Rightarrow> 'w \<Rightarrow> ('w kube_client, 'q) Runner \<times> 'w" where
  "Runner_Run wait (RMirror mr) w = (case mr_Run wait mr w of (_, _, mr', w') \<Rightarrow> (RMirror mr', w'))"
| "Runner_Run wait (RGlobal gr) w = (case gr_Run wait gr w of (_, _, gr', w') \<Rightarrow> (RGlobal gr', w'))"

text \<open>The handler of \<open>/healthz\<close>: its status.\<close>

fun healthz :: "('c, 'q) Runner list \<Rightarrow> nat" where
  "healthz [] = 200"
| "healthz (r # rs) = (if \<not> Runner_Initialised r then 503 else healthz rs)"

text \<open>The loop of \<open>main\<close> over the remote clusters: the runners, or the client that could not be made.\<close>

fun remote_runners ::
  "('c, 'q, 'k) platform \<Rightarrow> 'c \<Rightarrow> globalConfig \<Rightarrow> (go_map \<Rightarrow> bool) \<Rightarrow> remoteClusterConfig list \<Rightarrow>
   ('c, 'q) Runner list \<Rightarrow> error + ('c, 'q) Runner list" where
  "remote_runners pf homeClient global rsl [] runners = Inr runners"
| "remote_runners pf homeClient global rsl (remote # remotes) runners =
     (case makeRemoteKubeClientFromConfig pf remote of
        Inl err \<Rightarrow> Inl err
      | Inr remoteClient \<Rightarrow>
          let mr = makeMirrorRunner (Library pf) homeClient remoteClient remote global;
              runners = runners @ [RMirror mr];
              gr = makeGlobalRunner (Library pf) homeClient remoteClient (rc_Name remote) global False rsl
          in remote_runners pf homeClient global rsl remotes (runners @ [RGlobal gr]))"

record flags =
  flag_GlobalSvcLabelSelector :: string
  flag_GlobalSvcRoutingStrategyLabel :: string
  flag_KubeConfigPath :: string
  flag_LogLevel :: string
  flag_MirrorNamespace :: string
  flag_MirrorSvcLabelSelector :: string
  flag_SSMConfig :: string

text \<open>The flags as the environment defaults them, before any is set on the command line.\<close>

definition env_flags :: "(string \<Rightarrow> string) \<Rightarrow> flags" where
  "env_flags Getenv = \<lparr>
     flag_GlobalSvcLabelSelector = getEnv Getenv ''SSM_GLOBAL_SVC_LABEL_SELECTOR'' '''',
     flag_GlobalSvcRoutingStrategyLabel = getEnv Getenv ''SSM_GLOBAL_SVC_TOPOLOGY_LABEL'' '''',
     flag_KubeConfigPath = getEnv Getenv ''SSM_KUBE_CONFIG'' '''',
     flag_LogLevel = getEnv Getenv ''SSM_LOG_LEVEL'' ''info'',
     flag_MirrorNamespace = getEnv Getenv ''SSM_MIRROR_NS'' '''',
     flag_MirrorSvcLabelSelector = getEnv Getenv ''SSM_MIRROR_SVC_LABEL_SELECTOR'' '''',
     flag_SSMConfig = getEnv Getenv ''SSM_CONFIG'' ''''\<rparr>"

text \<open>How \<open>main\<close> gets on: it serves with these zones and runners, started in this order, or ends.\<close>

datatype ('c, 'q) main_result =
    Serving "ForZone list" "('c, 'q) Runner list"
  | UsageExit
  | ErrorExit error
  | MainPanicked

definition main_setup :: "('c, 'q, 'k) platform \<Rightarrow> flags \<Rightarrow> ('c, 'q) main_result" where
  "main_setup pf fl =
     (if flag_SSMConfig fl = '''' then UsageExit
      else (case ReadFile pf (flag_SSMConfig fl) of
        Inl err \<Rightarrow> ErrorExit err
      | Inr fileContent \<Rightarrow>
          (case parseConfig (Unmarshal pf) fileContent (flag_GlobalSvcLabelSelector fl)
              (flag_GlobalSvcRoutingStrategyLabel fl) (flag_MirrorSvcLabelSelector fl) (flag_MirrorNamespace fl) of
             Panicked \<Rightarrow> MainPanicked
           | Returned (Inl err) \<Rightarrow> ErrorExit err
           | Returned (Inr config) \<Rightarrow>
               let zones = setLocalEndpointZones (lc_Zones (cfg_LocalCluster config)) []
               in (case ParseLabels pf (GlobalSvcRoutingStrategyLabel (cfg_Global config)) of
                     Inl err \<Rightarrow> ErrorExit err
                   | Inr routingStrategyLabel \<Rightarrow>
                       (case ClientFromConfig (NewForConfig pf) (BuildConfigFromFlags pf) (InClusterConfig pf)
                            (flag_KubeConfigPath fl) of
                          Inl err \<Rightarrow> UsageExit
                        | Inr homeClient \<Rightarrow>
                            let gr = makeGlobalRunner (Library pf) homeClient homeClient
                                  (lc_Name (cfg_LocalCluster config)) (cfg_Global config) True routingStrategyLabel
                            in (case remote_runners pf homeClient (cfg_Global config) routingStrategyLabel
                                  (map the (cfg_RemoteClusters config)) [RGlobal gr] of
                                  Inl err \<Rightarrow> ErrorExit err
                                | Inr runners \<Rightarrow> Serving zones runners))))))"

text \<open>The shutdown after the server has returned.\<close>

fun stop_runners :: "'q library \<Rightarrow> ('c, 'q) Runner list \<Rightarrow> ('c, 'q) Runner list outcome" where
  "stop_runners lib [] = Returned []"
| "stop_runners lib (r # rs) =
     bind_outcome (Runner_Stop lib r) (\<lambda>r. bind_outcome (stop_runners lib rs) (\<lambda>rs. Returned (r # rs)))"

end
