(* ===== verification/MainProperties.thy ===== *)
theory MainProperties
  imports MainApp
begin

text \<open>
  What \<open>main\<close> sets up: the runners and the clients they are given, the hints of every slice they
  submit, the health check and the shutdown, and what a token and a certificate must satisfy.
\<close>

subsection \<open>Tokens and certificates\<close>

lemma bearer_full_char: "bearer_full s \<Longrightarrow> list_ex bearer_char s"
  unfolding bearer_full_def by (cases s) (auto split: if_splits)

lemma MatchString_iff: "MatchString s \<longleftrightarrow> list_ex bearer_char s"
proof
  assume "MatchString s"
  then obtain t u where "t \<in> set (suffixes s)" "u \<in> set (prefixes t)" "bearer_full u"
    by (auto simp: MatchString_def list_ex_iff)
  then have "set u \<subseteq> set s" "list_ex bearer_char u"
    using bearer_full_char by (auto dest: set_mono_prefix set_mono_suffix)
  then show "list_ex bearer_char s" by (auto simp: list_ex_iff)
next
  assume "list_ex bearer_char s"
  then obtain c where c: "c \<in> set s" "bearer_char c" by (auto simp: list_ex_iff)
  then obtain xs ys where s: "s = xs @ c # ys" by (meson split_list)
  have "suffix (c # ys) s" "prefix [c] (c # ys)" "bearer_full [c]"
    using c(2) by (simp_all add: s suffix_def bearer_full_def)
  then show "MatchString s"
    unfolding MatchString_def list_ex_iff
    by (intro bexI [of _ "[c]"]) (auto intro!: bexI [of _ "c # ys"])
qed

text \<open>No byte of a white space is one of a token.\<close>

definition tokenless :: "string list \<Rightarrow> bool" where
  "tokenless ps \<longleftrightarrow> list_all (\<lambda>p. \<not> list_ex bearer_char p) ps"

lemma cut_front_keeps: "tokenless ps \<Longrightarrow> list_ex bearer_char (cut_front n ps s) \<longleftrightarrow> list_ex bearer_char s"
proof (induction n ps s rule: cut_front.induct)
  case (2 n ps s)
  show ?case
  proof (cases "find (\<lambda>p. prefix p s) ps")
    case (Some p)
    then have p: "p \<in> set ps" "prefix p s" by (auto simp: find_Some_iff)
    then obtain t where s: "s = p @ t" by (auto simp: prefix_def)
    from p(1) 2(2) have "\<not> list_ex bearer_char p" by (auto simp: tokenless_def list_all_iff)
    with 2(1) [OF Some 2(2)] Some show ?thesis by (simp add: s)
  qed simp
qed simp

lemma white_spaces_tokenless: "tokenless white_spaces" "tokenless (map rev white_spaces)"
  by code_simp+

lemma list_ex_TrimSpace: "list_ex bearer_char (TrimSpace s) \<longleftrightarrow> list_ex bearer_char s"
  by (simp add: TrimSpace_def Let_def list_ex_rev cut_front_keeps white_spaces_tokenless)

lemma TrimSpace_Nil [simp]: "TrimSpace [] = []"
  by (simp add: TrimSpace_def)

text \<open>C39: the token of a remote cluster is checked against an expression without anchors, so that a token
  is accepted, trimmed, exactly when it is empty or holds one character of the class anywhere;
  anything else may stand around it.\<close>

theorem token_check:
  assumes "rc_KubeConfigPath remote = ''''" "ReadFile pf (rc_RemoteSATokenPath remote) = Inr token"
  shows "makeRemoteKubeClientFromConfig pf remote =
    (if token = '''' \<or> list_ex bearer_char token
     then Client (NewForConfig pf) (TrimSpace token) (rc_RemoteAPIURL remote) (rc_RemoteCAURL remote)
     else Inl (ErrorString ''The provided token does not match regex''))"
  using assms list_ex_TrimSpace [of token]
  by (simp add: makeRemoteKubeClientFromConfig_def MatchString_iff Let_def)

text \<open>A platform that reads one text from every file and decodes one configuration.\<close>

definition test_remote :: remoteClusterConfig where
  "test_remote = \<lparr>rc_Name = ''b'', rc_KubeConfigPath = '''', rc_RemoteAPIURL = ''api'', rc_RemoteCAURL = ''ca'',
     rc_RemoteSATokenPath = ''token'', rc_ResyncPeriod = Duration 10, rc_ServicePrefix = ''pfx''\<rparr>"

definition test_config :: Config where
  "test_config = \<lparr>cfg_Global = \<lparr>GlobalSvcLabelSelector = ''g'', GlobalSvcRoutingStrategyLabel = ''r'',
       MirrorSvcLabelSelector = ''m'', MirrorNamespace = ''home'', cfg_ServiceSync = True,
       cfg_EndpointSliceSync = True\<rparr>,
     cfg_LocalCluster = \<lparr>lc_Name = ''a'', lc_KubeConfigPath = '''', lc_Zones = []\<rparr>,
     cfg_RemoteClusters = [Some test_remote]\<rparr>"

definition test_platform :: "string \<Rightarrow> (cluster kube_client, unit, unit) platform" where
  "test_platform text = \<lparr>ReadFile = (\<lambda>path. Inr text), Unmarshal = (\<lambda>raw. Inr test_config),
     ParseLabels = (\<lambda>s. Inr (\<lambda>labels. False)), NewForConfig = (\<lambda>c. Inr mem_client),
     BuildConfigFromFlags = (\<lambda>path. Inr ()), InClusterConfig = Inr (), Library = slice_library\<rparr>"

definition test_flags :: flags where
  "test_flags = \<lparr>flag_GlobalSvcLabelSelector = '''', flag_GlobalSvcRoutingStrategyLabel = '''',
     flag_KubeConfigPath = '''', flag_LogLevel = ''info'', flag_MirrorNamespace = '''', flag_MirrorSvcLabelSelector = '''',
     flag_SSMConfig = ''conf''\<rparr>"

theorem token_check_witness:
  "makeRemoteKubeClientFromConfig (test_platform ''no token!'') test_remote = Inr mem_client"
  by (subst token_check [where token = "''no token!''"])
    (simp_all add: test_platform_def test_remote_def Client_def bearer_char_def)

text \<open>Although verification is turned off in the transport, a connection is accepted exactly when the
  CA was fetched with status 200, parsed, and the peer's first certificate verifies for the
  server name against it.\<close>

lemma verifyConn_accepts:
  "verifyConn http_get pem verify caURL server peers = Returned None \<longleftrightarrow>
     (\<exists>body roots cert rest. http_get caURL = Inr (200, Inr body) \<and> pem body = Some roots \<and>
        peers = cert # rest \<and> verify cert server roots = None)"
  by (auto simp: verifyConn_def split: sum.splits prod.splits option.splits list.splits)

subsection \<open>The runners\<close>

lemma setLocalEndpointZones_eq: "setLocalEndpointZones zones zs = zs @ map ForZone zones"
  by (induction zones zs rule: setLocalEndpointZones.induct) simp_all

definition runners_of ::
  "'q library \<Rightarrow> 'c \<Rightarrow> globalConfig \<Rightarrow> (go_map \<Rightarrow> bool) \<Rightarrow> remoteClusterConfig \<times> 'c \<Rightarrow> ('c, 'q) Runner list" where
  "runners_of lib home global rsl = (\<lambda>(remote, client).
     [RMirror (makeMirrorRunner lib home client remote global),
      RGlobal (makeGlobalRunner lib home client (rc_Name remote) global False rsl)])"

lemma remote_runners_Inr:
  "remote_runners pf home global rsl remotes rs = Inr runners \<Longrightarrow>
   \<exists>clients. list_all2 (\<lambda>r c. makeRemoteKubeClientFromConfig pf r = Inr c) remotes clients \<and>
     runners = rs @ concat (map (runners_of (Library pf) home global rsl) (zip remotes clients))"
proof (induction remotes arbitrary: rs)
  case (Cons remote remotes)
  then obtain c where c: "makeRemoteKubeClientFromConfig pf remote = Inr c"
    by (cases "makeRemoteKubeClientFromConfig pf remote") simp_all
  from Cons.prems c have "remote_runners pf home global rsl remotes
      ((rs @ [RMirror (makeMirrorRunner (Library pf) home c remote global)]) @
       [RGlobal (makeGlobalRunner (Library pf) home c (rc_Name remote) global False rsl)]) = Inr runners"
    by (simp add: Let_def)
  from Cons.IH [OF this] obtain clients where
    "list_all2 (\<lambda>r c. makeRemoteKubeClientFromConfig pf r = Inr c) remotes clients"
    "runners = ((rs @ [RMirror (makeMirrorRunner (Library pf) home c remote global)]) @
       [RGlobal (makeGlobalRunner (Library pf) home c (rc_Name remote) global False rsl)]) @
       concat (map (runners_of (Library pf) home global rsl) (zip remotes clients))" by blast
  with c show ?case
    by (intro exI [of _ "c # clients"]) (simp add: runners_of_def)
qed simp

lemma main_setup_Serving:
  assumes "main_setup pf fl = Serving zones runners"
  obtains raw conf home rsl clients where "flag_SSMConfig fl \<noteq> ''''"
    and "ReadFile pf (flag_SSMConfig fl) = Inr raw"
    and "ParseLabels pf (GlobalSvcRoutingStrategyLabel (cfg_Global conf)) = Inr rsl"
    and "ClientFromConfig (NewForConfig pf) (BuildConfigFromFlags pf) (InClusterConfig pf) (flag_KubeConfigPath fl) =
      Inr home"
    and "parseConfig (Unmarshal pf) raw (flag_GlobalSvcLabelSelector fl) (flag_GlobalSvcRoutingStrategyLabel fl)
      (flag_MirrorSvcLabelSelector fl) (flag_MirrorNamespace fl) = Returned (Inr conf)"
    and "zones = map ForZone (lc_Zones (cfg_LocalCluster conf))"
    and "list_all2 (\<lambda>r c. makeRemoteKubeClientFromConfig pf (the r) = Inr c) (cfg_RemoteClusters conf) clients"
    and "runners = RGlobal (makeGlobalRunner (Library pf) home home (lc_Name (cfg_LocalCluster conf))
        (cfg_Global conf) True rsl) #
      concat (map (runners_of (Library pf) home (cfg_Global conf) rsl)
        (zip (map the (cfg_RemoteClusters conf)) clients))"
proof -
  from assms obtain raw conf home rsl where init: "flag_SSMConfig fl \<noteq> ''''"
    "ReadFile pf (flag_SSMConfig fl) = Inr raw"
    "ParseLabels pf (GlobalSvcRoutingStrategyLabel (cfg_Global conf)) = Inr rsl"
    "ClientFromConfig (NewForConfig pf) (BuildConfigFromFlags pf) (InClusterConfig pf) (flag_KubeConfigPath fl) =
      Inr home" and run: "parseConfig (Unmarshal pf) raw (flag_GlobalSvcLabelSelector fl) (flag_GlobalSvcRoutingStrategyLabel fl)
      (flag_MirrorSvcLabelSelector fl) (flag_MirrorNamespace fl) = Returned (Inr conf)"
    "zones = map ForZone (lc_Zones (cfg_LocalCluster conf))"
    "remote_runners pf home (cfg_Global conf) rsl (map the (cfg_RemoteClusters conf))
      [RGlobal (makeGlobalRunner (Library pf) home home (lc_Name (cfg_LocalCluster conf))
        (cfg_Global conf) True rsl)] = Inr runners"
    by (auto simp: main_setup_def Let_def setLocalEndpointZones_eq
        split: if_splits sum.splits outcome.splits)
  from remote_runners_Inr [OF run(3)] obtain clients where
    "list_all2 (\<lambda>r c. makeRemoteKubeClientFromConfig pf r = Inr c) (map the (cfg_RemoteClusters conf)) clients"
    "runners = [RGlobal (makeGlobalRunner (Library pf) home home (lc_Name (cfg_LocalCluster conf))
        (cfg_Global conf) True rsl)] @
      concat (map (runners_of (Library pf) home (cfg_Global conf) rsl)
        (zip (map the (cfg_RemoteClusters conf)) clients))" by blast
  with that [OF init run(1,2)] show thesis by (simp add: list_all2_map1)
qed

lemma main_setup_zones: "main_setup pf fl = Serving zones runners \<Longrightarrow> zones \<noteq> []"
  by (erule main_setup_Serving) (auto simp: parseConfig_accepts config_ok_def globals_ok_def)

lemma test_serving:
  "\<exists>zones runners. main_setup (test_platform ''t'') test_flags = Serving zones runners"
proof -
  have "(case main_setup (test_platform ''t'') test_flags of Serving zones runners \<Rightarrow> True | _ \<Rightarrow> False)"
    by code_simp
  then show ?thesis by (auto split: main_result.splits)
qed

text \<open>The runners of a configuration, on the local cluster's client and the remote ones.\<close>

lemma runners_of_home:
  "list_all (\<lambda>r. case r of
      RMirror mr \<Rightarrow> mr_client mr = home \<and> mr_namespace mr = MirrorNamespace g
    | RGlobal gr \<Rightarrow> gr_client gr = home \<and> gr_namespace gr = MirrorNamespace g \<and> \<not> gr_local gr)
   (concat (map (runners_of lib home g rsl) ps))"
  by (induction ps) (auto simp: runners_of_def makeMirrorRunner_def makeGlobalRunner_def
      newMirrorRunner_def newGlobalRunner_def Let_def)

lemma makeGlobalRunner_sel [simp]:
  "gr_client (makeGlobalRunner lib home c n g l rsl) = home"
  "gr_namespace (makeGlobalRunner lib home c n g l rsl) = MirrorNamespace g"
  "gr_local (makeGlobalRunner lib home c n g l rsl) = l"
  by (simp_all add: makeGlobalRunner_def newGlobalRunner_def Let_def)

text \<open>C30: when the program serves, then of the configuration that \<open>-config\<close> names, read and parsed with the
  flags put in, with the client of the local cluster that \<open>-kube-config\<close> names and the selector
  the configured routing label parses to; with one global runner for the local cluster, first,
  and for each remote cluster, in the order of the configuration, a mirror runner and a global
  runner of the client made from its own entry.  All of them write to the local cluster's client
  and the mirror namespace, only the first is local, and the zones are those of the configuration.\<close>

theorem main_runners:
  assumes "main_setup pf fl = Serving zones runners"
  shows "\<exists>raw conf home rsl clients.
    flag_SSMConfig fl \<noteq> '''' \<and> ReadFile pf (flag_SSMConfig fl) = Inr raw \<and>
    parseConfig (Unmarshal pf) raw (flag_GlobalSvcLabelSelector fl) (flag_GlobalSvcRoutingStrategyLabel fl)
      (flag_MirrorSvcLabelSelector fl) (flag_MirrorNamespace fl) = Returned (Inr conf) \<and> config_ok conf \<and>
    ParseLabels pf (GlobalSvcRoutingStrategyLabel (cfg_Global conf)) = Inr rsl \<and>
    ClientFromConfig (NewForConfig pf) (BuildConfigFromFlags pf) (InClusterConfig pf) (flag_KubeConfigPath fl) =
      Inr home \<and>
    zones = map ForZone (lc_Zones (cfg_LocalCluster conf)) \<and>
    list_all2 (\<lambda>r c. makeRemoteKubeClientFromConfig pf (the r) = Inr c) (cfg_RemoteClusters conf) clients \<and>
    runners = RGlobal (makeGlobalRunner (Library pf) home home (lc_Name (cfg_LocalCluster conf))
        (cfg_Global conf) True rsl) #
      concat (map (\<lambda>(remote, client).
          [RMirror (makeMirrorRunner (Library pf) home client remote (cfg_Global conf)),
           RGlobal (makeGlobalRunner (Library pf) home client (rc_Name remote) (cfg_Global conf) False rsl)])
        (zip (map the (cfg_RemoteClusters conf)) clients)) \<and>
    list_all (\<lambda>r. case r of
        RMirror mr \<Rightarrow> mr_client mr = home \<and> mr_namespace mr = MirrorNamespace (cfg_Global conf)
      | RGlobal gr \<Rightarrow> gr_client gr = home \<and> gr_namespace gr = MirrorNamespace (cfg_Global conf)) runners \<and>
    list_all (\<lambda>r. case r of RMirror mr \<Rightarrow> True | RGlobal gr \<Rightarrow> \<not> gr_local gr) (tl runners)"
proof -
  from assms obtain raw conf home rsl clients where
    init: "flag_SSMConfig fl \<noteq> ''''" "ReadFile pf (flag_SSMConfig fl) = Inr raw"
      "ParseLabels pf (GlobalSvcRoutingStrategyLabel (cfg_Global conf)) = Inr rsl"
      "ClientFromConfig (NewForConfig pf) (BuildConfigFromFlags pf) (InClusterConfig pf) (flag_KubeConfigPath fl) =
        Inr home"
    and conf: "parseConfig (Unmarshal pf) raw (flag_GlobalSvcLabelSelector fl) (flag_GlobalSvcRoutingStrategyLabel fl)
      (flag_MirrorSvcLabelSelector fl) (flag_MirrorNamespace fl) = Returned (Inr conf)"
    and z: "zones = map ForZone (lc_Zones (cfg_LocalCluster conf))"
    and c: "list_all2 (\<lambda>r c. makeRemoteKubeClientFromConfig pf (the r) = Inr c) (cfg_RemoteClusters conf) clients"
    and r: "runners = RGlobal (makeGlobalRunner (Library pf) home home (lc_Name (cfg_LocalCluster conf))
        (cfg_Global conf) True rsl) #
      concat (map (runners_of (Library pf) home (cfg_Global conf) rsl)
        (zip (map the (cfg_RemoteClusters conf)) clients))"
    by (rule main_setup_Serving)
  note rest = runners_of_home [of home "cfg_Global conf" "Library pf" rsl "zip (map the (cfg_RemoteClusters conf)) clients"]
  from rest have all: "list_all (\<lambda>r. case r of
        RMirror mr \<Rightarrow> mr_client mr = home \<and> mr_namespace mr = MirrorNamespace (cfg_Global conf)
      | RGlobal gr \<Rightarrow> gr_client gr = home \<and> gr_namespace gr = MirrorNamespace (cfg_Global conf)) runners"
    and remote: "list_all (\<lambda>r. case r of RMirror mr \<Rightarrow> True | RGlobal gr \<Rightarrow> \<not> gr_local gr) (tl runners)"
    unfolding r by (auto split: Runner.splits elim!: list.pred_mono_strong)
  have "config_ok conf" using conf by (auto simp: parseConfig_accepts)
  with init conf z c r [unfolded runners_of_def] all remote show ?thesis by blast
qed

theorem main_runners_witness:
  "\<exists>zones runners home. main_setup (test_platform ''t'') test_flags = Serving zones runners \<and>
     list_all (\<lambda>r. case r of RMirror mr \<Rightarrow> mr_client mr = home | RGlobal gr \<Rightarrow> gr_client gr = home) runners \<and>
     runners \<noteq> []"
proof -
  obtain zones runners where run: "main_setup (test_platform ''t'') test_flags = Serving zones runners"
    using test_serving by blast
  from main_runners [OF run] obtain conf :: Config and home where
    all: "list_all (\<lambda>r. case r of
        RMirror mr \<Rightarrow> mr_client mr = home \<and> mr_namespace mr = MirrorNamespace (cfg_Global conf)
      | RGlobal gr \<Rightarrow> gr_client gr = home \<and> gr_namespace gr = MirrorNamespace (cfg_Global conf)) runners"
    and some: "runners \<noteq> []" by blast
  from all have "list_all (\<lambda>r. case r of RMirror mr \<Rightarrow> mr_client mr = home | RGlobal gr \<Rightarrow> gr_client gr = home) runners"
    by (auto split: Runner.splits elim!: list.pred_mono_strong)
  with run some show ?thesis by blast
qed

subsection \<open>The hints of submitted slices\<close>

text \<open>The platform with clients that record the endpoint slices they are asked to create or update.\<close>

definition recorded_platform ::
  "('w kube_client, 'q, 'k) platform \<Rightarrow> (('w \<times> EndpointSlice list) kube_client, 'q, 'k) platform" where
  "recorded_platform pf = \<lparr>ReadFile = ReadFile pf, Unmarshal = Unmarshal pf, ParseLabels = ParseLabels pf,
     NewForConfig = (\<lambda>conf. map_sum id recording (NewForConfig pf conf)),
     BuildConfigFromFlags = BuildConfigFromFlags pf, InClusterConfig = InClusterConfig pf, Library = Library pf\<rparr>"

lemma recorded_client:
  assumes "ClientFromConfig (NewForConfig (recorded_platform pf)) (BuildConfigFromFlags (recorded_platform pf))
      (InClusterConfig (recorded_platform pf)) path = Inr home"
  shows "\<exists>client. home = recording client"
proof -
  from assms obtain conf where "map_sum id recording (NewForConfig pf conf) = Inr home"
    by (auto simp: ClientFromConfig_def recorded_platform_def split: sum.splits)
  then show ?thesis by (cases "NewForConfig pf conf") auto
qed

lemma ensured_hints:
  "list_all2 (\<lambda>e e'. e_addresses e' = e_addresses e \<and>
      e_hints e' = Some (if gr_local gr then zones else [ForZone ''remote'']))
    endpoints (ensureEndpointSliceZones zones gr endpoints)"
  by (auto simp: ensureEndpointSliceZones_def list_all2_conv_all_nth)

text \<open>C31: once the program serves, every slice any of its global runners asks the API server to create or
  update, over any sequence of reconciliations, is one of a slice the cache held, with all of its
  endpoints, in order, each with a topology hint: the zones of the configuration, of which there
  is one at least, for those of the local cluster, and \<open>remote\<close>, no local zone, for the others.\<close>

theorem mirrored_endpoints_hinted:
  assumes "main_setup (recorded_platform pf) fl = Serving zones runners"
    and "RGlobal gr \<in> set runners" "es \<in> set (recorded_slices zones visits gr w)"
  shows "zones \<noteq> [] \<and> (\<exists>watcher env n ns remote. (watcher, env, n, ns) \<in> set visits \<and>
    EndpointSliceWatcher_Get watcher n ns = Returned (Inr remote) \<and>
    eps_name es = generateGlobalEndpointSliceName n \<and>
    list_all2 (\<lambda>e e'. e_addresses e' = e_addresses e \<and>
        e_hints e' = Some (if gr_local gr then zones else [ForZone ''remote'']))
      (eps_endpoints remote) (eps_endpoints es))"
proof -
  let ?pf = "recorded_platform pf"
  obtain raw conf home rsl clients where
    "flag_SSMConfig fl \<noteq> ''''" "ReadFile ?pf (flag_SSMConfig fl) = Inr raw"
    "ParseLabels ?pf (GlobalSvcRoutingStrategyLabel (cfg_Global conf)) = Inr rsl"
    and home: "ClientFromConfig (NewForConfig ?pf) (BuildConfigFromFlags ?pf) (InClusterConfig ?pf)
      (flag_KubeConfigPath fl) = Inr home"
    and "parseConfig (Unmarshal ?pf) raw (flag_GlobalSvcLabelSelector fl) (flag_GlobalSvcRoutingStrategyLabel fl)
      (flag_MirrorSvcLabelSelector fl) (flag_MirrorNamespace fl) = Returned (Inr conf)"
    "zones = map ForZone (lc_Zones (cfg_LocalCluster conf))"
    "list_all2 (\<lambda>r c. makeRemoteKubeClientFromConfig ?pf (the r) = Inr c) (cfg_RemoteClusters conf) clients"
    and r: "runners = RGlobal (makeGlobalRunner (Library ?pf) home home (lc_Name (cfg_LocalCluster conf))
        (cfg_Global conf) True rsl) #
      concat (map (runners_of (Library ?pf) home (cfg_Global conf) rsl)
        (zip (map the (cfg_RemoteClusters conf)) clients))"
    by (rule main_setup_Serving [OF assms(1)])
  from recorded_client [OF home] obtain client where client: "home = recording client" by blast
  from runners_of_home [of home "cfg_Global conf" "Library ?pf" rsl "zip (map the (cfg_RemoteClusters conf)) clients"]
    assms(2) have "gr_client gr = home" unfolding r list_all_iff by fastforce
  with client have rec: "gr_client gr = recording client" by simp
  obtain watcher env n ns remote svc where v: "(watcher, env, n, ns) \<in> set visits"
    "EndpointSliceWatcher_Get watcher n ns = Returned (Inr remote)"
    "es = mirrored_slice zones gr (generateGlobalEndpointSliceName n) (generateGlobalServiceName svc ns) remote"
    by (rule recorded_slices_mirror [OF rec assms(3)])
  have "eps_name es = generateGlobalEndpointSliceName n"
    "eps_endpoints es = ensureEndpointSliceZones zones gr (eps_endpoints remote)"
    by (simp_all add: v(3) mirrored_slice_def eps_name_def)
  with main_setup_zones [OF assms(1)] v(1,2) ensured_hints [of gr zones "eps_endpoints remote"] show ?thesis
    by (simp only:) blast
qed

text \<open>One global runner of the program, and the slices it submits for two.\<close>

definition recorded_test :: "ForZone list \<times> EndpointSlice list" where
  "recorded_test =
     (case main_setup (recorded_platform (test_platform ''t'')) test_flags of
        Serving zones (RGlobal gr # runners) \<Rightarrow> (zones, recorded_slices zones two_visits gr empty_cluster)
      | _ \<Rightarrow> ([], []))"

lemma recorded_test_run: "length (snd recorded_test) = 2"
  by code_simp

theorem mirrored_endpoints_hinted_witness:
  "\<exists>es \<in> set (snd recorded_test). \<forall>e \<in> set (eps_endpoints es). e_hints e \<noteq> None"
proof -
  from recorded_test_run obtain es where es: "es \<in> set (snd recorded_test)"
    by (cases "snd recorded_test") auto
  then obtain zones gr runners where run: "main_setup (recorded_platform (test_platform ''t'')) test_flags =
      Serving zones (RGlobal gr # runners)" "es \<in> set (recorded_slices zones two_visits gr empty_cluster)"
    by (auto simp: recorded_test_def split: main_result.splits list.splits Runner.splits)
  have "RGlobal gr \<in> set (RGlobal gr # runners)" by simp
  from mirrored_endpoints_hinted [OF run(1) this run(2)] have "\<forall>e \<in> set (eps_endpoints es). e_hints e \<noteq> None"
    by (auto simp: list_all2_conv_all_nth in_set_conv_nth)
  with es show ?thesis by blast
qed

subsection \<open>Health and shutdown\<close>

lemma healthz_iff: "healthz rs = (if list_all Runner_Initialised rs then 200 else 503)"
  by (induction rs) auto

lemma Runner_Run_initialises: "Runner_Initialised (fst (Runner_Run wait r w))"
proof (cases r)
  case (RMirror mr)
  then show ?thesis
    by (auto simp: mr_Initialised_def mr_Run_def Let_def
        split: option.splits bool.splits prod.splits outcome.splits)
next
  case (RGlobal gr)
  then show ?thesis
    by (auto simp: gr_Initialised_def gr_Run_def Let_def
        split: option.splits bool.splits prod.splits outcome.splits)
qed

text \<open>\<open>started\<close> gives for each runner how its \<open>Run\<close> went, \<open>None\<close> where it was not called yet.\<close>

definition after_start ::
  "((string \<Rightarrow> bool option) \<times> 'w) option list \<Rightarrow> ('w kube_client, 'q) Runner list \<Rightarrow>
   ('w kube_client, 'q) Runner list" where
  "after_start started runners =
     map2 (\<lambda>s r. case s of None \<Rightarrow> r | Some (wait, w) \<Rightarrow> fst (Runner_Run wait r w)) started runners"

fun unstopped :: "('c, 'q) Runner \<Rightarrow> bool" where
  "unstopped (RMirror mr) =
     (\<not> w_stopped (mr_serviceWatcher mr) \<and> \<not> w_stopped (mr_mirrorServiceWatcher mr) \<and>
      \<not> w_stopped (mr_endpointsWatcher mr) \<and> \<not> w_stopped (mr_mirrorEndpointsWatcher mr))"
| "unstopped (RGlobal gr) =
     (\<not> w_stopped (gr_serviceWatcher gr) \<and> \<not> w_stopped (gr_endpointSliceWatcher gr))"

lemma Runner_Run_unstopped: "unstopped r \<Longrightarrow> unstopped (fst (Runner_Run wait r w))"
proof (cases r)
  case (RMirror mr)
  assume "unstopped r"
  with RMirror show ?thesis
    by (auto simp: mr_Run_def Let_def split: option.splits bool.splits prod.splits outcome.splits)
next
  case (RGlobal gr)
  assume "unstopped r"
  with RGlobal show ?thesis
    by (auto simp: gr_Run_def Let_def split: option.splits bool.splits prod.splits outcome.splits)
qed

lemma fresh_runners:
  assumes "main_setup pf fl = Serving zones runners"
  shows "list_all (\<lambda>r. \<not> Runner_Initialised r \<and> unstopped r) runners"
proof -
  have rest: "list_all (\<lambda>r. \<not> Runner_Initialised r \<and> unstopped r) (concat (map (runners_of lib home g rsl) ps))"
    for lib home g rsl ps
    by (induction ps) (auto simp: runners_of_def makeMirrorRunner_def makeGlobalRunner_def newMirrorRunner_def
        newGlobalRunner_def newWatcher_def watcher_Init_def mr_Initialised_def gr_Initialised_def Let_def)
  have first: "\<not> Runner_Initialised (RGlobal (makeGlobalRunner lib home c n g l rsl)) \<and>
      unstopped (RGlobal (makeGlobalRunner lib home c n g l rsl))" for lib home c n g l rsl
    by (simp add: makeGlobalRunner_def newGlobalRunner_def newWatcher_def watcher_Init_def
        gr_Initialised_def Let_def)
  from assms obtain raw conf home rsl clients where
    "flag_SSMConfig fl \<noteq> ''''"
    and "ReadFile pf (flag_SSMConfig fl) = Inr raw"
    and "ParseLabels pf (GlobalSvcRoutingStrategyLabel (cfg_Global conf)) = Inr rsl"
    and "ClientFromConfig (NewForConfig pf) (BuildConfigFromFlags pf) (InClusterConfig pf) (flag_KubeConfigPath fl) =
      Inr home"
    and "parseConfig (Unmarshal pf) raw (flag_GlobalSvcLabelSelector fl) (flag_GlobalSvcRoutingStrategyLabel fl)
      (flag_MirrorSvcLabelSelector fl) (flag_MirrorNamespace fl) = Returned (Inr conf)"
    and "zones = map ForZone (lc_Zones (cfg_LocalCluster conf))"
    and "list_all2 (\<lambda>r c. makeRemoteKubeClientFromConfig pf (the r) = Inr c) (cfg_RemoteClusters conf) clients"
    and r: "runners = RGlobal (makeGlobalRunner (Library pf) home home (lc_Name (cfg_LocalCluster conf))
        (cfg_Global conf) True rsl) #
      concat (map (runners_of (Library pf) home (cfg_Global conf) rsl)
        (zip (map the (cfg_RemoteClusters conf)) clients))"
    by (rule main_setup_Serving)
  show ?thesis unfolding r list.pred_inject by (intro conjI first [THEN conjunct1] first [THEN conjunct2] rest)
qed

text \<open>C37: the health check answers 503 until \<open>Run\<close> has been called on every runner, and 200 from then on,
  however the waits for the caches go.\<close>

theorem healthz_after_start:
  assumes "main_setup pf fl = Serving zones runners" "length started = length runners"
  shows "healthz (after_start started runners) =
    (if list_all (\<lambda>s. s \<noteq> None) started then 200 else 503)"
proof -
  have "list_all Runner_Initialised (after_start st rs) \<longleftrightarrow> list_all (\<lambda>s. s \<noteq> None) st"
    if "length st = length rs" "list_all (\<lambda>r. \<not> Runner_Initialised r \<and> unstopped r) rs" for st rs
    using that
    by (induction st rs rule: list_induct2)
      (auto simp: after_start_def Runner_Run_initialises split: option.splits)
  from this [OF assms(2) fresh_runners [OF assms(1)]] show ?thesis by (simp add: healthz_iff)
qed

theorem healthz_after_start_witness:
  "\<exists>zones runners. main_setup (test_platform ''t'') test_flags = Serving zones runners \<and>
     healthz (after_start (replicate (length runners) (Some (\<lambda>_. None, empty_cluster))) runners) = 200"
proof -
  obtain zones runners where run: "main_setup (test_platform ''t'') test_flags = Serving zones runners"
    using test_serving by blast
  from healthz_after_start [OF run, of "replicate (length runners) (Some (\<lambda>_. None, empty_cluster))"] run
  show ?thesis by (auto simp: list_all_iff)
qed

lemma Runner_Stop_returns: "unstopped r \<Longrightarrow> \<exists>r'. Runner_Stop lib r = Returned r'"
  by (cases r) (auto simp: mr_Stop_def gr_Stop_def watcher_Stop_def Let_def)

text \<open>C38: once the server has returned, stopping the runners one after the other does not panic, whichever
  of them were started.\<close>

theorem shutdown_returns:
  assumes "main_setup pf fl = Serving zones runners" "length started = length runners"
  shows "\<exists>rs. stop_runners (Library pf) (after_start started runners) = Returned rs \<and> length rs = length runners"
proof -
  have "\<exists>rs'. stop_runners lib (after_start st rs) = Returned rs' \<and> length rs' = length rs"
    if "length st = length rs" "list_all (\<lambda>r. \<not> Runner_Initialised r \<and> unstopped r) rs" for st rs lib
    using that
  proof (induction st rs rule: list_induct2)
    case (Cons s st r rs)
    have "unstopped (case s of None \<Rightarrow> r | Some (wait, w) \<Rightarrow> fst (Runner_Run wait r w))"
      using Cons.prems Runner_Run_unstopped by (auto split: option.splits)
    then obtain r' where r': "Runner_Stop lib (case s of None \<Rightarrow> r | Some (wait, w) \<Rightarrow> fst (Runner_Run wait r w)) =
        Returned r'"
      using Runner_Stop_returns by blast
    from Cons obtain rs' where "stop_runners lib (after_start st rs) = Returned rs'" "length rs' = length rs"
      by auto
    with r' show ?case by (simp add: after_start_def)
  qed (simp add: after_start_def)
  from this [OF assms(2) fresh_runners [OF assms(1)]] show ?thesis .
qed

theorem shutdown_returns_witness:
  "\<exists>zones runners rs. main_setup (test_platform ''t'') test_flags = Serving zones runners \<and>
     stop_runners slice_library (after_start (replicate (length runners) (Some (\<lambda>_. Some True, empty_cluster))) runners) =
       Returned rs"
proof -
  obtain zones runners where run: "main_setup (test_platform ''t'') test_flags = Serving zones runners"
    using test_serving by blast
  have lib: "Library (test_platform ''t'') = slice_library" by (simp add: test_platform_def)
  from shutdown_returns [OF run, of "replicate (length runners) (Some (\<lambda>_. Some True, empty_cluster))"] run
  show ?thesis by (auto simp: lib)
qed

end
