(* ===== verification/Spec2Isabelle.thy ===== *)
theory Spec2Isabelle
  imports Names KubeClient MemQueue MirrorRunner GlobalTargets Mirroring SliceMirroring Lifecycle
    Reconciling MirrorSystem SliceSystem GlobalSafety Durations MainProperties
begin

text \<open>
  \<^bold>\<open>The program.\<close>  semaphore-service-mirror watches the services of remote Kubernetes clusters and
  keeps copies of them in a namespace of the local cluster.  For every remote cluster there is a
  mirror runner, which copies each selected service and its endpoints under a generated name, and a
  global runner; one more global runner watches the local cluster.  The global runners share one
  store of global services, each of which lists the clusters that have it, and keep a local service
  for each entry, with copies of the endpoint slices of the clusters behind it.

  A runner has informers (client-go caches with callbacks), a queue of keys per kind of object, and
  a worker per queue.  A callback passes the changed object to an event handler, which adds its key
  to the queue; the worker takes a key, and the reconcile function reads the cache and makes the
  requests that bring the local cluster in line.  A key whose reconciliation fails is queued again.

  \<^bold>\<open>Theories and code.\<close>

    \<^item> \<open>Prelude\<close>, \<open>KubeTypes\<close>: results, panics, errors; the Kubernetes objects with the fields used.
    \<^item> \<open>Utils\<close>, \<open>Names\<close>: \<open>utils.go\<close>; when generated names are distinct and where they clash.
    \<^item> \<open>KubeClient\<close>: \<open>kube/common.go\<close> over a client with the laws of the locales
      \<open>resource_client\<close> (requests may fail) and \<open>reliable_client\<close> (they do not), both interpreted
      on an in-memory cluster.
    \<^item> \<open>Metrics\<close>: \<open>metrics/*.go\<close>, updates and series as values.
    \<^item> \<open>Watcher\<close>: the three \<open>kube/*_watcher.go\<close>, one model and its instances; the locale
      \<open>informer_cache\<close> is what a client-go store answers.
    \<^item> \<open>Queue\<close>, \<open>MemQueue\<close>: \<open>queue.go\<close> over client-go's rate-limited work queue, whose documented
      behaviour is the locale \<open>workqueue_client\<close> (and \<open>stopping_workqueue\<close> for the shutdown),
      interpreted on an in-memory queue.
    \<^item> \<open>GlobalServiceStore\<close>: \<open>globalservice.go\<close>, its invariant, and the store as a map from a
      service to the set of its clusters.
    \<^item> \<open>Runners\<close>, \<open>MirrorRunner\<close>, \<open>GlobalRunner\<close>: \<open>mirror_runner.go\<close> and \<open>global_runner.go\<close>, and what
      the two share.
    \<^item> \<open>Mirroring\<close>, \<open>SliceMirroring\<close>, \<open>GlobalServices\<close>, \<open>GlobalTargets\<close>: what each reconcile function
      leaves in the cluster and in the store, on every path, and over sequences of them.
    \<^item> \<open>Lifecycle\<close>: starting and stopping runners, the callbacks, tombstones.
    \<^item> \<open>Reconciling\<close>: from an event to its reconciliation; failed keys; the worker's return.
    \<^item> \<open>Controller\<close>, \<open>MirrorSystem\<close>: informer, queue and worker interleaved, as a step relation; the
      locale \<open>level_controller\<close> is the contract between them under which no change is lost, and
      \<open>settling_controller\<close> adds that requests succeed.  \<open>SliceSystem\<close>: the endpoint slices.
    \<^item> \<open>GlobalSystem\<close>, \<open>GlobalConvergence\<close>, \<open>GlobalSafety\<close>: all global runners at once, on one store
      and one cluster; the contract is the locale \<open>global_runners\<close>, and to each runner the others'
      steps are foreign steps of its own controller; \<open>answering_runners\<close> adds that requests succeed.
    \<^item> \<open>Backoff\<close>: \<open>backoff/*.go\<close>, the \<open>float64\<close> operations being a parameter; \<open>whole64\<close> is their
      instance on whole numbers, with rounding and overflow.  \<open>Config\<close>: \<open>config.go\<close>.  \<open>Durations\<close>: the JSON form of a
      duration, with Go's printing and parsing of one.
    \<^item> \<open>MainApp\<close>, \<open>MainProperties\<close>: \<open>main.go\<close>, \<open>runner.go\<close> and \<open>kube/client.go\<close>; the runners \<open>main\<close>
      starts, health check and shutdown.

  \<^bold>\<open>State.\<close>  A reconcile function is a function of the world (what the API servers hold) to a result,
  or a panic, and the next world.  A runner is a record of the Go struct's fields; fields the Go code
  writes (\<open>initialised\<close>, the queues, the shared label map of a global runner) are returned updated.
  The store of global services, shared by pointer, is passed along with the world.  \<open>view w k\<close> is
  the object at a key of the cluster in the world \<open>w\<close>, and \<open>admit old new\<close> what the API server
  makes of a submitted object; both are parameters.

  \<^bold>\<open>What is shown.\<close>  Each reconcile function leaves exactly the specified mirror, touches nothing else
  and does not panic, the one case where reconciling a global service does panic being
  characterised, and shown not to arise where requests are answered and nobody else removes a
  global service; the store of global services is at any time what a simple registry of clusters
  becomes on the answers of the lookups; no change of a remote service, of endpoints or of
  endpoint slices is lost in any interleaving of events, reconciliations and failures, and a worker
  that meets no failure leaves the local cluster mirroring every service its cache has held; once
  all global runners have settled, the store and the local global services are exactly those of
  the union of the caches; every endpoint slice that is submitted has its own labels and a hint
  on every endpoint; start-up synchronisation deletes stale mirrors only; queues start after the
  caches have synced, and their workers return once stopped; requeued keys and their metric are
  the keys whose last attempt failed; \<open>Retry\<close> returns when it should and only then; the waits are
  within bounds whatever the floating-point unit does, and double as they should on IEEE 754; a
  configuration is accepted exactly when it is complete, and the runners are those it describes.

  \<^bold>\<open>What the system theorems assume.\<close>  Keys have no slash and namespaces do not hold the separator;
  others leave the mirrors alone, and the API server keeps the fields the program sets.  That no
  change is lost is stated for mirrors that were not there at the start, and so is what settled
  global runners leave; what a settled mirror runner leaves is stated for any start, where a stale
  mirror of a service the cache never held stays: only \<open>ServiceSync\<close> removes those, which has to be
  switched on.  Global runners are told apart by the names of their clusters, which \<open>config.go\<close> does
  not check to be distinct.  Endpoint slices keep their names, whatever their namespace, so that
  no two slices may have one name.

  \<^bold>\<open>Loops.\<close>  Loops over lists are recursion on the list.  The worker and the retry loop may run for
  ever and are partial functions to an option, \<open>None\<close> being "does not return"; that they return is
  proved from the work queue's shutdown and from a count of the failures.  \<open>process_items\<close> takes a
  number of items, which its theorems give as the number of pending keys.  The attempt counter is a
  64 bit word.

  \<^bold>\<open>Not modelled.\<close>  Log lines (\<open>log/logger.go\<close> and its calls); parsing the command line, the HTTP
  server and serving metrics; \<open>Run\<close> and \<open>HasSynced\<close> of the watchers, which only call client-go's
  controller (its progress is the parameter \<open>wait\<close> and the events of a run); goroutines running
  truly in parallel: steps of different goroutines follow one another, so that a data race on the
  store of global services, which has no lock, is outside the model; resource versions and the
  TLS handshake.  Tests, manifests and build files have no behaviour of their own.
\<close>

end
